(* ===== verification/Rust_Base.thy ===== *)
theory Rust_Base
  imports Main "HOL-Library.Char_ord" "HOL-Library.List_Lexorder" "HOL-Library.Sublist"
begin

text \<open>
  The prelude of the development: the parts of Rust's standard library that the
  server uses on strings and integers, the SQL fragment its queries use, and the
  collections of rewrite rules the component theories share.

  A Rust \<open>String\<close> is modelled by the list of its UTF-8 bytes (a HOL \<^typ>\<open>char\<close> is
  one byte), so that lengths, slices and comparisons are those of the code.
  An \<open>i64\<close> or \<open>u64\<close> is an \<^typ>\<open>int\<close> whose range is checked where the code can
  leave it. A point in time is the number of seconds since the epoch.
\<close>

named_theorems str_simps \<open>string operations on concatenations\<close>
named_theorems tbl_simps \<open>reading a table after a statement\<close>

type_synonym time = int

section \<open>Strings\<close>

definition starts_with :: "string \<Rightarrow> string \<Rightarrow> bool" where
  "starts_with s p \<longleftrightarrow> take (length p) s = p"

definition ends_with :: "string \<Rightarrow> string \<Rightarrow> bool" where
  "ends_with s p \<longleftrightarrow> starts_with (rev s) (rev p)"

definition strip_prefix :: "string \<Rightarrow> string \<Rightarrow> string option" where
  "strip_prefix s p = (if starts_with s p then Some (drop (length p) s) else None)"

definition strip_suffix :: "string \<Rightarrow> string \<Rightarrow> string option" where
  "strip_suffix s p = (if ends_with s p then Some (take (length s - length p) s) else None)"

fun contains :: "string \<Rightarrow> string \<Rightarrow> bool" where
  "contains [] p \<longleftrightarrow> p = []"
| "contains (c # cs) p \<longleftrightarrow> starts_with (c # cs) p \<or> contains cs p"

fun find_str :: "string \<Rightarrow> string \<Rightarrow> nat option" where
  "find_str [] p = (if p = [] then Some 0 else None)"
| "find_str (c # cs) p =
     (if starts_with (c # cs) p then Some 0 else map_option Suc (find_str cs p))"

text \<open>\<open>str::split\<close> on one ASCII character: always at least one part.\<close>

fun split_on :: "char \<Rightarrow> string \<Rightarrow> string list" where
  "split_on d [] = [[]]"
| "split_on d (c # cs) =
     (if c = d then [] # split_on d cs
      else (case split_on d cs of [] \<Rightarrow> [[c]] | w # ws \<Rightarrow> (c # w) # ws))"

fun join :: "string \<Rightarrow> string list \<Rightarrow> string" where
  "join sep [] = []"
| "join sep [w] = w"
| "join sep (w # v # ws) = w @ sep @ join sep (v # ws)"

fun split_once :: "char \<Rightarrow> string \<Rightarrow> (string \<times> string) option" where
  "split_once d [] = None"
| "split_once d (c # cs) =
     (if c = d then Some ([], cs)
      else map_option (\<lambda>(a, b). (c # a, b)) (split_once d cs))"

definition rsplit_once :: "char \<Rightarrow> string \<Rightarrow> (string \<times> string) option" where
  "rsplit_once d s = map_option (\<lambda>(a, b). (rev b, rev a)) (split_once d (rev s))"

text \<open>\<open>s.rsplit('/').next().unwrap_or(s)\<close>: the last segment.\<close>

definition basename :: "string \<Rightarrow> string" where
  "basename s = last (split_on (CHR ''/'') s)"

definition trim_start_char :: "char \<Rightarrow> string \<Rightarrow> string" where
  "trim_start_char d s = dropWhile (\<lambda>c. c = d) s"

definition trim_end_char :: "char \<Rightarrow> string \<Rightarrow> string" where
  "trim_end_char d s = rev (dropWhile (\<lambda>c. c = d) (rev s))"

definition replace_char :: "char \<Rightarrow> string \<Rightarrow> string \<Rightarrow> string" where
  "replace_char d r s = concat (map (\<lambda>c. if c = d then r else [c]) s)"

text \<open>
  \<open>str::trim\<close> removes the characters of Unicode's \<open>White_Space\<close>: six ASCII ones and,
  in UTF-8, U+0085 and U+00A0 (two bytes), U+1680, U+2000 to U+200A, U+2028, U+2029,
  U+202F, U+205F and U+3000 (three bytes). \<open>byte\<close> builds a character from its code.
\<close>

abbreviation byte :: "nat \<Rightarrow> char" where "byte n \<equiv> char_of n"

definition ws1 :: "char \<Rightarrow> bool" where
  "ws1 c \<longleftrightarrow> (let n = (of_char c :: nat) in n = 32 \<or> (9 \<le> n \<and> n \<le> 13))"

definition ws2 :: "char \<Rightarrow> char \<Rightarrow> bool" where
  "ws2 a b \<longleftrightarrow> (of_char a :: nat) = 194 \<and> ((of_char b :: nat) = 133 \<or> (of_char b :: nat) = 160)"

definition ws3 :: "char \<Rightarrow> char \<Rightarrow> char \<Rightarrow> bool" where
  "ws3 a b c \<longleftrightarrow> (let x = (of_char a :: nat); y = (of_char b :: nat); z = (of_char c :: nat) in
     (x = 225 \<and> y = 154 \<and> z = 128)
     \<or> (x = 226 \<and> y = 128 \<and> (128 \<le> z \<and> z \<le> 138 \<or> z = 168 \<or> z = 169 \<or> z = 175))
     \<or> (x = 226 \<and> y = 129 \<and> z = 159)
     \<or> (x = 227 \<and> y = 128 \<and> z = 128))"

fun trim_start :: "string \<Rightarrow> string" where
  "trim_start (a # b # c # s) =
     (if ws1 a then trim_start (b # c # s)
      else if ws2 a b then trim_start (c # s)
      else if ws3 a b c then trim_start s
      else a # b # c # s)"
| "trim_start [a, b] = (if ws1 a then trim_start [b] else if ws2 a b then [] else [a, b])"
| "trim_start [a] = (if ws1 a then [] else [a])"
| "trim_start [] = []"

text \<open>The same from the other end, on the reversed bytes.\<close>

fun trim_rev :: "string \<Rightarrow> string" where
  "trim_rev (a # b # c # s) =
     (if ws1 a then trim_rev (b # c # s)
      else if ws2 b a then trim_rev (c # s)
      else if ws3 c b a then trim_rev s
      else a # b # c # s)"
| "trim_rev [a, b] = (if ws1 a then trim_rev [b] else if ws2 b a then [] else [a, b])"
| "trim_rev [a] = (if ws1 a then [] else [a])"
| "trim_rev [] = []"

definition trim_end :: "string \<Rightarrow> string" where
  "trim_end s = rev (trim_rev (rev s))"

definition trim :: "string \<Rightarrow> string" where
  "trim s = trim_end (trim_start s)"

text \<open>\<open>Option::map(str::trim).filter(|s| !s.is_empty())\<close>, used on query parameters.\<close>

definition nonempty_trimmed :: "string option \<Rightarrow> string option" where
  "nonempty_trimmed o1 = (case o1 of None \<Rightarrow> None
     | Some s \<Rightarrow> if trim s = [] then None else Some (trim s))"

definition ascii_lower_char :: "char \<Rightarrow> char" where
  "ascii_lower_char c =
     (let n = (of_char c :: nat) in if 65 \<le> n \<and> n \<le> 90 then byte (n + 32) else c)"

definition ascii_lower :: "string \<Rightarrow> string" where
  "ascii_lower s = map ascii_lower_char s"

definition is_ascii_digit :: "char \<Rightarrow> bool" where
  "is_ascii_digit c \<longleftrightarrow> (let n = (of_char c :: nat) in 48 \<le> n \<and> n \<le> 57)"

definition is_ascii_alpha :: "char \<Rightarrow> bool" where
  "is_ascii_alpha c \<longleftrightarrow> (let n = (of_char c :: nat) in 65 \<le> n \<and> n \<le> 90 \<or> 97 \<le> n \<and> n \<le> 122)"

definition is_ascii_alphanumeric :: "char \<Rightarrow> bool" where
  "is_ascii_alphanumeric c \<longleftrightarrow> is_ascii_digit c \<or> is_ascii_alpha c"

section \<open>Integers and their decimal text\<close>

definition I64_MAX :: int where "I64_MAX = 9223372036854775807"
definition I64_MIN :: int where "I64_MIN = -9223372036854775808"
definition U64_MAX :: int where "U64_MAX = 18446744073709551615"

definition sat_i64 :: "int \<Rightarrow> int" where
  "sat_i64 x = max I64_MIN (min I64_MAX x)"

definition saturating_add :: "int \<Rightarrow> int \<Rightarrow> int" where
  "saturating_add a b = sat_i64 (a + b)"
definition saturating_sub :: "int \<Rightarrow> int \<Rightarrow> int" where
  "saturating_sub a b = sat_i64 (a - b)"
definition saturating_mul :: "int \<Rightarrow> int \<Rightarrow> int" where
  "saturating_mul a b = sat_i64 (a * b)"

definition in_i64 :: "int \<Rightarrow> bool" where
  "in_i64 x \<longleftrightarrow> I64_MIN \<le> x \<and> x \<le> I64_MAX"

fun show_nat :: "nat \<Rightarrow> string" where
  "show_nat n = (if n < 10 then [byte (48 + n)] else show_nat (n div 10) @ [byte (48 + n mod 10)])"

declare show_nat.simps [simp del]

definition show_int :: "int \<Rightarrow> string" where
  "show_int i = (if i < 0 then CHR ''-'' # show_nat (nat (- i)) else show_nat (nat i))"

text \<open>The digits of a number; \<open>None\<close> on an empty text or a character that is no digit.\<close>

definition digits_val :: "string \<Rightarrow> int option" where
  "digits_val s = (if s \<noteq> [] \<and> list_all is_ascii_digit s
     then Some (foldl (\<lambda>a c. 10 * a + (int (of_char c) - 48)) 0 s) else None)"

text \<open>
  \<open>str::parse::<u64>\<close>: an optional \<open>+\<close>, then digits, in range. \<open>str::parse::<i64>\<close>
  takes \<open>-\<close> as well.
\<close>

definition parse_u64 :: "string \<Rightarrow> int option" where
  "parse_u64 s =
     (let ds = (case s of c # cs \<Rightarrow> if c = CHR ''+'' then cs else s | [] \<Rightarrow> []) in
      case digits_val ds of None \<Rightarrow> None | Some n \<Rightarrow> if n \<le> U64_MAX then Some n else None)"

definition parse_i64 :: "string \<Rightarrow> int option" where
  "parse_i64 s =
     (case s of [] \<Rightarrow> None
      | c # cs \<Rightarrow>
        let v = (if c = CHR ''-'' then map_option uminus (digits_val cs)
                 else if c = CHR ''+'' then digits_val cs else digits_val s)
        in case v of None \<Rightarrow> None | Some n \<Rightarrow> if in_i64 n then Some n else None)"

section \<open>Facts about strings\<close>

lemma starts_with_iff: "starts_with s p \<longleftrightarrow> (\<exists>r. s = p @ r)"
proof
  assume "starts_with s p"
  then have "s = p @ drop (length p) s"
    by (metis append_take_drop_id starts_with_def)
  then show "\<exists>r. s = p @ r" ..
qed (auto simp: starts_with_def)

lemma starts_with_append [simp, str_simps]: "starts_with (p @ r) p"
  by (auto simp: starts_with_iff)

lemma starts_with_Nil [simp]: "starts_with s []"
  by (simp add: starts_with_def)

lemma starts_with_refl [simp]: "starts_with s s"
  by (simp add: starts_with_def)

lemma starts_with_trans: "starts_with s p \<Longrightarrow> starts_with p q \<Longrightarrow> starts_with s q"
  by (auto simp: starts_with_iff)

lemma starts_with_appendI: "starts_with p q \<Longrightarrow> starts_with (p @ r) q"
  by (auto simp: starts_with_iff)

lemma strip_prefix_Some: "strip_prefix s p = Some r \<longleftrightarrow> s = p @ r"
  by (auto simp: strip_prefix_def starts_with_iff)

lemma strip_prefix_append [simp, str_simps]: "strip_prefix (p @ r) p = Some r"
  by (simp add: strip_prefix_Some)

lemma ends_with_iff: "ends_with s p \<longleftrightarrow> (\<exists>r. s = r @ p)"
  unfolding ends_with_def starts_with_iff
  by (metis rev_append rev_rev_ident)

lemma contains_append_left: "contains (a @ p @ b) p"
proof (induction a)
  case Nil
  then show ?case
    by (cases "p @ b") (auto, metis starts_with_append)
qed auto

lemma contains_prefix [simp]: "contains (p @ b) p"
  using contains_append_left [of "[]"] by simp

lemma split_on_nonempty [simp]: "split_on d s \<noteq> []"
  by (induction s) (auto split: list.splits)

lemma join_split_on: "join [d] (split_on d s) = s"
proof (induction s)
  case Nil
  then show ?case by simp
next
  case (Cons c cs)
  obtain w ws where s: "split_on d cs = w # ws" by (meson split_on_nonempty neq_Nil_conv)
  with Cons show ?case by (cases ws) auto
qed

lemma split_on_no_sep: "w \<in> set (split_on d s) \<Longrightarrow> d \<notin> set w"
proof (induction s arbitrary: w)
  case (Cons c cs)
  obtain v vs where s: "split_on d cs = v # vs" by (meson split_on_nonempty neq_Nil_conv)
  from Cons.prems s Cons.IH [of v] Cons.IH [of w] show ?case
    by (auto split: if_splits)
qed auto

lemma split_on_single: "d \<notin> set s \<Longrightarrow> split_on d s = [s]"
  by (induction s) auto

lemma split_on_append: "d \<notin> set a \<Longrightarrow> split_on d (a @ d # b) = a # split_on d b"
  by (induction a) auto

lemma split_on_snoc_sep: "split_on d (s @ [d]) = split_on d s @ [[]]"
  by (induction s) (auto split: list.splits)

lemma split_on_app: "split_on d (a @ d # b) = split_on d a @ split_on d b"
  by (induction a) (auto split: list.splits)

lemma split_on_join:
  "ws \<noteq> [] \<Longrightarrow> (\<And>w. w \<in> set ws \<Longrightarrow> d \<notin> set w) \<Longrightarrow> split_on d (join [d] ws) = ws"
proof (induction ws rule: induct_list012)
  case (2 w)
  then show ?case by (simp add: split_on_single)
next
  case (3 w v ws)
  then show ?case by (simp add: split_on_append)
qed auto

lemma split_once_Some: "split_once d s = Some (a, b) \<longleftrightarrow> s = a @ d # b \<and> d \<notin> set a"
proof (induction s arbitrary: a)
  case (Cons c cs)
  then show ?case by (cases a) auto
qed auto

lemma split_once_None: "split_once d s = None \<longleftrightarrow> d \<notin> set s"
  by (induction s) auto

lemma find_str_char: "find_str s [c] = map_option (\<lambda>(a, b). length a) (split_once c s)"
  by (induction s) (auto simp: starts_with_def option.map_comp comp_def split_def)

lemma rsplit_once_Some: "rsplit_once d s = Some (a, b) \<longleftrightarrow> s = a @ d # b \<and> d \<notin> set b"
proof -
  have "rsplit_once d s = Some (a, b) \<longleftrightarrow> split_once d (rev s) = Some (rev b, rev a)"
    by (auto simp: rsplit_once_def)
  also have "\<dots> \<longleftrightarrow> s = a @ d # b \<and> d \<notin> set b"
    unfolding split_once_Some by (metis append.assoc append_Cons append_Nil rev.simps(2)
        rev_append rev_rev_ident set_rev)
  finally show ?thesis .
qed

lemma trim_start_char_no [simp]: "trim_start_char d s = [] \<or> hd (trim_start_char d s) \<noteq> d"
  unfolding trim_start_char_def using hd_dropWhile [of "\<lambda>c. c = d" s] by auto

lemma trim_end_char_append [simp]: "trim_end_char d (s @ [d]) = trim_end_char d s"
  by (simp add: trim_end_char_def)

lemma trim_end_char_id: "s = [] \<or> last s \<noteq> d \<Longrightarrow> trim_end_char d s = s"
  by (cases s rule: rev_cases) (auto simp: trim_end_char_def)

lemma trim_end_char_last: "trim_end_char d s = [] \<or> last (trim_end_char d s) \<noteq> d"
  unfolding trim_end_char_def using hd_dropWhile [of "\<lambda>c. c = d" "rev s"]
  by (auto simp: last_rev)

lemma suffix_trim_start: "suffix (trim_start s) s"
  by (induction s rule: trim_start.induct) (auto intro: suffix_ConsI)

lemma suffix_trim_rev: "suffix (trim_rev s) s"
  by (induction s rule: trim_rev.induct) (auto intro: suffix_ConsI)

lemma trim_start_idem: "trim_start (trim_start s) = trim_start s"
  by (induction s rule: trim_start.induct) auto

text \<open>A text with no white-space byte at either end is left alone by \<open>trim\<close>.\<close>

definition plain_char :: "char \<Rightarrow> bool" where
  "plain_char c \<longleftrightarrow> 33 \<le> (of_char c :: nat) \<and> (of_char c :: nat) < 127"

lemma plain_not_ws: "plain_char a \<Longrightarrow> \<not> ws1 a" "plain_char a \<Longrightarrow> \<not> ws2 a b"
  "plain_char a \<Longrightarrow> \<not> ws2 b a" "plain_char a \<Longrightarrow> \<not> ws3 a b c" "plain_char a \<Longrightarrow> \<not> ws3 c b a"
  by (auto simp: plain_char_def ws1_def ws2_def ws3_def Let_def)

lemma trim_start_plain: "s = [] \<or> plain_char (hd s) \<Longrightarrow> trim_start s = s"
  by (cases s rule: trim_start.cases) (auto simp: plain_not_ws)

lemma trim_rev_plain: "s = [] \<or> plain_char (hd s) \<Longrightarrow> trim_rev s = s"
  by (cases s rule: trim_rev.cases) (auto simp: plain_not_ws)

lemma trim_plain: "s = [] \<or> (plain_char (hd s) \<and> plain_char (last s)) \<Longrightarrow> trim s = s"
  by (auto simp: trim_def trim_end_def trim_start_plain trim_rev_plain hd_rev)

lemma trim_all_plain: "(\<And>c. c \<in> set s \<Longrightarrow> plain_char c) \<Longrightarrow> trim s = s"
  by (cases "s = []") (simp_all add: trim_plain)

lemma mem_map_filter: "y \<in> set (List.map_filter g xs) \<longleftrightarrow> (\<exists>x \<in> set xs. g x = Some y)"
  by (force simp: List.map_filter_def)

section \<open>Facts about integers and their text\<close>

lemma sat_i64_id [simp]: "in_i64 x \<Longrightarrow> sat_i64 x = x"
  by (auto simp: sat_i64_def in_i64_def)

lemma in_i64_sat [simp]: "in_i64 (sat_i64 x)"
  by (auto simp: sat_i64_def in_i64_def I64_MAX_def I64_MIN_def)

lemma of_char_digit: "d < 10 \<Longrightarrow> (of_char (byte (48 + d)) :: nat) = 48 + d"
  by simp

lemma is_ascii_digit_byte: "d < 10 \<Longrightarrow> is_ascii_digit (byte (48 + d))"
  by (simp add: is_ascii_digit_def)

lemma show_nat_digits: "list_all is_ascii_digit (show_nat n)"
proof (induction n rule: show_nat.induct)
  case (1 n)
  then show ?case
    by (subst show_nat.simps) (auto simp: is_ascii_digit_byte)
qed

lemma show_nat_nonempty [simp]: "show_nat n \<noteq> []"
  by (subst show_nat.simps) simp

lemma foldl_show_nat:
  "foldl (\<lambda>a c. 10 * a + (int (of_char c) - 48)) 0 (show_nat n) = int n"
proof (induction n rule: show_nat.induct)
  case (1 n)
  have d: "int (of_char (byte (48 + n mod 10))) = 48 + int (n mod 10)"
    by (simp add: of_char_digit)
  show ?case
  proof (cases "n < 10")
    case True
    then show ?thesis by (subst show_nat.simps) simp
  next
    case False
    have "10 * int (n div 10) + int (n mod 10) = int n"
      by (metis mult_div_mod_eq of_nat_add of_nat_mult of_nat_numeral)
    with False 1 d show ?thesis
      by (subst show_nat.simps) simp
  qed
qed

lemma digits_val_show_nat: "digits_val (show_nat n) = Some (int n)"
  by (simp add: digits_val_def show_nat_digits foldl_show_nat)

lemma digit_char_neq: "is_ascii_digit c \<Longrightarrow> c \<noteq> CHR ''-'' \<and> c \<noteq> CHR ''+'' \<and> c \<noteq> CHR ''.''"
  by (auto simp: is_ascii_digit_def)

lemma show_nat_hd: "\<exists>c cs. show_nat n = c # cs \<and> c \<noteq> CHR ''-'' \<and> c \<noteq> CHR ''+''"
  using show_nat_digits [of n] show_nat_nonempty [of n]
  by (cases "show_nat n") (auto dest: digit_char_neq)

lemma parse_i64_show_int: "in_i64 i \<Longrightarrow> parse_i64 (show_int i) = Some i"
proof -
  assume i: "in_i64 i"
  obtain c cs where n: "show_nat (nat i) = c # cs" "c \<noteq> CHR ''-''" "c \<noteq> CHR ''+''"
    using show_nat_hd by blast
  show ?thesis
    using i n digits_val_show_nat [of "nat i"]
    by (auto simp: parse_i64_def show_int_def digits_val_show_nat)
qed

lemma parse_u64_show_nat: "int n \<le> U64_MAX \<Longrightarrow> parse_u64 (show_nat n) = Some (int n)"
proof -
  obtain c cs where n: "show_nat n = c # cs" "c \<noteq> CHR ''-''" "c \<noteq> CHR ''+''"
    using show_nat_hd by blast
  then show "int n \<le> U64_MAX \<Longrightarrow> ?thesis"
    using digits_val_show_nat [of n] by (auto simp: parse_u64_def)
qed

lemma digits_val_nonneg: "digits_val s = Some n \<Longrightarrow> 0 \<le> n"
proof -
  have "list_all is_ascii_digit s \<Longrightarrow> 0 \<le> a \<Longrightarrow>
      0 \<le> foldl (\<lambda>a c. 10 * a + (int (of_char c) - 48)) a s" for a
    by (induction s arbitrary: a) (auto simp: is_ascii_digit_def Let_def)
  then show "digits_val s = Some n \<Longrightarrow> 0 \<le> n"
    by (auto simp: digits_val_def split: if_splits)
qed

lemma parse_u64_nonneg: "parse_u64 s = Some n \<Longrightarrow> 0 \<le> n \<and> n \<le> U64_MAX"
  by (auto simp: parse_u64_def Let_def dest: digits_val_nonneg split: option.splits if_splits)

lemma show_int_chars: "c \<in> set (show_int i) \<Longrightarrow> is_ascii_digit c \<or> c = CHR ''-''"
  using show_nat_digits by (auto simp: show_int_def list_all_iff split: if_splits)

lemma show_int_no_dot: "CHR ''.'' \<notin> set (show_int i)"
  using show_int_chars digit_char_neq by fastforce

lemma show_int_nonempty [simp]: "show_int i \<noteq> []"
  by (simp add: show_int_def)

end
