(* ===== verification/Sql_Base.thy ===== *)
theory Sql_Base
  imports Rust_Base
begin

text \<open>
  The SQL fragment of the server's queries, as functions on a table that is the list of
  its rows in scan order, and the locale of a table with a key. A query with \<open>LIMIT 1\<close> and
  no \<open>ORDER BY\<close> takes the first match in scan order; where the schema makes the match
  unique, the order does not matter.
\<close>

section \<open>SQL: LIKE, ordering, statements on a table\<close>

text \<open>
  SQLite's \<open>LIKE\<close>: \<open>%\<close> is any text, \<open>_\<close> one (UTF-8) character, ASCII letters match
  in either case, and the character after the escape character stands for itself.
\<close>

definition is_cont :: "char \<Rightarrow> bool" where
  "is_cont c \<longleftrightarrow> (let n = (of_char c :: nat) in 128 \<le> n \<and> n < 192)"

fun skip_utf8 :: "string \<Rightarrow> string" where
  "skip_utf8 [] = []"
| "skip_utf8 (c # cs) = (if (of_char c :: nat) \<ge> 192 then dropWhile is_cont cs else cs)"

definition ieq :: "char \<Rightarrow> char \<Rightarrow> bool" where
  "ieq a b \<longleftrightarrow> ascii_lower_char a = ascii_lower_char b"

lemma length_skip_utf8: "t \<noteq> [] \<Longrightarrow> length (skip_utf8 t) < length t"
  by (cases t) (auto intro: le_imp_less_Suc length_dropWhile_le)

function (sequential) sql_like :: "char option \<Rightarrow> string \<Rightarrow> string \<Rightarrow> bool" where
  "sql_like e [] t \<longleftrightarrow> t = []"
| "sql_like e (p # ps) t \<longleftrightarrow>
     (if e = Some p then
        (case (ps, t) of (q # qs, c # cs) \<Rightarrow> ieq q c \<and> sql_like e qs cs | _ \<Rightarrow> False)
      else if p = CHR ''%'' then
        sql_like e ps t \<or> (if t = [] then False else sql_like e (p # ps) (skip_utf8 t))
      else if p = CHR ''_'' then (if t = [] then False else sql_like e ps (skip_utf8 t))
      else (case t of [] \<Rightarrow> False | c # cs \<Rightarrow> ieq p c \<and> sql_like e ps cs))"
  by pat_completeness auto
termination
  by (relation "measure (\<lambda>(e, p, t). length p + length t)")
     (auto dest: length_skip_utf8 simp: length_skip_utf8 less_SucI)

declare sql_like.simps [simp del]

text \<open>A \<open>BTreeSet<String>\<close> read in order, and \<open>ORDER BY\<close> on a text column.\<close>

definition btree_list :: "string list \<Rightarrow> string list" where
  "btree_list xs = sort (remdups xs)"

definition select_where :: "('r \<Rightarrow> bool) \<Rightarrow> 'r list \<Rightarrow> 'r list" where
  "select_where P rows = filter P rows"

text \<open>\<open>SELECT ... LIMIT 1\<close>: the first match in scan order (the order of the list).\<close>

definition select_one :: "('r \<Rightarrow> bool) \<Rightarrow> 'r list \<Rightarrow> 'r option" where
  "select_one P rows = find P rows"

definition update_where :: "('r \<Rightarrow> bool) \<Rightarrow> ('r \<Rightarrow> 'r) \<Rightarrow> 'r list \<Rightarrow> 'r list" where
  "update_where P f rows = map (\<lambda>r. if P r then f r else r) rows"

definition delete_where :: "('r \<Rightarrow> bool) \<Rightarrow> 'r list \<Rightarrow> 'r list" where
  "delete_where P rows = filter (\<lambda>r. \<not> P r) rows"

definition count_where :: "('r \<Rightarrow> bool) \<Rightarrow> 'r list \<Rightarrow> int" where
  "count_where P rows = int (length (filter P rows))"


text \<open>
  The escaping the queries apply to user text before it becomes a \<open>LIKE\<close> pattern with
  \<open>ESCAPE '\'\<close>: the escape character first, then \<open>%\<close> and \<open>_\<close>.
\<close>

abbreviation backslash :: char where "backslash \<equiv> CHR 0x5C"

definition like_escape :: "string \<Rightarrow> string" where
  "like_escape s =
     replace_char (CHR ''_'') [backslash, CHR ''_'']
       (replace_char (CHR ''%'') [backslash, CHR ''%'']
         (replace_char backslash [backslash, backslash] s))"

text \<open>\<open>original_filename LIKE format!("{}%", like_escape(prefix)) ESCAPE '\'\<close>\<close>

definition like_prefix :: "string \<Rightarrow> string \<Rightarrow> bool" where
  "like_prefix p t \<longleftrightarrow> sql_like (Some backslash) (like_escape p @ ''%'') t"

text \<open>\<open>original_filename LIKE format!("%{}%", like_escape(q)) ESCAPE '\'\<close>\<close>

definition like_infix :: "string \<Rightarrow> string \<Rightarrow> bool" where
  "like_infix q t \<longleftrightarrow> sql_like (Some backslash) (''%'' @ like_escape q @ ''%'') t"

section \<open>What the LIKE patterns mean\<close>

lemma ieq_refl [simp]: "ieq a a"
  by (simp add: ieq_def)

definition iprefix :: "string \<Rightarrow> string \<Rightarrow> bool" where
  "iprefix p t \<longleftrightarrow> length p \<le> length t \<and> list_all2 ieq p (take (length p) t)"

definition like_esc1 :: "char \<Rightarrow> string" where
  "like_esc1 c = (if c = backslash \<or> c = CHR ''%'' \<or> c = CHR ''_'' then [backslash, c] else [c])"

lemma replace_char_concat: "replace_char d r (concat xs) = concat (map (replace_char d r) xs)"
  by (induction xs) (auto simp: replace_char_def)

lemma replace_char_append [simp]:
  "replace_char d r (a @ b) = replace_char d r a @ replace_char d r b"
  by (simp add: replace_char_def)

lemma like_escape_concat: "like_escape s = concat (map like_esc1 s)"
proof -
  have "like_escape (c # cs) = like_esc1 c @ like_escape cs" for c cs
    by (auto simp: like_escape_def replace_char_def like_esc1_def)
  moreover have "like_escape [] = []"
    by (simp add: like_escape_def replace_char_def)
  ultimately show ?thesis by (induction s) auto
qed

lemma sql_like_any: "sql_like (Some backslash) ''%'' t"
proof (induction t rule: measure_induct_rule [of length])
  case (less t)
  show ?case
  proof (cases "t = []")
    case True
    then show ?thesis by (simp add: sql_like.simps)
  next
    case False
    then have "sql_like (Some backslash) ''%'' (skip_utf8 t)"
      by (intro less.IH length_skip_utf8)
    with False show ?thesis by (subst sql_like.simps) simp
  qed
qed

lemma sql_like_escaped:
  "sql_like (Some backslash) (concat (map like_esc1 p) @ r) t \<longleftrightarrow>
     length p \<le> length t \<and> list_all2 ieq p (take (length p) t)
     \<and> sql_like (Some backslash) r (drop (length p) t)"
proof (induction p arbitrary: t)
  case (Cons c p)
  show ?case
  proof (cases t)
    case Nil
    then show ?thesis
      by (auto simp: like_esc1_def sql_like.simps split: list.splits)
  next
    case (Cons d ds)
    then show ?thesis
      using Cons.IH [of ds]
      by (auto simp: like_esc1_def sql_like.simps)
  qed
qed simp

lemma like_prefix_iff: "like_prefix p t \<longleftrightarrow> iprefix p t"
  by (simp add: like_prefix_def like_escape_concat sql_like_escaped sql_like_any iprefix_def)

lemma iprefix_starts_with: "starts_with t p \<Longrightarrow> iprefix p t"
  by (auto simp: iprefix_def starts_with_iff list_all2_refl)

lemma like_prefix_starts_with: "starts_with t p \<Longrightarrow> like_prefix p t"
  by (simp add: like_prefix_iff iprefix_starts_with)

section \<open>Tables\<close>

lemma find_append: "find P (xs @ ys) = (case find P xs of None \<Rightarrow> find P ys | Some x \<Rightarrow> Some x)"
  by (induction xs) auto

lemma select_one_Some: "select_one P rows = Some r \<Longrightarrow> r \<in> set rows \<and> P r"
  by (auto simp: select_one_def find_Some_iff)

lemma select_one_None: "select_one P rows = None \<longleftrightarrow> (\<forall>r \<in> set rows. \<not> P r)"
  by (auto simp: select_one_def find_None_iff)

lemma select_one_ex: "r \<in> set rows \<Longrightarrow> P r \<Longrightarrow> \<exists>r'. select_one P rows = Some r'"
  using select_one_None by fastforce

lemma select_one_unique:
  "r \<in> set rows \<Longrightarrow> P r \<Longrightarrow> (\<And>r'. r' \<in> set rows \<Longrightarrow> P r' \<Longrightarrow> r' = r) \<Longrightarrow> select_one P rows = Some r"
  using select_one_ex select_one_Some by metis

lemma set_select_where [tbl_simps]: "set (select_where P rows) = {r \<in> set rows. P r}"
  by (auto simp: select_where_def)

lemma set_update_where [tbl_simps]:
  "set (update_where P f rows) = (\<lambda>r. if P r then f r else r) ` set rows"
  by (simp add: update_where_def)

lemma set_delete_where [tbl_simps]: "set (delete_where P rows) = {r \<in> set rows. \<not> P r}"
  by (auto simp: delete_where_def)

lemma count_where_0: "count_where P rows = 0 \<longleftrightarrow> (\<forall>r \<in> set rows. \<not> P r)"
  by (auto simp: count_where_def filter_empty_conv)

lemma count_where_pos: "count_where P rows > 0 \<longleftrightarrow> (\<exists>r \<in> set rows. P r)"
  using count_where_0 [of P rows] by (auto simp: count_where_def)

lemma map_key_update: "(\<And>r. k (f r) = k r) \<Longrightarrow> map k (update_where P f rows) = map k rows"
  by (simp add: update_where_def)

lemma distinct_delete: "distinct (map k rows) \<Longrightarrow> distinct (map k (delete_where P rows))"
  by (simp add: delete_where_def distinct_map_filter)

text \<open>
  A table of the database: a field of the state (\<open>get\<close>, \<open>put\<close>) whose rows carry a key.
  The locale gives, for every such table, what a lookup by key returns after each kind of
  statement and that the key stays unique; each table of the schema interprets it.
\<close>

definition row_by :: "('r \<Rightarrow> 'k) \<Rightarrow> 'k \<Rightarrow> 'r list \<Rightarrow> 'r option" where
  "row_by key k rows = select_one (\<lambda>r. key r = k) rows"

locale keyed_table =
  fixes key :: "'r \<Rightarrow> 'k"
    and get :: "'s \<Rightarrow> 'r list"
    and put :: "('r list \<Rightarrow> 'r list) \<Rightarrow> 's \<Rightarrow> 's"
  assumes get_put: "get (put h s) = h (get s)"
begin

lemma row_mem: "row_by key k (get s) = Some r \<Longrightarrow> r \<in> set (get s) \<and> key r = k"
  unfolding row_by_def by (rule select_one_Some)

lemma row_of_mem: "distinct (map key (get s)) \<Longrightarrow> r \<in> set (get s) \<Longrightarrow> row_by key (key r) (get s) = Some r"
  unfolding row_by_def
  by (rule select_one_unique) (auto simp: distinct_map dest: inj_onD)

lemma row_None: "row_by key k (get s) = None \<longleftrightarrow> k \<notin> key ` set (get s)"
  by (auto simp: row_by_def select_one_None)

lemma row_insert:
  "key r \<notin> key ` set (get s) \<Longrightarrow>
     row_by key k (get (put (\<lambda>rows. rows @ [r]) s)) = (if k = key r then Some r else row_by key k (get s))"
  using row_None [of k s] row_None [of "key r" s]
  by (auto simp: get_put row_by_def select_one_def find_append split: option.splits)

lemma distinct_insert:
  "distinct (map key (get s)) \<Longrightarrow> key r \<notin> key ` set (get s) \<Longrightarrow>
     distinct (map key (get (put (\<lambda>rows. rows @ [r]) s)))"
  by (simp add: get_put)

lemma row_delete:
  "row_by key k (get (put (delete_where (\<lambda>r. key r = j)) s))
     = (if k = j then None else row_by key k (get s))"
proof -
  have "find (\<lambda>r. key r = k) (filter (\<lambda>r. key r \<noteq> j) rows)
      = (if k = j then None else find (\<lambda>r. key r = k) rows)" for rows
    by (induction rows) auto
  then show ?thesis by (simp add: get_put row_by_def select_one_def delete_where_def)
qed

lemma distinct_delete_rows:
  "distinct (map key (get s)) \<Longrightarrow> distinct (map key (get (put (delete_where P) s)))"
  by (simp add: get_put distinct_delete)

lemma row_update:
  assumes "\<And>r. key (f r) = key r"
  shows "row_by key k (get (put (update_where (\<lambda>r. key r = j) f) s))
     = (if k = j then map_option f (row_by key k (get s)) else row_by key k (get s))"
proof -
  have "find (\<lambda>r. key r = k) (map (\<lambda>r. if key r = j then f r else r) rows)
      = (if k = j then map_option f (find (\<lambda>r. key r = k) rows) else find (\<lambda>r. key r = k) rows)" for rows
    by (induction rows) (auto simp: assms)
  then show ?thesis by (simp add: get_put row_by_def select_one_def update_where_def)
qed

lemma distinct_update:
  "(\<And>r. key (f r) = key r) \<Longrightarrow> distinct (map key (get s)) \<Longrightarrow>
     distinct (map key (get (put (update_where P f) s)))"
  by (simp add: get_put map_key_update)

end

text \<open>
  A table with an \<open>INTEGER PRIMARY KEY AUTOINCREMENT\<close>: ids are handed out by a counter
  that is above every id ever used, so an inserted row has a fresh id.
\<close>

locale auto_table = keyed_table key get put
  for key :: "'r \<Rightarrow> int" and get :: "'s \<Rightarrow> 'r list" and put :: "('r list \<Rightarrow> 'r list) \<Rightarrow> 's \<Rightarrow> 's" +
  fixes next_id :: "'s \<Rightarrow> int" and bump :: "(int \<Rightarrow> int) \<Rightarrow> 's \<Rightarrow> 's"
  assumes next_bump: "next_id (bump h s) = h (next_id s)"
    and get_bump: "get (bump h s) = get s"
    and next_put: "next_id (put g s) = next_id s"
begin

lemma fresh: "\<forall>r \<in> set (get s). key r < next_id s \<Longrightarrow> next_id s \<notin> key ` set (get s)"
  by auto

lemma insert_below:
  "\<forall>r \<in> set (get s). key r < next_id s \<Longrightarrow> key r = next_id s \<Longrightarrow>
     \<forall>r' \<in> set (get (put (\<lambda>rows. rows @ [r]) (bump (\<lambda>i. i + 1) s))).
       key r' < next_id (put (\<lambda>rows. rows @ [r]) (bump (\<lambda>i. i + 1) s))"
  by (auto simp: get_put get_bump next_put next_bump)

lemma insert_distinct:
  "distinct (map key (get s)) \<Longrightarrow> \<forall>r \<in> set (get s). key r < next_id s \<Longrightarrow> key r = next_id s \<Longrightarrow>
     distinct (map key (get (put (\<lambda>rows. rows @ [r]) (bump (\<lambda>i. i + 1) s))))"
  using fresh [of s] by (auto simp: get_put get_bump)

lemma insert_lookup:
  "\<forall>r \<in> set (get s). key r < next_id s \<Longrightarrow> key r = next_id s \<Longrightarrow>
     row_by key (key r) (get (put (\<lambda>rows. rows @ [r]) (bump (\<lambda>i. i + 1) s))) = Some r"
  using fresh [of s] row_insert [of r "bump (\<lambda>i. i + 1) s"] by (simp add: get_bump)

end

end
