(* ===== verification/Models.thy ===== *)
theory Models
  imports Sql_Base
begin

text \<open>
  The data model of \<open>src/db/models.rs\<close>: the enumerations with the text their \<open>Display\<close> and
  \<open>FromStr\<close> derivations read and write, the row types of the tables, and the two value types
  with behaviour of their own, CRUD permissions and retention units.
\<close>

section \<open>Hash algorithms\<close>

datatype etag_type = Md5 | Sha256 | Sha512 | Blake2_128 | Blake2_256 | Blake3_128 | Blake3_256

fun etag_type_to_string :: "etag_type \<Rightarrow> string" where
  "etag_type_to_string Md5 = ''md5''"
| "etag_type_to_string Sha256 = ''sha256''"
| "etag_type_to_string Sha512 = ''sha512''"
| "etag_type_to_string Blake2_128 = ''blake2-128''"
| "etag_type_to_string Blake2_256 = ''blake2-256''"
| "etag_type_to_string Blake3_128 = ''blake3-128''"
| "etag_type_to_string Blake3_256 = ''blake3-256''"

definition etag_type_from_str :: "string \<Rightarrow> etag_type option" where
  "etag_type_from_str s =
     find (\<lambda>t. etag_type_to_string t = s)
       [Md5, Sha256, Sha512, Blake2_128, Blake2_256, Blake3_128, Blake3_256]"

section \<open>Rows\<close>

record object_record =
  obj_id :: int
  original_filename :: string
  filepath :: string
  file_format :: string
  filesize_bytes :: int
  obj_etag_type :: etag_type
  etag :: string
  date_uploaded :: time
  date_modified :: time
  obj_bucket_id :: int
  deleted_at :: "time option"

record bucket_record =
  bucket_id :: int
  bucket_name :: string
  bucket_created_utc :: time
  owner_account_id :: "int option"
  replicate_to_all :: bool
  bucket_etag_type :: etag_type
  etag_rehash_status :: "string option"
  etag_rehash_processed :: int
  etag_rehash_total :: int
  etag_rehash_error :: "string option"

record account_record =
  account_id :: int
  username_hex :: string
  password_hash :: string
  display_name :: string
  is_disabled :: bool
  account_created_utc :: time
  account_updated_utc :: time
  created_by_account_id :: "int option"

record role_record =
  role_id :: int
  role_name :: string
  position :: int
  is_owner :: bool

section \<open>CRUD permissions\<close>

datatype crud_perms = CrudPerms (can_create: bool) (can_read: bool) (can_update: bool) (can_delete: bool)

definition perms_FULL :: crud_perms where "perms_FULL = CrudPerms True True True True"
definition perms_NONE :: crud_perms where "perms_NONE = CrudPerms False False False False"

definition perms_or :: "crud_perms \<Rightarrow> crud_perms \<Rightarrow> crud_perms" where
  "perms_or a b = CrudPerms (can_create a \<or> can_create b) (can_read a \<or> can_read b)
     (can_update a \<or> can_update b) (can_delete a \<or> can_delete b)"

datatype crud_action = Create | Read | Update | Delete

fun perms_allow :: "crud_perms \<Rightarrow> crud_action \<Rightarrow> bool" where
  "perms_allow p Create = can_create p"
| "perms_allow p Read = can_read p"
| "perms_allow p Update = can_update p"
| "perms_allow p Delete = can_delete p"

record role_bucket_permission =
  rbp_role_id :: int
  rbp_bucket_id :: int
  rbp_perms :: crud_perms

record session =
  token :: string
  session_account_id :: int
  expires_utc :: time

section \<open>Recycle-bin retention\<close>

datatype retention_unit = Second | Minute | Hour | Day | Month | Year | Decade

fun unit_secs :: "retention_unit \<Rightarrow> int" where
  "unit_secs Second = 1"
| "unit_secs Minute = 60"
| "unit_secs Hour = 3600"
| "unit_secs Day = 86400"
| "unit_secs Month = 30 * 86400"
| "unit_secs Year = 365 * 86400"
| "unit_secs Decade = 3650 * 86400"

definition to_seconds :: "retention_unit \<Rightarrow> int \<Rightarrow> int" where
  "to_seconds u v = saturating_mul v (unit_secs u)"

record app_settings =
  recycle_retention_value :: int
  recycle_retention_unit :: retention_unit

section \<open>Shares, peers, outbox\<close>

datatype share_target_kind = File | Folder
datatype share_access_mode = SpecificUsers | BucketReaders | Public

record share_link_record =
  share_id :: int
  share_token :: string
  short_code :: "string option"
  share_bucket_id :: int
  target_key :: string
  target_kind :: share_target_kind
  access_mode :: share_access_mode
  expires_at :: "time option"
  share_created_by :: int
  share_created_at :: time
  revoked_at :: "time option"

record cluster_peer =
  peer_id :: string
  wireguard_endpoint :: string
  is_active :: bool
  last_heartbeat_utc :: "time option"

datatype quota_mode = Soft | Hard

record bucket_node_assignment =
  bna_bucket_id :: int
  bna_peer_id :: string
  allocated_bytes :: int
  quota_mode :: quota_mode

datatype outbox_operation = Put | DeleteOp
datatype outbox_status = Pending | InFlight | Completed | Failed

fun outbox_operation_to_string :: "outbox_operation \<Rightarrow> string" where
  "outbox_operation_to_string Put = ''PUT''"
| "outbox_operation_to_string DeleteOp = ''DELETE''"

fun outbox_status_to_string :: "outbox_status \<Rightarrow> string" where
  "outbox_status_to_string Pending = ''PENDING''"
| "outbox_status_to_string InFlight = ''IN_FLIGHT''"
| "outbox_status_to_string Completed = ''COMPLETED''"
| "outbox_status_to_string Failed = ''FAILED''"

text \<open>A row of \<open>replication_outbox\<close>, and the join of it that a worker claims.\<close>

record outbox_row =
  job_id :: int
  job_peer_id :: string
  job_object_id :: "int option"
  job_filepath_uuid :: string
  job_etag :: string
  job_operation :: outbox_operation
  job_status :: outbox_status
  attempt_count :: int
  next_retry_utc :: time

record outbox_job =
  oj_id :: int
  oj_peer_id :: string
  oj_object_id :: "int option"
  oj_filepath_uuid :: "string option"
  oj_etag :: "string option"
  oj_operation :: string
  oj_status :: string
  oj_attempt_count :: int
  oj_wireguard_endpoint :: string
  oj_original_filename :: "string option"
  oj_filepath :: "string option"
  oj_file_format :: "string option"
  oj_filesize_bytes :: "int option"
  oj_etag_type :: "string option"
  oj_object_etag :: "string option"
  oj_date_uploaded :: "time option"
  oj_date_modified :: "time option"
  oj_bucket_name :: "string option"

section \<open>Facts\<close>

lemma etag_type_from_to [simp]: "etag_type_from_str (etag_type_to_string t) = Some t"
  by (cases t) (simp_all add: etag_type_from_str_def)

lemma etag_type_from_str_Some: "etag_type_from_str s = Some t \<Longrightarrow> etag_type_to_string t = s"
  by (auto simp: etag_type_from_str_def split: if_splits)

text \<open>
  Permissions are ordered by what they allow; \<open>or\<close> is the least upper bound and the empty
  permission the least element, so folding \<open>or\<close> over grants computes their supremum.
\<close>

instantiation crud_perms :: bounded_semilattice_sup_bot
begin

definition bot_crud_perms :: crud_perms where "bot_crud_perms = perms_NONE"

definition sup_crud_perms :: "crud_perms \<Rightarrow> crud_perms \<Rightarrow> crud_perms" where
  "sup_crud_perms = perms_or"

definition less_eq_crud_perms :: "crud_perms \<Rightarrow> crud_perms \<Rightarrow> bool" where
  "less_eq_crud_perms a b \<longleftrightarrow> (\<forall>act. perms_allow a act \<longrightarrow> perms_allow b act)"

definition less_crud_perms :: "crud_perms \<Rightarrow> crud_perms \<Rightarrow> bool" where
  "less_crud_perms a b \<longleftrightarrow> a \<le> b \<and> \<not> b \<le> a"

instance
proof
  fix x y z :: crud_perms
  have ext: "a = b" if "\<And>act. perms_allow a act = perms_allow b act" for a b
    using that [of Create] that [of Read] that [of Update] that [of Delete]
    by (cases a; cases b) simp
  have allow_or: "perms_allow (perms_or a b) act = (perms_allow a act \<or> perms_allow b act)" for a b act
    by (cases act) (simp_all add: perms_or_def)
  have allow_none: "\<not> perms_allow perms_NONE act" for act
    by (cases act) (simp_all add: perms_NONE_def)
  show "(x < y) = (x \<le> y \<and> \<not> y \<le> x)" by (simp add: less_crud_perms_def)
  show "x \<le> x" by (simp add: less_eq_crud_perms_def)
  show "x \<le> y \<Longrightarrow> y \<le> z \<Longrightarrow> x \<le> z" by (simp add: less_eq_crud_perms_def)
  show "x \<le> y \<Longrightarrow> y \<le> x \<Longrightarrow> x = y" by (rule ext) (auto simp: less_eq_crud_perms_def)
  show "x \<le> sup x y" "y \<le> sup x y"
    by (simp_all add: less_eq_crud_perms_def sup_crud_perms_def allow_or)
  show "y \<le> x \<Longrightarrow> z \<le> x \<Longrightarrow> sup y z \<le> x"
    by (auto simp: less_eq_crud_perms_def sup_crud_perms_def allow_or)
  show "bot \<le> x" by (simp add: less_eq_crud_perms_def bot_crud_perms_def allow_none)
qed

end

lemma perms_allow_or [simp]:
  "perms_allow (perms_or a b) act \<longleftrightarrow> perms_allow a act \<or> perms_allow b act"
  by (cases act) (simp_all add: perms_or_def)

lemma perms_allow_FULL [simp]: "perms_allow perms_FULL act"
  by (cases act) (simp_all add: perms_FULL_def)

lemma perms_allow_NONE [simp]: "\<not> perms_allow perms_NONE act"
  by (cases act) (simp_all add: perms_NONE_def)

lemma unit_secs_pos: "0 < unit_secs u"
  by (cases u) simp_all

lemma sat_i64_mono: "a \<le> b \<Longrightarrow> sat_i64 a \<le> sat_i64 b"
  by (auto simp: sat_i64_def)

lemma to_seconds_mono: "v \<le> w \<Longrightarrow> to_seconds u v \<le> to_seconds u w"
  using mult_right_mono [of v w "unit_secs u"] unit_secs_pos [of u]
  by (simp add: to_seconds_def saturating_mul_def sat_i64_mono)

lemma to_seconds_nonneg: "0 \<le> v \<Longrightarrow> 0 \<le> to_seconds u v"
  using to_seconds_mono [of 0 v u]
  by (simp add: to_seconds_def saturating_mul_def sat_i64_def I64_MAX_def I64_MIN_def)

end
