(* ===== verification/Database.thy ===== *)
theory Database
  imports Models
begin

text \<open>
  The metadata database: one field per table of \<open>migrations/\<close>, each table the list of its
  rows, with the counters of the \<open>AUTOINCREMENT\<close> keys; the errors a statement can end with;
  the constraints of the schema as an invariant.
\<close>

section \<open>State\<close>

record db =
  objects :: "object_record list"
  next_object_id :: int
  buckets :: "bucket_record list"
  next_bucket_id :: int
  accounts :: "account_record list"
  next_account_id :: int
  roles :: "role_record list"
  next_role_id :: int
  account_roles :: "(int \<times> int) list"
  role_perms :: "role_bucket_permission list"
  sessions :: "session list"
  settings :: "app_settings option"
  peers :: "cluster_peer list"
  outbox :: "outbox_row list"
  next_job_id :: int
  repl_peers :: "bucket_node_assignment list"
  share_links :: "share_link_record list"
  next_share_id :: int
  share_users :: "(int \<times> int) list"

text \<open>The database right after the migrations: the seeded bucket, role, grant and settings.\<close>

definition initial_db :: "time \<Rightarrow> db" where
  "initial_db now = \<lparr>objects = [], next_object_id = 1,
     buckets = [\<lparr>bucket_id = 1, bucket_name = ''storage'', bucket_created_utc = now,
       owner_account_id = None, replicate_to_all = True, bucket_etag_type = Md5,
       etag_rehash_status = None, etag_rehash_processed = 0, etag_rehash_total = 0,
       etag_rehash_error = None\<rparr>],
     next_bucket_id = 2,
     accounts = [], next_account_id = 1,
     roles = [\<lparr>role_id = 1, role_name = ''Owner'', position = 1000, is_owner = True\<rparr>],
     next_role_id = 2, account_roles = [],
     role_perms = [\<lparr>rbp_role_id = 1, rbp_bucket_id = 1, rbp_perms = perms_FULL\<rparr>],
     sessions = [],
     settings = Some \<lparr>recycle_retention_value = 30, recycle_retention_unit = Day\<rparr>,
     peers = [], outbox = [], next_job_id = 1, repl_peers = [],
     share_links = [], next_share_id = 1, share_users = []\<rparr>"

section \<open>Errors\<close>

text \<open>
  An error is a \<open>bail!\<close> or \<open>context\<close> of the code with its message, or a constraint the
  database reports. The handlers look for a text inside the message, so the model keeps it;
  the texts of the constraint errors are SQLite's.
\<close>

datatype error = Bail string | Unique string | ForeignKey | Check string

fun err_msg :: "error \<Rightarrow> string" where
  "err_msg (Bail m) = m"
| "err_msg (Unique cols) = ''UNIQUE constraint failed: '' @ cols"
| "err_msg ForeignKey = ''FOREIGN KEY constraint failed''"
| "err_msg (Check c) = ''CHECK constraint failed: '' @ c"

definition err_has :: "error \<Rightarrow> string \<Rightarrow> bool" where
  "err_has e s \<longleftrightarrow> contains (err_msg e) s"

section \<open>Constraints of the schema\<close>

definition obj_active :: "object_record \<Rightarrow> bool" where
  "obj_active r \<longleftrightarrow> deleted_at r = None"

text \<open>\<open>idx_object_bucket_key_active\<close>: one active object per bucket and key.\<close>

definition active_key_unique :: "object_record list \<Rightarrow> bool" where
  "active_key_unique rows \<longleftrightarrow>
     distinct (map (\<lambda>r. (obj_bucket_id r, original_filename r)) (filter obj_active rows))"

definition objects_ok :: "db \<Rightarrow> bool" where
  "objects_ok d \<longleftrightarrow>
     distinct (map obj_id (objects d)) \<and> (\<forall>r \<in> set (objects d). obj_id r < next_object_id d)
     \<and> distinct (map filepath (objects d)) \<and> active_key_unique (objects d)"

text \<open>
  A table with an \<open>AUTOINCREMENT\<close> key and its counter, and a unique column. They are kept folded:
  the rules below say how each kind of statement acts on them.
\<close>

definition keyed_ok :: "('r \<Rightarrow> int) \<Rightarrow> 'r list \<Rightarrow> int \<Rightarrow> bool" where
  "keyed_ok key rows n \<longleftrightarrow> distinct (map key rows) \<and> (\<forall>r \<in> set rows. key r < n)"

definition uniq :: "('r \<Rightarrow> 'k) \<Rightarrow> 'r list \<Rightarrow> bool" where
  "uniq k rows \<longleftrightarrow> distinct (map k rows)"

text \<open>A unique column that may be NULL: \<open>short_code\<close>.\<close>

definition uniq_opt :: "('r \<Rightarrow> 'k option) \<Rightarrow> 'r list \<Rightarrow> bool" where
  "uniq_opt k rows \<longleftrightarrow> distinct (filter (\<lambda>v. v \<noteq> None) (map k rows))"

definition keys_ok :: "db \<Rightarrow> bool" where
  "keys_ok d \<longleftrightarrow>
     keyed_ok bucket_id (buckets d) (next_bucket_id d) \<and> uniq bucket_name (buckets d)
     \<and> keyed_ok account_id (accounts d) (next_account_id d) \<and> uniq username_hex (accounts d)
     \<and> keyed_ok role_id (roles d) (next_role_id d) \<and> uniq role_name (roles d)
     \<and> keyed_ok job_id (outbox d) (next_job_id d)
     \<and> keyed_ok share_id (share_links d) (next_share_id d) \<and> uniq share_token (share_links d)
     \<and> uniq_opt short_code (share_links d)
     \<and> uniq peer_id (peers d) \<and> uniq token (sessions d)
     \<and> uniq (\<lambda>n. (bna_bucket_id n, bna_peer_id n)) (repl_peers d)
     \<and> uniq (\<lambda>p. (rbp_role_id p, rbp_bucket_id p)) (role_perms d)
     \<and> uniq (\<lambda>p. p) (account_roles d) \<and> uniq (\<lambda>p. p) (share_users d)"

text \<open>The foreign keys of the schema: the child column names a row of the parent.\<close>

definition fk :: "('r \<Rightarrow> 'k) \<Rightarrow> 'r list \<Rightarrow> 'k set \<Rightarrow> bool" where
  "fk f rows ks \<longleftrightarrow> (\<forall>r \<in> set rows. f r \<in> ks)"

definition fk_opt :: "('r \<Rightarrow> 'k option) \<Rightarrow> 'r list \<Rightarrow> 'k set \<Rightarrow> bool" where
  "fk_opt f rows ks \<longleftrightarrow> (\<forall>r \<in> set rows. case f r of None \<Rightarrow> True | Some k \<Rightarrow> k \<in> ks)"

definition object_refs_ok :: "db \<Rightarrow> bool" where
  "object_refs_ok d \<longleftrightarrow>
     fk obj_bucket_id (objects d) (bucket_id ` set (buckets d))
     \<and> fk job_peer_id (outbox d) (peer_id ` set (peers d))
     \<and> fk_opt job_object_id (outbox d) (obj_id ` set (objects d))
     \<and> fk bna_bucket_id (repl_peers d) (bucket_id ` set (buckets d))
     \<and> fk bna_peer_id (repl_peers d) (peer_id ` set (peers d))"

definition rbac_refs_ok :: "db \<Rightarrow> bool" where
  "rbac_refs_ok d \<longleftrightarrow>
     fk fst (account_roles d) (account_id ` set (accounts d))
     \<and> fk snd (account_roles d) (role_id ` set (roles d))
     \<and> fk rbp_role_id (role_perms d) (role_id ` set (roles d))
     \<and> fk rbp_bucket_id (role_perms d) (bucket_id ` set (buckets d))
     \<and> fk session_account_id (sessions d) (account_id ` set (accounts d))
     \<and> fk_opt owner_account_id (buckets d) (account_id ` set (accounts d))
     \<and> fk_opt created_by_account_id (accounts d) (account_id ` set (accounts d))"

definition share_refs_ok :: "db \<Rightarrow> bool" where
  "share_refs_ok d \<longleftrightarrow>
     fk share_bucket_id (share_links d) (bucket_id ` set (buckets d))
     \<and> fk share_created_by (share_links d) (account_id ` set (accounts d))
     \<and> fk fst (share_users d) (share_id ` set (share_links d))
     \<and> fk snd (share_users d) (account_id ` set (accounts d))"

text \<open>The rows the migrations seed and no operation may remove.\<close>

definition seed_ok :: "db \<Rightarrow> bool" where
  "seed_ok d \<longleftrightarrow> ''storage'' \<in> bucket_name ` set (buckets d) \<and> (\<exists>r \<in> set (roles d). is_owner r)
     \<and> (case settings d of None \<Rightarrow> False | Some s \<Rightarrow> 0 \<le> recycle_retention_value s)"

definition db_ok :: "db \<Rightarrow> bool" where
  "db_ok d \<longleftrightarrow> objects_ok d \<and> keys_ok d \<and> object_refs_ok d \<and> rbac_refs_ok d \<and> share_refs_ok d \<and> seed_ok d"

section \<open>The tables as keyed tables\<close>

interpretation obj_tbl: auto_table obj_id objects objects_update next_object_id next_object_id_update
  by unfold_locales auto

interpretation bkt_tbl: auto_table bucket_id buckets buckets_update next_bucket_id next_bucket_id_update
  by unfold_locales auto

interpretation acc_tbl: auto_table account_id accounts accounts_update next_account_id next_account_id_update
  by unfold_locales auto

interpretation role_tbl: auto_table role_id roles roles_update next_role_id next_role_id_update
  by unfold_locales auto

interpretation job_tbl: auto_table job_id outbox outbox_update next_job_id next_job_id_update
  by unfold_locales auto

interpretation share_tbl: auto_table share_id share_links share_links_update next_share_id next_share_id_update
  by unfold_locales auto

interpretation peer_tbl: keyed_table peer_id peers peers_update
  by unfold_locales auto

interpretation ses_tbl: keyed_table token sessions sessions_update
  by unfold_locales auto

interpretation node_tbl: keyed_table "\<lambda>n. (bna_bucket_id n, bna_peer_id n)" repl_peers repl_peers_update
  by unfold_locales auto

interpretation perm_tbl: keyed_table "\<lambda>p. (rbp_role_id p, rbp_bucket_id p)" role_perms role_perms_update
  by unfold_locales auto

lemma distinct_map_eqD: "distinct (map k rows) \<Longrightarrow> x \<in> set rows \<Longrightarrow> y \<in> set rows \<Longrightarrow> k x = k y \<Longrightarrow> x = y"
  by (auto simp: distinct_map dest: inj_onD)

lemma objects_ok_idD:
  "objects_ok d \<Longrightarrow> x \<in> set (objects d) \<Longrightarrow> y \<in> set (objects d) \<Longrightarrow> obj_id x = obj_id y \<Longrightarrow> x = y"
  unfolding objects_ok_def by (blast dest: distinct_map_eqD)

lemma active_keyD:
  "objects_ok d \<Longrightarrow> x \<in> set (objects d) \<Longrightarrow> y \<in> set (objects d) \<Longrightarrow> obj_active x \<Longrightarrow> obj_active y \<Longrightarrow>
     obj_bucket_id x = obj_bucket_id y \<Longrightarrow> original_filename x = original_filename y \<Longrightarrow> x = y"
  unfolding objects_ok_def active_key_unique_def
  using distinct_map_eqD [of "\<lambda>r. (obj_bucket_id r, original_filename r)" "filter obj_active (objects d)" x y]
  by auto

lemma initial_db_ok: "db_ok (initial_db now)"
  by (simp add: db_ok_def initial_db_def objects_ok_def active_key_unique_def keys_ok_def keyed_ok_def uniq_def uniq_opt_def
      object_refs_ok_def rbac_refs_ok_def share_refs_ok_def seed_ok_def fk_def fk_opt_def)

section \<open>Constraints under statements\<close>

lemma keyed_ok_insert [simp, tbl_simps]:
  "keyed_ok key rows n \<Longrightarrow> key r = n \<Longrightarrow> keyed_ok key (rows @ [r]) (n + 1)"
  by (auto simp: keyed_ok_def)
lemma keyed_ok_update [simp, tbl_simps]:
  "(\<And>r. key (f r) = key r) \<Longrightarrow> keyed_ok key (update_where P f rows) n \<longleftrightarrow> keyed_ok key rows n"
proof -
  assume keep: "\<And>r. key (f r) = key r"
  have m: "map key (update_where P f rows) = map key rows" by (rule map_key_update) (rule keep)
  have all: "(\<forall>r \<in> set xs. key r < n) \<longleftrightarrow> (\<forall>k \<in> set (map key xs). k < n)" for xs by simp
  show ?thesis unfolding keyed_ok_def all m ..
qed
lemma keyed_ok_delete [simp, tbl_simps]: "keyed_ok key rows n \<Longrightarrow> keyed_ok key (delete_where P rows) n"
  by (auto simp: keyed_ok_def distinct_delete set_delete_where)
lemma uniq_insert [simp, tbl_simps]: "uniq k (rows @ [r]) \<longleftrightarrow> uniq k rows \<and> k r \<notin> k ` set rows"
  by (auto simp: uniq_def)
lemma uniq_update [simp, tbl_simps]:
  "(\<And>r. k (f r) = k r) \<Longrightarrow> uniq k (update_where P f rows) \<longleftrightarrow> uniq k rows"
  by (simp only: uniq_def map_key_update)
lemma uniq_delete [simp, tbl_simps]: "uniq k rows \<Longrightarrow> uniq k (delete_where P rows)"
  by (simp add: uniq_def distinct_delete)

lemma uniq_opt_insert [simp, tbl_simps]:
  "uniq_opt k (rows @ [r]) \<longleftrightarrow> uniq_opt k rows \<and> (k r \<noteq> None \<longrightarrow> k r \<notin> k ` set rows)"
  by (auto simp: uniq_opt_def)
lemma uniq_opt_update [simp, tbl_simps]:
  "(\<And>r. k (f r) = k r) \<Longrightarrow> uniq_opt k (update_where P f rows) \<longleftrightarrow> uniq_opt k rows"
  by (simp only: uniq_opt_def map_key_update)
lemma uniq_opt_delete [simp, tbl_simps]: "uniq_opt k rows \<Longrightarrow> uniq_opt k (delete_where P rows)"
proof -
  have "distinct (filter Q (map k (filter P xs)))" if "distinct (filter Q (map k xs))" for P Q xs
    using that by (induction xs) (auto split: if_split_asm)
  then show "uniq_opt k rows \<Longrightarrow> uniq_opt k (delete_where P rows)" by (simp add: uniq_opt_def delete_where_def)
qed

lemma keyed_ok_eqD: "keyed_ok key rows n \<Longrightarrow> x \<in> set rows \<Longrightarrow> y \<in> set rows \<Longrightarrow> key x = key y \<Longrightarrow> x = y"
  unfolding keyed_ok_def by (blast dest: distinct_map_eqD)

text \<open>The object constraints see only the object table.\<close>

lemma objects_ok_frame [simp]:
  "objects_ok (buckets_update fb d) = objects_ok d" "objects_ok (next_bucket_id_update fi d) = objects_ok d"
  "objects_ok (accounts_update fa d) = objects_ok d" "objects_ok (next_account_id_update fi d) = objects_ok d"
  "objects_ok (roles_update fr d) = objects_ok d" "objects_ok (next_role_id_update fi d) = objects_ok d"
  "objects_ok (account_roles_update far d) = objects_ok d" "objects_ok (role_perms_update frp d) = objects_ok d"
  "objects_ok (sessions_update fs d) = objects_ok d" "objects_ok (settings_update fst' d) = objects_ok d"
  "objects_ok (peers_update fp d) = objects_ok d" "objects_ok (outbox_update fo d) = objects_ok d"
  "objects_ok (next_job_id_update fi d) = objects_ok d" "objects_ok (repl_peers_update frn d) = objects_ok d"
  "objects_ok (share_links_update fsl d) = objects_ok d" "objects_ok (next_share_id_update fi d) = objects_ok d"
  "objects_ok (share_users_update fsu d) = objects_ok d"
  by (simp_all add: objects_ok_def)

lemmas db_ok_parts = db_ok_def keys_ok_def object_refs_ok_def rbac_refs_ok_def share_refs_ok_def seed_ok_def

lemma fk_map: "fk f xs K \<longleftrightarrow> set (map f xs) \<subseteq> K"
  by (auto simp: fk_def)
lemma fk_opt_map: "fk_opt f xs K \<longleftrightarrow> (\<forall>v \<in> set (map f xs). case v of None \<Rightarrow> True | Some k \<Rightarrow> k \<in> K)"
  by (auto simp: fk_opt_def)

lemma fk_append [simp, tbl_simps]: "fk f (xs @ ys) K \<longleftrightarrow> fk f xs K \<and> fk f ys K"
  by (auto simp: fk_def)
lemma fk_Cons [simp, tbl_simps]: "fk f (x # xs) K \<longleftrightarrow> f x \<in> K \<and> fk f xs K"
  by (auto simp: fk_def)
lemma fk_Nil [simp, tbl_simps]: "fk f [] K"
  by (simp add: fk_def)
lemma fk_update [simp, tbl_simps]: "(\<And>r. f (g r) = f r) \<Longrightarrow> fk f (update_where P g xs) K \<longleftrightarrow> fk f xs K"
  by (simp only: fk_map map_key_update)
lemma fk_delete [simp, tbl_simps]: "fk f xs K \<Longrightarrow> fk f (delete_where P xs) K"
  by (auto simp: fk_def set_delete_where)
lemma fk_insert [simp, tbl_simps]: "fk f xs K \<Longrightarrow> fk f xs (insert k K)"
  by (auto simp: fk_def)

lemma fk_opt_append [simp, tbl_simps]: "fk_opt f (xs @ ys) K \<longleftrightarrow> fk_opt f xs K \<and> fk_opt f ys K"
  by (auto simp: fk_opt_def)
lemma fk_opt_Cons [simp, tbl_simps]:
  "fk_opt f (x # xs) K \<longleftrightarrow> (case f x of None \<Rightarrow> True | Some k \<Rightarrow> k \<in> K) \<and> fk_opt f xs K"
  by (auto simp: fk_opt_def)
lemma fk_opt_Nil [simp, tbl_simps]: "fk_opt f [] K"
  by (simp add: fk_opt_def)
lemma fk_opt_update [simp, tbl_simps]:
  "(\<And>r. f (g r) = f r) \<Longrightarrow> fk_opt f (update_where P g xs) K \<longleftrightarrow> fk_opt f xs K"
  by (simp only: fk_opt_map map_key_update)
lemma fk_opt_delete [simp, tbl_simps]: "fk_opt f xs K \<Longrightarrow> fk_opt f (delete_where P xs) K"
  by (auto simp: fk_opt_def set_delete_where)
lemma fk_opt_insert [simp, tbl_simps]: "fk_opt f xs K \<Longrightarrow> fk_opt f xs (insert k K)"
  by (auto simp: fk_opt_def split: option.splits)

lemma image_update_where [simp, tbl_simps]:
  "(\<And>r. k (f r) = k r) \<Longrightarrow> k ` set (update_where P f rows) = k ` set rows"
  by (metis list.set_map map_key_update)

end
