(* ===== verification/Objects.thy ===== *)
theory Objects
  imports Database
begin

text \<open>
  The object rows of \<open>src/db/repository.rs\<close>: inserting, soft-deleting, restoring, renaming and
  purging objects. An operation that can fail returns the error or its value, and the database
  after it; a transaction that fails returns the database it began with. The argument \<open>now\<close> is
  the statement's \<open>CURRENT_TIMESTAMP\<close>.
\<close>

type_synonym 'a res = "error + 'a"

section \<open>Queries\<close>

definition get_object_by_filename :: "string \<Rightarrow> db \<Rightarrow> object_record option" where
  "get_object_by_filename fname d =
     select_one (\<lambda>r. original_filename r = fname \<and> obj_active r) (objects d)"

definition get_object_by_filename_in_bucket :: "string \<Rightarrow> int \<Rightarrow> db \<Rightarrow> object_record option" where
  "get_object_by_filename_in_bucket fname bid d =
     select_one (\<lambda>r. original_filename r = fname \<and> obj_bucket_id r = bid \<and> obj_active r) (objects d)"

definition get_object_by_id :: "int \<Rightarrow> db \<Rightarrow> object_record option" where
  "get_object_by_id i d = row_by obj_id i (objects d)"

definition object_by_filepath :: "string \<Rightarrow> db \<Rightarrow> object_record option" where
  "object_by_filepath fp d = select_one (\<lambda>r. filepath r = fp \<and> obj_active r) (objects d)"

definition newest_first :: "object_record list \<Rightarrow> object_record list" where
  "newest_first rows = sort_key (\<lambda>r. - date_uploaded r) rows"

definition list_objects :: "db \<Rightarrow> object_record list" where
  "list_objects d = newest_first (select_where obj_active (objects d))"

definition list_objects_in_bucket :: "int \<Rightarrow> db \<Rightarrow> object_record list" where
  "list_objects_in_bucket bid d =
     newest_first (select_where (\<lambda>r. obj_bucket_id r = bid \<and> obj_active r) (objects d))"

definition deleted_time :: "object_record \<Rightarrow> time" where
  "deleted_time r = (case deleted_at r of Some t \<Rightarrow> t | None \<Rightarrow> 0)"

definition list_deleted_objects :: "int list option \<Rightarrow> db \<Rightarrow> object_record list" where
  "list_deleted_objects bucket_ids d =
     (let rows = sort_key (\<lambda>r. - deleted_time r) (select_where (\<lambda>r. deleted_at r \<noteq> None) (objects d)) in
      case bucket_ids of
        None \<Rightarrow> rows
      | Some ids \<Rightarrow>
          if ids = [] then [] else filter (\<lambda>r. obj_bucket_id r \<in> set ids) rows)"

text \<open>
  \<open>deleted_at <= ?1\<close> compares two texts: the stored one, written by \<open>CURRENT_TIMESTAMP\<close> as
  \<open>YYYY-MM-DD HH:MM:SS\<close>, and the one the driver binds for a \<open>DateTime<Utc>\<close>, in RFC 3339:
  \<open>YYYY-MM-DDTHH:MM:SS...\<close>. The first ten characters order like the day, then the eleventh decides, a space
  against a \<open>T\<close>; only if these were equal would the time of the day count.
\<close>

type_synonym stamp = "int \<times> char \<times> int"

definition stored_stamp :: "time \<Rightarrow> stamp" where
  "stored_stamp t = (t div 86400, CHR '' '', t mod 86400)"

definition bound_stamp :: "time \<Rightarrow> stamp" where
  "bound_stamp t = (t div 86400, CHR ''T'', t mod 86400)"

fun stamp_le :: "stamp \<Rightarrow> stamp \<Rightarrow> bool" where
  "stamp_le (d, c, s) (d', c', s') \<longleftrightarrow>
     d < d' \<or> d = d' \<and> ((of_char c :: nat) < of_char c' \<or> c = c' \<and> s \<le> s')"

definition list_expired_deleted_objects :: "time \<Rightarrow> db \<Rightarrow> object_record list" where
  "list_expired_deleted_objects older_than d =
     sort_key deleted_time
       (select_where (\<lambda>r. case deleted_at r of None \<Rightarrow> False
          | Some t \<Rightarrow> stamp_le (stored_stamp t) (bound_stamp older_than)) (objects d))"

definition list_keys_under_prefix :: "int \<Rightarrow> string \<Rightarrow> db \<Rightarrow> object_record list" where
  "list_keys_under_prefix bid pre d =
     sort_key original_filename
       (select_where (\<lambda>r. obj_active r \<and> obj_bucket_id r = bid \<and> like_prefix pre (original_filename r))
         (objects d))"

definition list_object_ids_in_bucket :: "int \<Rightarrow> db \<Rightarrow> int list" where
  "list_object_ids_in_bucket bid d =
     sort (map obj_id (select_where (\<lambda>r. obj_bucket_id r = bid) (objects d)))"

definition bucket_used_bytes :: "int \<Rightarrow> db \<Rightarrow> int" where
  "bucket_used_bytes bid d =
     sum_list (map filesize_bytes (select_where (\<lambda>r. obj_bucket_id r = bid \<and> obj_active r) (objects d)))"

definition object_stats :: "db \<Rightarrow> int \<times> int \<times> int" where
  "object_stats d =
     (sum_list (map filesize_bytes (select_where obj_active (objects d))),
      count_where obj_active (objects d),
      count_where (\<lambda>j. job_status j \<in> {Pending, Failed, InFlight}) (outbox d))"

definition digest_map :: "string \<Rightarrow> db \<Rightarrow> (string \<times> string) list" where
  "digest_map pre d =
     (let rows = (if pre = [] then select_where obj_active (objects d)
        else select_where (\<lambda>r. obj_active r \<and>
               (sql_like None (pre @ ''%'') (filepath r)
                \<or> sql_like None (pre @ ''%'') (original_filename r))) (objects d))
      in map (\<lambda>r. (filepath r, etag r)) rows)"

section \<open>Inserting\<close>

text \<open>\<open>INSERT INTO object\<close> with the constraints of the table.\<close>

definition insert_object_row :: "object_record \<Rightarrow> db \<Rightarrow> int res \<times> db" where
  "insert_object_row r d =
     (if \<exists>x \<in> set (objects d). filepath x = filepath r then (Inl (Unique ''object.filepath''), d)
      else if obj_active r \<and> (\<exists>x \<in> set (objects d). obj_active x \<and> obj_bucket_id x = obj_bucket_id r
                 \<and> original_filename x = original_filename r)
        then (Inl (Unique ''object.bucket_id, object.original_filename''), d)
      else if obj_bucket_id r \<notin> bucket_id ` set (buckets d) then (Inl ForeignKey, d)
      else (Inr (next_object_id d),
            objects_update (\<lambda>rows. rows @ [r\<lparr>obj_id := next_object_id d\<rparr>])
              (next_object_id_update (\<lambda>i. i + 1) d)))"

definition insert_object_tx ::
  "string \<Rightarrow> string \<Rightarrow> string \<Rightarrow> int \<Rightarrow> etag_type \<Rightarrow> string \<Rightarrow> int \<Rightarrow> time \<Rightarrow> db \<Rightarrow> int res \<times> db" where
  "insert_object_tx fname fp fmt fsize etype tag bid now d =
     insert_object_row \<lparr>obj_id = 0, original_filename = fname, filepath = fp, file_format = fmt,
       filesize_bytes = fsize, obj_etag_type = etype, etag = tag, date_uploaded = now,
       date_modified = now, obj_bucket_id = bid, deleted_at = None\<rparr> d"

text \<open>
  The insert of a replicated object: the \<open>CHECK\<close> on the algorithm's name comes first, then
  \<open>ON CONFLICT(filepath) DO NOTHING\<close>, then the other constraints.
\<close>

definition insert_object_idempotent ::
  "string \<Rightarrow> string \<Rightarrow> string \<Rightarrow> int \<Rightarrow> string \<Rightarrow> string \<Rightarrow> time option \<Rightarrow> time option \<Rightarrow> int \<Rightarrow>
     time \<Rightarrow> db \<Rightarrow> unit res \<times> db" where
  "insert_object_idempotent fname fp fmt fsize etype_s tag uploaded modified bid now d =
     (case etag_type_from_str etype_s of
        None \<Rightarrow> (Inl (Check ''etag_type''), d)
      | Some etype \<Rightarrow>
          if \<exists>x \<in> set (objects d). filepath x = fp then (Inr (), d)
          else (case insert_object_row \<lparr>obj_id = 0, original_filename = fname, filepath = fp,
                  file_format = fmt, filesize_bytes = fsize, obj_etag_type = etype, etag = tag,
                  date_uploaded = (case uploaded of Some t \<Rightarrow> t | None \<Rightarrow> now),
                  date_modified = (case modified of Some t \<Rightarrow> t | None \<Rightarrow> now),
                  obj_bucket_id = bid, deleted_at = None\<rparr> d of
                  (Inl e, d') \<Rightarrow> (Inl e, d')
                | (Inr i, d') \<Rightarrow> (Inr (), d')))"

section \<open>Deleting and restoring\<close>

definition soft_delete_rows :: "(object_record \<Rightarrow> bool) \<Rightarrow> time \<Rightarrow> db \<Rightarrow> db" where
  "soft_delete_rows P now d =
     objects_update (update_where P (\<lambda>r. r\<lparr>deleted_at := Some now, date_modified := now\<rparr>)) d"

definition soft_delete_object_by_filename ::
  "string \<Rightarrow> int option \<Rightarrow> time \<Rightarrow> db \<Rightarrow> object_record option \<times> db" where
  "soft_delete_object_by_filename fname bid now d =
     (let record = (case bid of Some b \<Rightarrow> get_object_by_filename_in_bucket fname b d
                    | None \<Rightarrow> get_object_by_filename fname d) in
      case record of
        None \<Rightarrow> (None, d)
      | Some r \<Rightarrow> (Some r, soft_delete_rows (\<lambda>x. obj_id x = obj_id r) now d))"

definition soft_delete_prefix :: "int \<Rightarrow> string \<Rightarrow> time \<Rightarrow> db \<Rightarrow> int \<times> db" where
  "soft_delete_prefix bid pre now d =
     (let P = (\<lambda>r. obj_active r \<and> obj_bucket_id r = bid \<and> like_prefix pre (original_filename r)) in
      (count_where P (objects d), soft_delete_rows P now d))"

text \<open>
  Deleting a row clears the references of the outbox to it (\<open>ON DELETE SET NULL\<close>).
\<close>

definition delete_object_row :: "(object_record \<Rightarrow> bool) \<Rightarrow> db \<Rightarrow> db" where
  "delete_object_row P d =
     (let gone = obj_id ` set (select_where P (objects d)) in
      outbox_update (update_where (\<lambda>j. case job_object_id j of None \<Rightarrow> False | Some i \<Rightarrow> i \<in> gone)
          (\<lambda>j. j\<lparr>job_object_id := None\<rparr>))
        (objects_update (delete_where P) d))"

definition delete_object_by_filepath :: "string \<Rightarrow> db \<Rightarrow> bool \<times> db" where
  "delete_object_by_filepath fp d =
     (count_where (\<lambda>r. filepath r = fp) (objects d) > 0, delete_object_row (\<lambda>r. filepath r = fp) d)"

definition delete_object_by_filename_tx :: "string \<Rightarrow> db \<Rightarrow> object_record option \<times> db" where
  "delete_object_by_filename_tx fname d =
     (case get_object_by_filename fname d of
        None \<Rightarrow> (None, d)
      | Some r \<Rightarrow> (Some r, delete_object_row (\<lambda>x. obj_id x = obj_id r) d))"

definition hard_delete_object_tx :: "int \<Rightarrow> db \<Rightarrow> object_record option \<times> db" where
  "hard_delete_object_tx i d =
     (case get_object_by_id i d of
        None \<Rightarrow> (None, d)
      | Some r \<Rightarrow> (Some r, delete_object_row (\<lambda>x. obj_id x = obj_id r) d))"

definition restore_object :: "int \<Rightarrow> time \<Rightarrow> db \<Rightarrow> object_record res \<times> db" where
  "restore_object i now d =
     (case get_object_by_id i d of
        None \<Rightarrow> (Inl (Bail ''object not found''), d)
      | Some r \<Rightarrow>
          if deleted_at r = None then (Inl (Bail ''object is not in recycle bin''), d)
          else if select_one (\<lambda>x. obj_bucket_id x = obj_bucket_id r
                     \<and> original_filename x = original_filename r \<and> obj_active x \<and> obj_id x \<noteq> i)
                   (objects d) \<noteq> None
            then (Inl (Bail ''an active object with the same key already exists in this bucket''), d)
          else
            let d' = objects_update (update_where (\<lambda>x. obj_id x = i)
                       (\<lambda>x. x\<lparr>deleted_at := None, date_modified := now\<rparr>)) d in
            (case get_object_by_id i d' of
               None \<Rightarrow> (Inl (Bail ''object missing after restore''), d')
             | Some r' \<Rightarrow> (Inr r', d')))"

section \<open>Renaming a folder\<close>

text \<open>The loop that plans the renames, stopping at the first key already taken.\<close>

fun plan_renames ::
  "int \<Rightarrow> string \<Rightarrow> string \<Rightarrow> db \<Rightarrow> object_record list \<Rightarrow> ((int \<times> string) list) res" where
  "plan_renames bid from_p to_p d [] = Inr []"
| "plan_renames bid from_p to_p d (row # rows) =
     (case strip_prefix (original_filename row) from_p of
        None \<Rightarrow> plan_renames bid from_p to_p d rows
      | Some rest \<Rightarrow>
          let new_key = to_p @ rest in
          if get_object_by_filename_in_bucket new_key bid d \<noteq> None
          then Inl (Bail (''target key already exists: '' @ new_key))
          else (case plan_renames bid from_p to_p d rows of
                  Inl e \<Rightarrow> Inl e
                | Inr rs \<Rightarrow> Inr ((obj_id row, new_key) # rs)))"

text \<open>One \<open>UPDATE\<close> of the transaction, with the unique index it may violate.\<close>

definition rename_row :: "int \<Rightarrow> string \<Rightarrow> time \<Rightarrow> db \<Rightarrow> unit res \<times> db" where
  "rename_row i new_key now d =
     (if \<exists>x \<in> set (objects d). obj_id x = i \<and> obj_active x \<and>
          (\<exists>y \<in> set (objects d). obj_id y \<noteq> i \<and> obj_active y \<and> obj_bucket_id y = obj_bucket_id x
             \<and> original_filename y = new_key)
      then (Inl (Unique ''object.bucket_id, object.original_filename''), d)
      else (Inr (), objects_update (update_where (\<lambda>x. obj_id x = i \<and> obj_active x)
              (\<lambda>x. x\<lparr>original_filename := new_key, date_modified := now\<rparr>)) d))"

fun apply_renames :: "(int \<times> string) list \<Rightarrow> time \<Rightarrow> db \<Rightarrow> unit res \<times> db" where
  "apply_renames [] now d = (Inr (), d)"
| "apply_renames ((i, k) # rs) now d =
     (case rename_row i k now d of
        (Inl e, d') \<Rightarrow> (Inl e, d')
      | (Inr _, d') \<Rightarrow> apply_renames rs now d')"

definition rename_prefix :: "int \<Rightarrow> string \<Rightarrow> string \<Rightarrow> time \<Rightarrow> db \<Rightarrow> int res \<times> db" where
  "rename_prefix bid from_p to_p now d =
     (if from_p = to_p then (Inr 0, d)
      else
        let rows = list_keys_under_prefix bid from_p d in
        if rows = [] then (Inl (Bail ''folder is empty or does not exist''), d)
        else
          (case plan_renames bid from_p to_p d rows of
             Inl e \<Rightarrow> (Inl e, d)
           | Inr renames \<Rightarrow>
               (case apply_renames renames now d of
                  (Inl e, _) \<Rightarrow> (Inl e, d)
                | (Inr _, d') \<Rightarrow> (Inr (int (length renames)), d'))))"

section \<open>The invariant of the object table\<close>

lemma objects_ok_alt:
  "objects_ok d \<longleftrightarrow> distinct (map obj_id (objects d)) \<and> (\<forall>r \<in> set (objects d). obj_id r < next_object_id d)
     \<and> distinct (map filepath (objects d))
     \<and> (\<forall>x \<in> set (objects d). \<forall>y \<in> set (objects d). obj_active x \<longrightarrow> obj_active y \<longrightarrow>
          obj_bucket_id x = obj_bucket_id y \<longrightarrow> original_filename x = original_filename y \<longrightarrow> x = y)"
proof -
  have "distinct rows \<Longrightarrow> active_key_unique rows \<longleftrightarrow>
      (\<forall>x \<in> set rows. \<forall>y \<in> set rows. obj_active x \<longrightarrow> obj_active y \<longrightarrow>
          obj_bucket_id x = obj_bucket_id y \<longrightarrow> original_filename x = original_filename y \<longrightarrow> x = y)" for rows
    by (auto simp: active_key_unique_def distinct_map inj_on_def)
  then show ?thesis
    unfolding objects_ok_def by (metis distinct_map)
qed

lemma objects_ok_congI:
  "objects_ok d \<Longrightarrow> objects d' = objects d \<Longrightarrow> next_object_id d' = next_object_id d \<Longrightarrow> objects_ok d'"
  by (simp add: objects_ok_def)

lemma objects_ok_update:
  assumes ok: "objects_ok d"
    and f: "\<And>r. obj_id (f r) = obj_id r" "\<And>r. filepath (f r) = filepath r" "\<And>r. obj_bucket_id (f r) = obj_bucket_id r"
    and uniq: "\<And>x y. x \<in> set (objects d) \<Longrightarrow> y \<in> set (objects d) \<Longrightarrow>
      obj_active (if P x then f x else x) \<Longrightarrow> obj_active (if P y then f y else y) \<Longrightarrow>
      obj_bucket_id x = obj_bucket_id y \<Longrightarrow>
      original_filename (if P x then f x else x) = original_filename (if P y then f y else y) \<Longrightarrow> x = y"
  shows "objects_ok (objects_update (update_where P f) d)"
proof -
  have ids: "map obj_id (update_where P f (objects d)) = map obj_id (objects d)"
    and fps: "map filepath (update_where P f (objects d)) = map filepath (objects d)"
    by (auto simp: update_where_def f)
  have bkt: "obj_bucket_id (if P x then f x else x) = obj_bucket_id x" for x by (simp add: f)
  show ?thesis
    unfolding objects_ok_alt
  proof (intro conjI ballI impI)
    fix x' y'
    assume x': "x' \<in> set (objects (objects_update (update_where P f) d))"
      and y': "y' \<in> set (objects (objects_update (update_where P f) d))"
      and act: "obj_active x'" "obj_active y'"
      and eq: "obj_bucket_id x' = obj_bucket_id y'" "original_filename x' = original_filename y'"
    from x' obtain x where x: "x \<in> set (objects d)" "x' = (if P x then f x else x)"
      by (auto simp: set_update_where)
    from y' obtain y where y: "y \<in> set (objects d)" "y' = (if P y then f y else y)"
      by (auto simp: set_update_where)
    have "x = y"
      using uniq [OF x(1) y(1)] act eq bkt [of x] bkt [of y] unfolding x(2) y(2) by simp
    then show "x' = y'" by (simp add: x(2) y(2))
  qed (use ok in \<open>auto simp: objects_ok_def ids fps set_update_where f\<close>)
qed

lemma objects_ok_soft_delete: "objects_ok d \<Longrightarrow> objects_ok (soft_delete_rows P now d)"
proof -
  assume ok: "objects_ok d"
  show ?thesis
    unfolding soft_delete_rows_def
  proof (rule objects_ok_update [OF ok], goal_cases)
    case (4 x y)
    then have "\<not> P x" "\<not> P y" by (auto simp: obj_active_def split: if_split_asm)
    with 4 active_keyD [OF ok, of x y] show ?case by simp
  qed auto
qed

lemma objects_ok_delete: "objects_ok d \<Longrightarrow> objects_ok (delete_object_row P d)"
  by (auto simp: objects_ok_alt delete_object_row_def Let_def distinct_delete set_delete_where)

lemma insert_object_row_cases:
  assumes "insert_object_row r d = (x, d')"
  obtains (err) e where "x = Inl e" "d' = d"
  | (ok) "x = Inr (next_object_id d)"
      "d' = objects_update (\<lambda>rows. rows @ [r\<lparr>obj_id := next_object_id d\<rparr>]) (next_object_id_update (\<lambda>i. i + 1) d)"
      "filepath r \<notin> filepath ` set (objects d)"
      "obj_active r \<Longrightarrow> (obj_bucket_id r, original_filename r)
         \<notin> (\<lambda>r. (obj_bucket_id r, original_filename r)) ` set (filter obj_active (objects d))"
      "obj_bucket_id r \<in> bucket_id ` set (buckets d)"
  using assms unfolding insert_object_row_def
  by (fastforce split: if_split_asm)

lemma objects_ok_insert: "objects_ok d \<Longrightarrow> insert_object_row r d = (x, d') \<Longrightarrow> objects_ok d'"
proof (erule insert_object_row_cases, goal_cases)
  case 2
  have "obj_active (r\<lparr>obj_id := i\<rparr>) = obj_active r" for i by (simp add: obj_active_def)
  with 2 show ?case
    by (cases "obj_active r") (auto simp: objects_ok_def active_key_unique_def)
qed simp

lemma objects_ok_idempotent:
  "objects_ok d \<Longrightarrow> insert_object_idempotent fname fp fmt n es tag u m bid now d = (x, d') \<Longrightarrow> objects_ok d'"
  by (auto simp: insert_object_idempotent_def split: option.splits if_splits prod.splits sum.splits
      dest: objects_ok_insert)

lemma objects_ok_restore: "objects_ok d \<Longrightarrow> restore_object i now d = (x, d') \<Longrightarrow> objects_ok d'"
proof -
  assume ok: "objects_ok d" and r: "restore_object i now d = (x, d')"
  let ?d = "objects_update (update_where (\<lambda>x. obj_id x = i) (\<lambda>x. x\<lparr>deleted_at := None, date_modified := now\<rparr>)) d"
  have "d' = d \<or> (d' = ?d \<and> (\<exists>r. get_object_by_id i d = Some r \<and>
      (\<forall>x \<in> set (objects d). obj_bucket_id x = obj_bucket_id r \<longrightarrow>
        original_filename x = original_filename r \<longrightarrow> obj_active x \<longrightarrow> obj_id x = i)))"
    using r unfolding restore_object_def Let_def
    by (auto simp: select_one_None split: option.splits if_splits)
  moreover have "objects_ok ?d" if "get_object_by_id i d = Some r"
    "\<forall>x \<in> set (objects d). obj_bucket_id x = obj_bucket_id r \<longrightarrow>
        original_filename x = original_filename r \<longrightarrow> obj_active x \<longrightarrow> obj_id x = i" for r
  proof (rule objects_ok_update [OF ok])
    note that0 = that
    from that have r: "r \<in> set (objects d)" "obj_id r = i"
      unfolding get_object_by_id_def using obj_tbl.row_mem by blast+
    show "x = y" if "x \<in> set (objects d)" "y \<in> set (objects d)"
      "obj_active (if obj_id x = i then x\<lparr>deleted_at := None, date_modified := now\<rparr> else x)"
      "obj_active (if obj_id y = i then y\<lparr>deleted_at := None, date_modified := now\<rparr> else y)"
      "obj_bucket_id x = obj_bucket_id y"
      "original_filename (if obj_id x = i then x\<lparr>deleted_at := None, date_modified := now\<rparr> else x) =
       original_filename (if obj_id y = i then y\<lparr>deleted_at := None, date_modified := now\<rparr> else y)" for x y
    proof -
      have i: "z = r" if "z \<in> set (objects d)" "obj_id z = i" for z
        using that r objects_ok_idD [OF ok] by metis
      note u = that0(2) [rule_format]
      show ?thesis
      proof (cases "obj_id x = i"; cases "obj_id y = i")
        assume "obj_id x = i" "obj_id y = i"
        then show ?thesis using i [OF that(1)] i [OF that(2)] by simp
      next
        assume xy: "obj_id x = i" "obj_id y \<noteq> i"
        then show ?thesis using i [OF that(1)] u [OF that(2)] that(4-6) by simp
      next
        assume xy: "obj_id x \<noteq> i" "obj_id y = i"
        then show ?thesis using i [OF that(2)] u [OF that(1)] that(3,5,6) by simp
      next
        assume xy: "obj_id x \<noteq> i" "obj_id y \<noteq> i"
        then show ?thesis using active_keyD [OF ok that(1,2)] that(3-6) by simp
      qed
    qed
  qed auto
  ultimately show ?thesis using ok by auto
qed

section \<open>Renaming\<close>

lemma plan_renames_Inr:
  "plan_renames bid from_p to_p d rows = Inr rs \<Longrightarrow>
     rs = map (\<lambda>r. (obj_id r, to_p @ drop (length from_p) (original_filename r)))
            (filter (\<lambda>r. starts_with (original_filename r) from_p) rows)
     \<and> (\<forall>(i, k) \<in> set rs. get_object_by_filename_in_bucket k bid d = None)"
proof (induction rows arbitrary: rs)
  case (Cons row rows)
  show ?case
  proof (cases "strip_prefix (original_filename row) from_p")
    case None
    with Cons show ?thesis by (simp add: strip_prefix_def split: if_splits)
  next
    case (Some rest)
    with Cons show ?thesis
      by (auto simp: strip_prefix_def Let_def split: if_splits sum.splits)
  qed
qed simp

lemma plan_renames_Inl: "plan_renames bid from_p to_p d rows = Inl e \<Longrightarrow> \<exists>m. e = Bail m"
  by (induction rows) (auto simp: Let_def split: option.splits if_splits sum.splits)

definition renamed :: "(int \<times> string) list \<Rightarrow> time \<Rightarrow> object_record \<Rightarrow> object_record" where
  "renamed rs now r = (case map_of rs (obj_id r) of
      Some k \<Rightarrow> if obj_active r then r\<lparr>original_filename := k, date_modified := now\<rparr> else r
    | None \<Rightarrow> r)"

lemma apply_renames_closed:
  assumes "distinct (map fst rs)" and "distinct (map snd rs)"
    and "\<And>i k y. (i, k) \<in> set rs \<Longrightarrow> y \<in> set (objects d) \<Longrightarrow> obj_active y \<Longrightarrow> obj_bucket_id y = bid \<Longrightarrow>
           original_filename y \<noteq> k"
    and "\<And>x. x \<in> set (objects d) \<Longrightarrow> obj_id x \<in> fst ` set rs \<Longrightarrow> obj_bucket_id x = bid"
  shows "apply_renames rs now d = (Inr (), objects_update (map (renamed rs now)) d)"
  using assms
proof (induction rs arbitrary: d)
  case Nil
  then show ?case by (simp add: renamed_def)
next
  case (Cons p rs)
  obtain i k where p: "p = (i, k)" by force
  define f where "f = (\<lambda>x. x\<lparr>original_filename := k, date_modified := now\<rparr> :: object_record)"
  let ?d1 = "objects_update (update_where (\<lambda>x. obj_id x = i \<and> obj_active x) f) d"
  have head: "rename_row i k now d = (Inr (), ?d1)"
    unfolding rename_row_def f_def using Cons.prems(3) [of i k] Cons.prems(4) p
    by (auto simp: image_iff)
  have "apply_renames rs now ?d1 = (Inr (), objects_update (map (renamed rs now)) ?d1)"
  proof (rule Cons.IH)
    fix j l y
    assume jl: "(j, l) \<in> set rs" and y: "y \<in> set (objects ?d1)" "obj_active y" "obj_bucket_id y = bid"
    then obtain x where x: "x \<in> set (objects d)" "y = (if obj_id x = i \<and> obj_active x then f x else x)"
      by (auto simp: set_update_where)
    have "k \<noteq> l" using Cons.prems(2) jl p by (auto simp: image_iff)
    moreover have "obj_active x" "obj_bucket_id x = bid"
      using x y by (auto simp: f_def obj_active_def split: if_split_asm)
    ultimately show "original_filename y \<noteq> l"
      using x Cons.prems(3) [of j l x] jl by (auto simp: f_def)
  next
    fix y
    assume y: "y \<in> set (objects ?d1)" "obj_id y \<in> fst ` set rs"
    then obtain x where x: "x \<in> set (objects d)" "y = (if obj_id x = i \<and> obj_active x then f x else x)"
      by (auto simp: set_update_where)
    then have "obj_id x = obj_id y" "obj_bucket_id x = obj_bucket_id y" by (auto simp: f_def)
    with Cons.prems(4) [OF x(1)] y(2) show "obj_bucket_id y = bid" by auto
  qed (use Cons.prems p in auto)
  moreover have "objects_update (map (renamed rs now)) ?d1 = objects_update (map (renamed (p # rs) now)) d"
  proof -
    have "renamed rs now (if obj_id x = i \<and> obj_active x then f x else x) = renamed (p # rs) now x" for x
    proof -
      have "map_of rs i = None" using Cons.prems(1) p by (simp add: map_of_eq_None_iff)
      then show ?thesis by (auto simp: renamed_def p f_def split: option.splits)
    qed
    then show ?thesis by (simp add: update_where_def comp_def)
  qed
  ultimately show ?case by (simp add: p head)
qed

definition renamable :: "int \<Rightarrow> string \<Rightarrow> object_record \<Rightarrow> bool" where
  "renamable bid from_p r \<longleftrightarrow> obj_active r \<and> obj_bucket_id r = bid \<and> starts_with (original_filename r) from_p"

definition rename_key :: "string \<Rightarrow> string \<Rightarrow> time \<Rightarrow> object_record \<Rightarrow> object_record" where
  "rename_key from_p to_p now r =
     r\<lparr>original_filename := to_p @ drop (length from_p) (original_filename r), date_modified := now\<rparr>"

lemma renamed_plan:
  assumes ok: "objects_ok d"
    and rs: "rs = map (\<lambda>r. (obj_id r, to_p @ drop (length from_p) (original_filename r)))
            (filter (\<lambda>r. starts_with (original_filename r) from_p) (list_keys_under_prefix bid from_p d))"
    and x: "x \<in> set (objects d)"
  shows "renamed rs now x = (if renamable bid from_p x then rename_key from_p to_p now x else x)"
proof -
  let ?F = "filter (\<lambda>r. starts_with (original_filename r) from_p) (list_keys_under_prefix bid from_p d)"
  have mem: "r \<in> set ?F \<longleftrightarrow> r \<in> set (objects d) \<and> renamable bid from_p r" for r
    by (auto simp: list_keys_under_prefix_def set_select_where renamable_def like_prefix_starts_with)
  have id: "r = x" if "r \<in> set ?F" "obj_id r = obj_id x" for r
    using that x mem objects_ok_idD [OF ok] by blast
  show ?thesis
  proof (cases "renamable bid from_p x")
    case True
    then have "x \<in> set ?F" using mem x by blast
    then have "(obj_id x, to_p @ drop (length from_p) (original_filename x)) \<in> set rs"
      unfolding rs by auto
    moreover have "\<forall>k. (obj_id x, k) \<in> set rs \<longrightarrow> k = to_p @ drop (length from_p) (original_filename x)"
      unfolding rs using id by auto
    ultimately have "map_of rs (obj_id x) = Some (to_p @ drop (length from_p) (original_filename x))"
      by (metis map_of_SomeD weak_map_of_SomeI)
    with True show ?thesis by (simp add: renamed_def rename_key_def renamable_def)
  next
    case False
    then have "obj_id x \<notin> fst ` set rs"
      unfolding rs using id mem by auto
    then have "map_of rs (obj_id x) = None" by (simp add: map_of_eq_None_iff)
    with False show ?thesis by (simp add: renamed_def)
  qed
qed

lemma distinct_map_of_inj:
  "distinct xs \<Longrightarrow> (\<And>x y. x \<in> set xs \<Longrightarrow> y \<in> set xs \<Longrightarrow> f x = f y \<Longrightarrow> x = y) \<Longrightarrow> distinct (map f xs)"
  by (auto simp: distinct_map inj_on_def)

lemma rename_prefix_applies:
  assumes ok: "objects_ok d" and ne: "from_p \<noteq> to_p"
    and plan: "plan_renames bid from_p to_p d (list_keys_under_prefix bid from_p d) = Inr rs"
  shows "apply_renames rs now d = (Inr (), objects_update (map (renamed rs now)) d)"
proof (rule apply_renames_closed)
  let ?F = "filter (\<lambda>r. starts_with (original_filename r) from_p) (list_keys_under_prefix bid from_p d)"
  from plan_renames_Inr [OF plan]
  have rs: "rs = map (\<lambda>r. (obj_id r, to_p @ drop (length from_p) (original_filename r))) ?F"
    and free: "\<forall>(i, k) \<in> set rs. get_object_by_filename_in_bucket k bid d = None" by blast+
  have mem: "r \<in> set ?F \<Longrightarrow> r \<in> set (objects d) \<and> obj_active r \<and> obj_bucket_id r = bid
      \<and> starts_with (original_filename r) from_p" for r
    by (auto simp: list_keys_under_prefix_def set_select_where)
  have "distinct (objects d)" using ok unfolding objects_ok_def by (metis distinct_map)
  then have dF: "distinct ?F"
    by (simp add: list_keys_under_prefix_def select_where_def)
  have "distinct (map obj_id ?F)"
    by (rule distinct_map_of_inj [OF dF]) (metis mem objects_ok_idD [OF ok])
  then show "distinct (map fst rs)" by (simp add: rs comp_def)
  have "distinct (map (\<lambda>r. to_p @ drop (length from_p) (original_filename r)) ?F)"
  proof (rule distinct_map_of_inj [OF dF])
    fix x y assume x: "x \<in> set ?F" and y: "y \<in> set ?F"
      and "to_p @ drop (length from_p) (original_filename x) = to_p @ drop (length from_p) (original_filename y)"
    then have "original_filename x = original_filename y"
      using mem [OF x] mem [OF y] by (auto simp: starts_with_iff)
    then show "x = y" using mem [OF x] mem [OF y] active_keyD [OF ok] by metis
  qed
  then show "distinct (map snd rs)" by (simp add: rs comp_def)
  show "original_filename y \<noteq> k" if "(i, k) \<in> set rs" "y \<in> set (objects d)" "obj_active y"
    "obj_bucket_id y = bid" for i k y
    using free that by (auto simp: get_object_by_filename_in_bucket_def select_one_None)
  show "obj_bucket_id x = bid" if "x \<in> set (objects d)" "obj_id x \<in> fst ` set rs" for x
  proof -
    from that(2) obtain r where "r \<in> set ?F" "obj_id x = obj_id r" unfolding rs by auto
    then show ?thesis using mem objects_ok_idD [OF ok] that(1) by metis
  qed
qed

lemma rename_prefix_cases:
  assumes "rename_prefix bid from_p to_p now d = (x, d')" and "objects_ok d"
  obtains (same) "from_p = to_p" "x = Inr 0" "d' = d"
  | (empty) "list_keys_under_prefix bid from_p d = []"
      "x = Inl (Bail ''folder is empty or does not exist'')" "d' = d"
  | (taken) k where "x = Inl (Bail (''target key already exists: '' @ k))" "d' = d"
      "get_object_by_filename_in_bucket k bid d \<noteq> None"
  | (renamed) rs where "from_p \<noteq> to_p" "x = Inr (int (length rs))"
      "plan_renames bid from_p to_p d (list_keys_under_prefix bid from_p d) = Inr rs"
      "d' = objects_update (map (renamed rs now)) d"
proof -
  have taken: "\<exists>k. e = Bail (''target key already exists: '' @ k) \<and> get_object_by_filename_in_bucket k bid d \<noteq> None"
    if "plan_renames bid from_p to_p d rows = Inl e" for e rows
    using that by (induction rows) (auto simp: Let_def split: option.splits if_splits sum.splits)
  note def = assms(1) [unfolded rename_prefix_def Let_def]
  consider "from_p = to_p"
    | "from_p \<noteq> to_p" "list_keys_under_prefix bid from_p d = []"
    | e where "from_p \<noteq> to_p" "list_keys_under_prefix bid from_p d \<noteq> []"
        "plan_renames bid from_p to_p d (list_keys_under_prefix bid from_p d) = Inl e"
    | rs where "from_p \<noteq> to_p" "list_keys_under_prefix bid from_p d \<noteq> []"
        "plan_renames bid from_p to_p d (list_keys_under_prefix bid from_p d) = Inr rs"
    by (metis sum.exhaust)
  then show thesis
  proof cases
    case 1
    then show thesis using def by (intro same) simp_all
  next
    case 2
    then show thesis using def by (intro empty) simp_all
  next
    case (3 e)
    with def have "x = Inl e" "d' = d" by simp_all
    with taken [OF 3(3)] show thesis by (auto intro: that(3))
  next
    case (4 rs)
    with def rename_prefix_applies [OF assms(2) 4(1,3), of now] show thesis
      by (intro that(4) [of rs]) simp_all
  qed
qed

lemma objects_renamed:
  assumes ok: "objects_ok d"
    and plan: "plan_renames bid from_p to_p d (list_keys_under_prefix bid from_p d) = Inr rs"
  shows "map (renamed rs now) (objects d)
     = map (\<lambda>r. if renamable bid from_p r then rename_key from_p to_p now r else r) (objects d)"
    and "int (length rs) = count_where (renamable bid from_p) (objects d)"
    and "\<And>r y. r \<in> set (objects d) \<Longrightarrow> renamable bid from_p r \<Longrightarrow> y \<in> set (objects d) \<Longrightarrow> obj_active y \<Longrightarrow>
      obj_bucket_id y = bid \<Longrightarrow> original_filename y \<noteq> to_p @ drop (length from_p) (original_filename r)"
proof -
  from plan_renames_Inr [OF plan]
  have rs: "rs = map (\<lambda>r. (obj_id r, to_p @ drop (length from_p) (original_filename r)))
      (filter (\<lambda>r. starts_with (original_filename r) from_p) (list_keys_under_prefix bid from_p d))"
    and free: "\<forall>(i, k) \<in> set rs. get_object_by_filename_in_bucket k bid d = None" by blast+
  show "map (renamed rs now) (objects d)
     = map (\<lambda>r. if renamable bid from_p r then rename_key from_p to_p now r else r) (objects d)"
    by (rule map_cong [OF refl]) (rule renamed_plan [OF ok rs])
  have "filter (\<lambda>r. starts_with (original_filename r) from_p) (list_keys_under_prefix bid from_p d)
      = sort_key original_filename (filter (renamable bid from_p) (objects d))"
    by (auto simp: list_keys_under_prefix_def filter_sort select_where_def renamable_def
        like_prefix_starts_with intro!: arg_cong [of _ _ "sort_key original_filename"] filter_cong)
  then show "int (length rs) = count_where (renamable bid from_p) (objects d)"
    by (simp add: rs count_where_def)
  fix r y
  assume r: "r \<in> set (objects d)" "renamable bid from_p r"
    and y: "y \<in> set (objects d)" "obj_active y" "obj_bucket_id y = bid"
  then have "r \<in> set (list_keys_under_prefix bid from_p d)"
    by (auto simp: list_keys_under_prefix_def set_select_where renamable_def like_prefix_starts_with)
  then have "(obj_id r, to_p @ drop (length from_p) (original_filename r)) \<in> set rs"
    using r unfolding rs renamable_def by auto
  with free y show "original_filename y \<noteq> to_p @ drop (length from_p) (original_filename r)"
    by (auto simp: get_object_by_filename_in_bucket_def select_one_None)
qed

lemma objects_ok_rename: 
  assumes ok: "objects_ok d" and r: "rename_prefix bid from_p to_p now d = (x, d')"
  shows "objects_ok d'"
  using r ok
proof (cases rule: rename_prefix_cases)
  case (renamed rs)
  let ?f = "rename_key from_p to_p now"
  have "d' = objects_update (update_where (renamable bid from_p) ?f) d"
    using renamed objects_renamed(1) [OF ok renamed(3), of now] by (cases d) (simp add: update_where_def)
  moreover have "objects_ok (objects_update (update_where (renamable bid from_p) ?f) d)"
  proof (rule objects_ok_update [OF ok], goal_cases)
    case (4 x y)
    have act: "obj_active (?f r) = obj_active r" for r by (simp add: rename_key_def obj_active_def)
    note free = objects_renamed(3) [OF ok renamed(3)]
    show ?case
    proof (cases "renamable bid from_p x"; cases "renamable bid from_p y")
      assume "renamable bid from_p x" "renamable bid from_p y"
      then have "original_filename x = original_filename y"
        using 4 by (auto simp: rename_key_def renamable_def starts_with_iff)
      with 4 act show ?thesis using active_keyD [OF ok, of x y] by (simp split: if_splits)
    next
      assume xy: "renamable bid from_p x" "\<not> renamable bid from_p y"
      then have "obj_active y" "obj_bucket_id y = bid" "original_filename (?f x) = original_filename y"
        using 4 by (simp_all add: renamable_def [of _ _ x])
      with free [of x y] 4(1,2) xy show ?thesis by (simp add: rename_key_def)
    next
      assume xy: "\<not> renamable bid from_p x" "renamable bid from_p y"
      then have "obj_active x" "obj_bucket_id x = bid" "original_filename (?f y) = original_filename x"
        using 4 by (simp_all add: renamable_def [of _ _ y])
      with free [of y x] 4(1,2) xy show ?thesis by (simp add: rename_key_def)
    next
      assume "\<not> renamable bid from_p x" "\<not> renamable bid from_p y"
      with 4 show ?thesis using active_keyD [OF ok, of x y] by simp
    qed
  qed (simp_all add: rename_key_def)
  ultimately show ?thesis by simp
qed (use ok in auto)

section \<open>Properties\<close>

text \<open>C13: Renaming a folder to another name, when it succeeds, moves exactly the active keys that start with the old
  prefix: each keeps the rest of its key under the new prefix, every other row is untouched, the
  reported number is the number of moved keys, and the table keeps its constraints (no two active
  objects of a bucket share a key).\<close>

theorem rename_prefix_moves:
  assumes "objects_ok d" and "from_p \<noteq> to_p" and "rename_prefix bid from_p to_p now d = (Inr n, d')"
  shows "objects d' = map (\<lambda>r. if renamable bid from_p r then rename_key from_p to_p now r else r) (objects d)
     \<and> n = count_where (renamable bid from_p) (objects d) \<and> objects_ok d'"
  using assms(3,1)
proof (cases rule: rename_prefix_cases)
  case (renamed rs)
  then show ?thesis
    using assms objects_renamed [OF assms(1) renamed(3)] objects_ok_rename by auto
qed (use assms in auto)

text \<open>A small object table for the witnesses: two keys under a folder, one in another case.\<close>

definition demo_object :: "int \<Rightarrow> string \<Rightarrow> int \<Rightarrow> time option \<Rightarrow> object_record" where
  "demo_object i fname bid del = \<lparr>obj_id = i, original_filename = fname,
     filepath = ''objects/'' @ show_int i @ ''.bin'', file_format = ''bin'', filesize_bytes = 10,
     obj_etag_type = Md5, etag = ''e'', date_uploaded = 100, date_modified = 100,
     obj_bucket_id = bid, deleted_at = del\<rparr>"

definition demo_db :: db where
  "demo_db = (initial_db 0)\<lparr>objects := [demo_object 1 ''a/x'' 1 None, demo_object 2 ''A/y'' 1 None,
     demo_object 3 ''b/z'' 1 None], next_object_id := 4\<rparr>"

lemma demo_db_ok: "objects_ok demo_db"
  by code_simp

theorem rename_prefix_moves_witness:
  "map original_filename (objects (snd (rename_prefix 1 ''a/'' ''c/'' 200 demo_db))) = [''c/x'', ''A/y'', ''b/z'']
   \<and> fst (rename_prefix 1 ''a/'' ''c/'' 200 demo_db) = Inr 1
   \<and> objects_ok (snd (rename_prefix 1 ''a/'' ''c/'' 200 demo_db))"
proof -
  have "fst (rename_prefix 1 ''a/'' ''c/'' 200 demo_db) = Inr 1" by code_simp
  then have run: "rename_prefix 1 ''a/'' ''c/'' 200 demo_db
      = (Inr 1, snd (rename_prefix 1 ''a/'' ''c/'' 200 demo_db))" by (metis prod.collapse)
  have "map original_filename (map (\<lambda>r. if renamable 1 ''a/'' r then rename_key ''a/'' ''c/'' 200 r else r)
      (objects demo_db)) = [''c/x'', ''A/y'', ''b/z'']" by code_simp
  moreover have "''a/'' \<noteq> ''c/''" by simp
  note rename_prefix_moves [OF demo_db_ok this run]
  ultimately show ?thesis using \<open>fst _ = Inr 1\<close> by simp
qed

text \<open>A rename that fails changes nothing, and fails only for one of the two reasons the
  code states: no key lies under the old prefix, or a target key is taken. In particular the
  updates of the transaction never hit the unique index.\<close>

theorem rename_prefix_fails:
  assumes "objects_ok d" and "rename_prefix bid from_p to_p now d = (Inl e, d')"
  shows "d' = d \<and>
    (e = Bail ''folder is empty or does not exist'' \<and> list_keys_under_prefix bid from_p d = []
     \<or> (\<exists>k. e = Bail (''target key already exists: '' @ k) \<and> get_object_by_filename_in_bucket k bid d \<noteq> None))"
  using assms(2,1) by (cases rule: rename_prefix_cases) auto

theorem rename_prefix_fails_witness:
  "snd (rename_prefix 1 ''a/'' ''b/'' 200 (demo_db\<lparr>objects := objects demo_db @ [demo_object 4 ''b/x'' 1 None], next_object_id := 5\<rparr>))
   = demo_db\<lparr>objects := objects demo_db @ [demo_object 4 ''b/x'' 1 None], next_object_id := 5\<rparr>"
proof -
  let ?d = "demo_db\<lparr>objects := objects demo_db @ [demo_object 4 ''b/x'' 1 None], next_object_id := 5\<rparr>"
  have ok: "objects_ok ?d" by code_simp
  have "fst (rename_prefix 1 ''a/'' ''b/'' 200 ?d) = Inl (Bail ''target key already exists: b/x'')" by code_simp
  then have "rename_prefix 1 ''a/'' ''b/'' 200 ?d
      = (Inl (Bail ''target key already exists: b/x''), snd (rename_prefix 1 ''a/'' ''b/'' 200 ?d))"
    by (metis prod.collapse)
  from rename_prefix_fails [OF ok this] show ?thesis by blast
qed

text \<open>Deleting a folder moves to the recycle bin exactly the active keys of the bucket that
  start with the prefix \<^emph>\<open>up to ASCII case\<close> (SQL \<open>LIKE\<close> ignores case), and reports their number.\<close>

theorem soft_delete_prefix_exact:
  "objects (snd (soft_delete_prefix bid pre now d))
     = map (\<lambda>r. if obj_active r \<and> obj_bucket_id r = bid \<and> iprefix pre (original_filename r)
                then r\<lparr>deleted_at := Some now, date_modified := now\<rparr> else r) (objects d)
   \<and> fst (soft_delete_prefix bid pre now d)
     = count_where (\<lambda>r. obj_active r \<and> obj_bucket_id r = bid \<and> iprefix pre (original_filename r)) (objects d)"
  by (simp add: soft_delete_prefix_def soft_delete_rows_def update_where_def like_prefix_iff Let_def)

text \<open>Deleting one folder can delete another: keys under \<open>A/\<close> go to the recycle bin when the
  folder \<open>a/\<close> is deleted, although they do not start with \<open>a/\<close>.\<close>

theorem soft_delete_prefix_other_case:
  "\<exists>r \<in> set (objects demo_db). obj_active r \<and> \<not> starts_with (original_filename r) ''a/''
     \<and> r\<lparr>deleted_at := Some 200, date_modified := 200\<rparr> \<in> set (objects (snd (soft_delete_prefix 1 ''a/'' 200 demo_db)))"
  by code_simp

lemma get_by_filename_mem:
  "get_object_by_filename_in_bucket f b d = Some r \<Longrightarrow>
     r \<in> set (objects d) \<and> original_filename r = f \<and> obj_bucket_id r = b \<and> obj_active r"
  "get_object_by_filename f d = Some r \<Longrightarrow> r \<in> set (objects d) \<and> original_filename r = f \<and> obj_active r"
  unfolding get_object_by_filename_in_bucket_def get_object_by_filename_def
  by (auto dest: select_one_Some)


end
