(* ===== verification/Listing.thy ===== *)
theory Listing
  imports Objects "HOL-Library.Multiset"
begin

text \<open>
  Listing objects as files and virtual folders (\<open>list_objects_with_prefix\<close> and its helpers in
  \<open>src/db/repository.rs\<close>): prefix and delimiter grouping, substring search, folder statistics and
  the paging window. \<open>str::to_lowercase\<close> (full Unicode) is the parameter \<open>lower\<close>.
\<close>

definition USIZE_MAX :: nat where "USIZE_MAX = 18446744073709551615"

record folder_entry =
  fe_prefix :: string
  fe_date_created :: "time option"
  fe_date_modified :: "time option"
  fe_total_bytes :: int
  fe_object_count :: int

record prefix_list_result =
  plr_prefix :: string
  plr_delimiter :: string
  common_prefixes :: "string list"
  folders :: "folder_entry list"
  plr_objects :: "object_record list"
  total :: int
  plr_offset :: int
  plr_limit :: int
  has_more :: bool

section \<open>Folder statistics\<close>

definition min_time :: "time list \<Rightarrow> time option" where
  "min_time ts = (case ts of [] \<Rightarrow> None | t # us \<Rightarrow> Some (foldl min t us))"
definition max_time :: "time list \<Rightarrow> time option" where
  "max_time ts = (case ts of [] \<Rightarrow> None | t # us \<Rightarrow> Some (foldl max t us))"

text \<open>The aggregate query.\<close>

definition folder_stats :: "int \<Rightarrow> string \<Rightarrow> db \<Rightarrow> folder_entry" where
  "folder_stats bid pre d =
     (let rows = select_where (\<lambda>r. obj_active r \<and> obj_bucket_id r = bid
                   \<and> like_prefix pre (original_filename r)) (objects d) in
      \<lparr>fe_prefix = pre, fe_date_created = min_time (map date_uploaded rows),
       fe_date_modified = max_time (map date_modified rows),
       fe_total_bytes = sum_list (map filesize_bytes rows), fe_object_count = int (length rows)\<rparr>)"

definition folder_step :: "string \<Rightarrow> folder_entry \<Rightarrow> object_record \<Rightarrow> folder_entry" where
  "folder_step pre acc row =
     (if \<not> starts_with (original_filename row) pre then acc
      else acc\<lparr>fe_object_count := fe_object_count acc + 1,
               fe_total_bytes := fe_total_bytes acc + filesize_bytes row,
               fe_date_created := Some (case fe_date_created acc of
                 Some t \<Rightarrow> min t (date_uploaded row) | None \<Rightarrow> date_uploaded row),
               fe_date_modified := Some (case fe_date_modified acc of
                 Some t \<Rightarrow> max t (date_modified row) | None \<Rightarrow> date_modified row)\<rparr>)"

definition folder_entry_from_rows :: "string \<Rightarrow> object_record list \<Rightarrow> folder_entry" where
  "folder_entry_from_rows pre rows =
     foldl (folder_step pre)
       \<lparr>fe_prefix = pre, fe_date_created = None, fe_date_modified = None,
        fe_total_bytes = 0, fe_object_count = 0\<rparr> rows"

section \<open>Folders matching a search\<close>

text \<open>The loop over the segments of a key, without its last one.\<close>

fun matching_folders :: "(string \<Rightarrow> bool) \<Rightarrow> string \<Rightarrow> string list \<Rightarrow> string list" where
  "matching_folders hit acc [] = []"
| "matching_folders hit acc [seg] = []"
| "matching_folders hit acc (seg # v # rest) =
     (let acc' = acc @ seg @ ''/'' in
      (if hit seg then [acc'] else []) @ matching_folders hit acc' (v # rest))"

definition row_folders :: "(string \<Rightarrow> string) \<Rightarrow> string \<Rightarrow> object_record \<Rightarrow> string list" where
  "row_folders lower q_lower row =
     (let k = original_filename row in
      if basename k = ''.keep'' then
        (case strip_suffix k ''.keep'' of
           Some folder \<Rightarrow> [if ends_with folder ''/'' then folder else folder @ ''/'']
         | None \<Rightarrow> [])
      else
        let parts = split_on (CHR ''/'') k in
        if length parts < 2 then []
        else matching_folders (\<lambda>seg. contains (lower seg) q_lower) [] parts)"

definition search_folder_prefixes :: "(string \<Rightarrow> string) \<Rightarrow> string \<Rightarrow> object_record list \<Rightarrow> string list" where
  "search_folder_prefixes lower q rows = btree_list (concat (map (row_folders lower (lower q)) rows))"

section \<open>The paging window\<close>

definition page_folder_object_lists ::
  "folder_entry list \<Rightarrow> object_record list \<Rightarrow> string \<Rightarrow> string \<Rightarrow> int \<Rightarrow> int \<Rightarrow> prefix_list_result" where
  "page_folder_object_lists fs os pre delim offset0 limit0 =
     (let offset = nat (max offset0 0);
          limit = (if limit0 \<le> 0 then USIZE_MAX else nat limit0);
          tot = int (length fs + length os);
          stop = min (offset + limit) USIZE_MAX;
          folder_len = length fs;
          page_folders = (if offset \<ge> folder_len then []
                          else take (min stop folder_len - offset) (drop offset fs));
          page_objects =
            (if stop \<le> folder_len then []
             else let obj_start = offset - folder_len;
                      obj_end = min (stop - folder_len) (length os)
                  in if obj_start \<ge> length os then []
                     else take (obj_end - obj_start) (drop obj_start os));
          returned = int (length page_folders + length page_objects)
      in \<lparr>plr_prefix = pre, plr_delimiter = delim,
          common_prefixes = map fe_prefix page_folders,
          folders = page_folders, plr_objects = page_objects, total = tot,
          plr_offset = int offset,
          plr_limit = (if limit = USIZE_MAX then max tot 0 else int limit),
          has_more = (int offset + returned < tot)\<rparr>)"

section \<open>Listing\<close>

definition not_keep :: "object_record \<Rightarrow> bool" where
  "not_keep row \<longleftrightarrow> basename (original_filename row) \<noteq> ''.keep''"

definition rows_by_name :: "(string \<Rightarrow> bool) \<Rightarrow> int option \<Rightarrow> db \<Rightarrow> object_record list" where
  "rows_by_name P bid d =
     sort_key original_filename
       (select_where (\<lambda>r. obj_active r \<and> (case bid of Some b \<Rightarrow> obj_bucket_id r = b | None \<Rightarrow> True)
          \<and> P (original_filename r)) (objects d))"

text \<open>
  The loop that sorts keys into folders and objects. \<open>&rest[..=idx]\<close> panics when the byte after
  \<open>idx\<close> is inside a character, which a delimiter of several bytes can cause: \<open>None\<close>.
\<close>

fun classify_rows ::
  "string \<Rightarrow> string \<Rightarrow> object_record list \<Rightarrow> (string list \<times> object_record list) option" where
  "classify_rows pre delim [] = Some ([], [])"
| "classify_rows pre delim (row # rows) =
     (case strip_prefix (original_filename row) pre of
        None \<Rightarrow> classify_rows pre delim rows
      | Some rest \<Rightarrow>
          (case find_str rest delim of
             Some idx \<Rightarrow>
               if Suc idx < length rest \<and> is_cont (rest ! Suc idx) then None
               else if idx \<ge> length rest then None
               else map_option (\<lambda>(cs, os). ((pre @ take (Suc idx) rest) # cs, os)) (classify_rows pre delim rows)
           | None \<Rightarrow>
               map_option (\<lambda>(cs, os). (cs, if not_keep row then row # os else os))
                 (classify_rows pre delim rows)))"

definition list_objects_with_prefix ::
  "(string \<Rightarrow> string) \<Rightarrow> string \<Rightarrow> string \<Rightarrow> string option \<Rightarrow> int option \<Rightarrow> int \<Rightarrow> int \<Rightarrow> db
     \<Rightarrow> prefix_list_result option" where
  "list_objects_with_prefix lower pre delim search bid offset limit d =
     (case search of
        Some (c # q) \<Rightarrow>
          let rows = rows_by_name (like_infix (c # q)) bid d;
              fs = map (\<lambda>cp. folder_entry_from_rows cp rows) (search_folder_prefixes lower (c # q) rows)
          in Some (page_folder_object_lists fs (filter not_keep rows) pre delim offset limit)
      | _ \<Rightarrow>
          let rows = rows_by_name (like_prefix pre) bid d in
          if delim = [] then Some (page_folder_object_lists [] (filter not_keep rows) pre delim offset limit)
          else map_option (\<lambda>(cs, os). page_folder_object_lists
                 (map (\<lambda>cp. folder_entry_from_rows cp rows) (btree_list cs)) os pre delim offset limit)
                 (classify_rows pre delim rows))"

section \<open>Properties\<close>

lemma take_drop_window:
  "take (e - i) (drop i (xs @ ys)) = take (min e (length xs) - i) (drop i xs)
     @ take (e - max i (length xs)) (drop (i - length xs) ys)"
proof (cases "i \<le> length xs")
  case True
  then show ?thesis by (auto simp: min_def max_def)
next
  case False
  then show ?thesis by (auto simp: min_def max_def)
qed

text \<open>The window in one equation: the requested slice of folders followed by objects.\<close>

definition page_entries :: "prefix_list_result \<Rightarrow> (folder_entry + object_record) list" where
  "page_entries r = map Inl (folders r) @ map Inr (plr_objects r)"

lemma page_entries_window:
  assumes "0 \<le> offset" and "offset \<le> I64_MAX"
    and "length fs + length os < USIZE_MAX"
    and "limit \<le> I64_MAX"
  shows "page_entries (page_folder_object_lists fs os pre delim offset limit)
     = (if limit \<le> 0 then drop (nat offset) (map Inl fs @ map Inr os)
        else take (nat limit) (drop (nat offset) (map Inl fs @ map Inr os)))"
proof -
  define i where "i = nat offset"
  define l where "l = (if limit \<le> 0 then USIZE_MAX else nat limit)"
  define e where "e = min (i + l) USIZE_MAX"
  have i: "nat (max offset 0) = i" using assms(1) by (simp add: i_def)
  have clip: "take (min n (length xs) - k) (drop k xs) = take (n - k) (drop k xs)" for n k and xs :: "'x list"
    by (simp add: min_def)
  have sub: "e - length fs - (i - length fs) = e - max i (length fs)" if "length fs < e" 
    using that by (simp add: max_def)
  let ?r = "page_folder_object_lists fs os pre delim offset limit"
  have "folders ?r = take (min e (length fs) - i) (drop i fs)"
    unfolding page_folder_object_lists_def Let_def i l_def [symmetric] e_def [symmetric] by simp
  moreover have "plr_objects ?r = take (e - max i (length fs)) (drop (i - length fs) os)"
    unfolding page_folder_object_lists_def Let_def i l_def [symmetric] e_def [symmetric]
    using sub by (simp add: clip)
  ultimately have "page_entries ?r
      = map Inl (take (min e (length fs) - i) (drop i fs))
        @ map Inr (take (e - max i (length fs)) (drop (i - length fs) os))"
    by (simp add: page_entries_def)
  also have "\<dots> = take (e - i) (drop i (map Inl fs @ map Inr os))"
    unfolding take_drop_window by (simp add: take_map drop_map)
  also have "\<dots> = (if limit \<le> 0 then drop i (map Inl fs @ map Inr os)
        else take (nat limit) (drop i (map Inl fs @ map Inr os)))"
  proof (cases "limit \<le> 0")
    case True
    then have "e = USIZE_MAX" by (simp add: e_def l_def)
    then show ?thesis using True assms(3) by simp
  next
    case False
    have "i + nat limit \<le> USIZE_MAX"
      using assms(2,4) False by (simp add: i_def USIZE_MAX_def I64_MAX_def nat_le_iff)
    then have "e - i = nat limit" using False by (simp add: e_def l_def)
    then show ?thesis using False by simp
  qed
  finally show ?thesis by (simp add: i_def)
qed

text \<open>Reading page after page, as the explorer does, until the server says there is no more.\<close>

fun read_pages :: "nat \<Rightarrow> folder_entry list \<Rightarrow> object_record list \<Rightarrow> int \<Rightarrow> int \<Rightarrow> (folder_entry + object_record) list" where
  "read_pages 0 fs os offset limit = []"
| "read_pages (Suc n) fs os offset limit =
     (let r = page_folder_object_lists fs os [] ''/'' offset limit in
      page_entries r @ (if has_more r then read_pages n fs os (offset + int (length (page_entries r))) limit else []))"

lemma has_more_window:
  assumes "0 \<le> offset" "offset \<le> I64_MAX" "length fs + length os < USIZE_MAX" "0 < limit" "limit \<le> I64_MAX"
  shows "has_more (page_folder_object_lists fs os pre delim offset limit)
     \<longleftrightarrow> offset + limit < int (length fs + length os)"
proof -
  let ?r = "page_folder_object_lists fs os pre delim offset limit"
  have "length (page_entries ?r) = length (take (nat limit) (drop (nat offset) (map Inl fs @ map Inr os)))"
    using page_entries_window [OF assms(1-3,5), of pre delim] assms(4) by simp
  then have "length (page_entries ?r) = min (nat limit) (length fs + length os - nat offset)"
    by (simp only: length_take length_drop length_append length_map) linarith
  moreover have "has_more ?r \<longleftrightarrow> offset + int (length (page_entries ?r)) < int (length fs + length os)"
    using assms(1) unfolding page_entries_def page_folder_object_lists_def Let_def by simp
  ultimately show ?thesis using assms by auto
qed

lemma read_pages_drop:
  assumes "0 < limit" "limit \<le> I64_MAX" "int (length fs + length os) \<le> I64_MAX"
    and "0 \<le> offset" "offset \<le> int (length fs + length os)"
    and "length fs + length os - nat offset \<le> n" "0 < n"
  shows "read_pages n fs os offset limit = drop (nat offset) (map Inl fs @ map Inr os)"
  using assms(4-)
proof (induction n arbitrary: offset)
  case (Suc n)
  let ?r = "page_folder_object_lists fs os [] ''/'' offset limit"
  let ?all = "map Inl fs @ map Inr os"
  have b: "length fs + length os < USIZE_MAX" "offset \<le> I64_MAX"
    using assms(3) Suc.prems by (simp_all add: USIZE_MAX_def I64_MAX_def)
  have win: "page_entries ?r = take (nat limit) (drop (nat offset) ?all)"
    using page_entries_window [OF Suc.prems(1) b(2) b(1) assms(2), of "[]" "''/''"] assms(1) by simp
  note more = has_more_window [OF Suc.prems(1) b(2) b(1) assms(1,2), of "[]" "''/''"]
  show ?case
  proof (cases "has_more ?r")
    case False
    with more Suc.prems win show ?thesis by (simp add: Let_def) 
  next
    case True
    then have lt: "offset + limit < int (length ?all)" using more by simp
    then have len: "int (length (page_entries ?r)) = limit"
      using assms(1) Suc.prems(1) unfolding win
      by (simp only: length_take length_drop)
    have "read_pages n fs os (offset + limit) limit = drop (nat (offset + limit)) ?all"
      using Suc.prems assms(1) lt by (intro Suc.IH) auto
    moreover have "take (nat limit) (drop (nat offset) ?all) @ drop (nat (offset + limit)) ?all
        = drop (nat offset) ?all"
    proof -
      have "nat (offset + limit) = nat limit + nat offset" using assms(1) Suc.prems(1) by simp
      then have "drop (nat (offset + limit)) ?all = drop (nat limit) (drop (nat offset) ?all)"
        by (simp only: drop_drop)
      then show ?thesis by (simp only: append_take_drop_id)
    qed
    moreover have "read_pages (Suc n) fs os offset limit = page_entries ?r @ read_pages n fs os (offset + limit) limit"
      using True len by (simp add: Let_def)
    ultimately show ?thesis by (simp only: win)
  qed
qed simp

text \<open>One level of the tree: the first folder below the prefix a key lies in.\<close>

definition child_folder :: "string \<Rightarrow> string \<Rightarrow> string option" where
  "child_folder pre k = (case strip_prefix k pre of None \<Rightarrow> None
     | Some rest \<Rightarrow> map_option (\<lambda>(a, b). pre @ a @ ''/'') (split_once (CHR ''/'') rest))"

definition direct_child :: "string \<Rightarrow> string \<Rightarrow> bool" where
  "direct_child pre k \<longleftrightarrow> starts_with k pre \<and> CHR ''/'' \<notin> set (drop (length pre) k)"

text \<open>In UTF-8 a continuation byte never follows an ASCII byte.\<close>

definition utf8_slash :: "string \<Rightarrow> bool" where
  "utf8_slash s \<longleftrightarrow> (\<forall>i. Suc i < length s \<longrightarrow> s ! i = CHR ''/'' \<longrightarrow> \<not> is_cont (s ! Suc i))"

lemma child_folder_Some:
  "child_folder pre k = Some f \<longleftrightarrow> (\<exists>a b. k = pre @ a @ ''/'' @ b \<and> CHR ''/'' \<notin> set a \<and> f = pre @ a @ ''/'')"
  by (auto simp: child_folder_def strip_prefix_Some split_once_Some split: option.splits)

lemma classify_rows_slash:
  assumes "\<forall>r \<in> set rows. utf8_slash (original_filename r)"
  shows "classify_rows pre ''/'' rows = Some (List.map_filter (\<lambda>r. child_folder pre (original_filename r)) rows,
     filter (\<lambda>r. direct_child pre (original_filename r) \<and> not_keep r) rows)"
  using assms
proof (induction rows)
  case Nil
  then show ?case by (simp add: map_filter_simps)
next
  case (Cons row rows)
  let ?k = "original_filename row"
  note IH = Cons.IH Cons.prems
  show ?case
  proof (cases "strip_prefix ?k pre")
    case None
    then have "\<not> starts_with ?k pre" by (simp add: strip_prefix_def split: if_splits)
    with None IH show ?thesis
      by (simp add: map_filter_simps child_folder_def direct_child_def)
  next
    case (Some rest)
    then have k: "?k = pre @ rest" by (simp add: strip_prefix_Some)
    show ?thesis
    proof (cases "split_once (CHR ''/'') rest")
      case None
      then have "CHR ''/'' \<notin> set rest" by (simp add: split_once_None)
      with None Some k IH show ?thesis
        by (simp add: map_filter_simps child_folder_def direct_child_def find_str_char)
    next
      case (Some p)
      obtain a b where p: "p = (a, b)" by force
      with Some have rest: "rest = a @ CHR ''/'' # b" by (simp add: split_once_Some)
      have "utf8_slash ?k" using Cons.prems by simp
      from this [unfolded utf8_slash_def, rule_format, of "length pre + length a"]
      have nc: "Suc (length a) < length rest \<Longrightarrow> \<not> is_cont (rest ! Suc (length a))"
        unfolding k rest by (simp add: nth_append)
      show ?thesis
        using IH \<open>strip_prefix ?k pre = Some rest\<close> Some p k rest nc
        by (auto simp: map_filter_simps child_folder_def direct_child_def find_str_char)
    qed
  qed
qed

lemma folder_entry_from_rows_count:
  "fe_object_count (folder_entry_from_rows pre rows) = count_where (\<lambda>r. starts_with (original_filename r) pre) rows"
  "fe_total_bytes (folder_entry_from_rows pre rows)
     = sum_list (map filesize_bytes (filter (\<lambda>r. starts_with (original_filename r) pre) rows))"
  "fe_prefix (folder_entry_from_rows pre rows) = pre"
proof -
  have "fe_object_count (foldl (folder_step pre) f rows) = fe_object_count f + count_where (\<lambda>r. starts_with (original_filename r) pre) rows
    \<and> fe_total_bytes (foldl (folder_step pre) f rows) = fe_total_bytes f
        + sum_list (map filesize_bytes (filter (\<lambda>r. starts_with (original_filename r) pre) rows))
    \<and> fe_prefix (foldl (folder_step pre) f rows) = fe_prefix f" for f
    by (induction rows arbitrary: f) (auto simp: folder_step_def count_where_def)
  then show "fe_object_count (folder_entry_from_rows pre rows) = count_where (\<lambda>r. starts_with (original_filename r) pre) rows"
    "fe_total_bytes (folder_entry_from_rows pre rows)
     = sum_list (map filesize_bytes (filter (\<lambda>r. starts_with (original_filename r) pre) rows))"
    "fe_prefix (folder_entry_from_rows pre rows) = pre"
    by (simp_all add: folder_entry_from_rows_def)
qed

lemma mset_rows_by_name: "mset (rows_by_name P b d) = mset (select_where (\<lambda>r. obj_active r
   \<and> (case b of Some i \<Rightarrow> obj_bucket_id r = i | None \<Rightarrow> True) \<and> P (original_filename r)) (objects d))"
  by (simp add: rows_by_name_def)

lemma has_more_eq: "has_more (page_folder_object_lists fs os pre delim offset limit)
    \<longleftrightarrow> int (nat (max offset 0)) + int (length (folders (page_folder_object_lists fs os pre delim offset limit))
         + length (plr_objects (page_folder_object_lists fs os pre delim offset limit)))
       < int (length fs + length os)"
  by (simp only: page_folder_object_lists_def Let_def prefix_list_result.select_convs)

lemma page_all:
  assumes "length fs + length os < USIZE_MAX"
  shows "folders (page_folder_object_lists fs os pre delim 0 0) = fs"
    "plr_objects (page_folder_object_lists fs os pre delim 0 0) = os"
    "common_prefixes (page_folder_object_lists fs os pre delim 0 0) = map fe_prefix fs"
    "\<not> has_more (page_folder_object_lists fs os pre delim 0 0)"
proof -
  let ?r = "page_folder_object_lists fs os pre delim 0 0"
  have m: "min (0 + USIZE_MAX) USIZE_MAX = USIZE_MAX" "nat (max 0 0) = 0" by simp_all
  show f: "folders ?r = fs"
    unfolding page_folder_object_lists_def Let_def m using assms by (cases fs) simp_all
  then show "common_prefixes ?r = map fe_prefix fs"
    by (simp add: page_folder_object_lists_def Let_def)
  show o: "plr_objects ?r = os"
    unfolding page_folder_object_lists_def Let_def m using assms by (cases os) simp_all
  have "has_more ?r \<longleftrightarrow> int (length (folders ?r) + length (plr_objects ?r)) < int (length fs + length os)"
    unfolding has_more_eq [of fs os pre delim 0 0] m by (simp only: of_nat_0 add_0)
  then show "\<not> has_more ?r" by (simp only: f o)
qed

text \<open>The rows under a folder, by count and bytes, whatever order the query returned them in.\<close>

definition under_folder :: "int \<Rightarrow> string \<Rightarrow> object_record \<Rightarrow> bool" where
  "under_folder bid pre r \<longleftrightarrow> obj_active r \<and> obj_bucket_id r = bid \<and> starts_with (original_filename r) pre"

lemma rows_under:
  assumes "starts_with f pre"
  shows "mset (filter (\<lambda>r. starts_with (original_filename r) f) (rows_by_name (like_prefix pre) (Some bid) d))
     = mset (filter (under_folder bid f) (objects d))"
proof -
  have "filter (\<lambda>r. starts_with (original_filename r) f) (select_where (\<lambda>r. obj_active r \<and> obj_bucket_id r = bid
      \<and> like_prefix pre (original_filename r)) (objects d)) = filter (under_folder bid f) (objects d)"
    unfolding select_where_def filter_filter under_folder_def
    by (rule filter_cong [OF refl]) (use assms starts_with_trans like_prefix_starts_with in blast)
  from arg_cong [OF this, of mset] show ?thesis
    by (simp only: mset_filter mset_rows_by_name option.case)
qed

text \<open>C30: Reading a listing page by page, each page starting where the previous one ended, until
  the server reports that there is no more: every folder and then every object is returned, once
  and in order, whatever page size is used.\<close>

theorem list_pages_complete:
  assumes "0 < limit" and "limit \<le> I64_MAX" and "int (length fs + length os) \<le> I64_MAX"
  shows "read_pages (length fs + length os + 1) fs os 0 limit = map Inl fs @ map Inr os"
  using read_pages_drop [OF assms, of 0 "length fs + length os + 1"] by simp

theorem list_pages_complete_witness:
  "read_pages 4 [folder_entry_from_rows ''a/'' [demo_object 1 ''a/x'' 1 None]]
     [demo_object 2 ''b'' 1 None, demo_object 3 ''c'' 1 None] 0 2
   = [Inl (folder_entry_from_rows ''a/'' [demo_object 1 ''a/x'' 1 None]),
      Inr (demo_object 2 ''b'' 1 None), Inr (demo_object 3 ''c'' 1 None)]"
proof -
  have "(0::int) < 2" "(2::int) \<le> I64_MAX" "int (length [folder_entry_from_rows ''a/'' [demo_object 1 ''a/x'' 1 None]]
     + length [demo_object 2 ''b'' 1 None, demo_object 3 ''c'' 1 None]) \<le> I64_MAX"
    by (simp_all add: I64_MAX_def)
  from list_pages_complete [OF this] show ?thesis by (simp add: eval_nat_numeral del: read_pages.simps)
qed

lemma sorted_list_length: "length (btree_list xs) \<le> length xs"
  by (simp add: btree_list_def length_remdups_leq)

lemma set_rows_by_name: "set (rows_by_name P (Some bid) d)
    = {r \<in> set (objects d). obj_active r \<and> obj_bucket_id r = bid \<and> P (original_filename r)}"
  by (simp add: rows_by_name_def set_select_where)

text \<open>One level of a bucket: the classified rows, with no window.\<close>

lemma list_level_run:
  "list_objects_with_prefix lower pre ''/'' None (Some bid) 0 0 d =
    map_option (\<lambda>(cs, os). page_folder_object_lists
        (map (\<lambda>cp. folder_entry_from_rows cp (rows_by_name (like_prefix pre) (Some bid) d)) (btree_list cs)) os pre ''/'' 0 0)
      (classify_rows pre ''/'' (rows_by_name (like_prefix pre) (Some bid) d))"
  by (simp add: list_objects_with_prefix_def Let_def)

text \<open>The counters of a folder are those of the active objects under it.\<close>

lemma folder_entry_counts:
  fixes pre bid d
  assumes "starts_with p pre"
  defines "f \<equiv> folder_entry_from_rows p (rows_by_name (like_prefix pre) (Some bid) d)"
  shows "fe_prefix f = p" "fe_object_count f = count_where (under_folder bid p) (objects d)"
    "fe_total_bytes f = sum_list (map filesize_bytes (filter (under_folder bid p) (objects d)))"
proof -
  note ms = rows_under [OF assms(1), of bid d]
  have "length (filter (\<lambda>r. starts_with (original_filename r) p) (rows_by_name (like_prefix pre) (Some bid) d))
      = length (filter (under_folder bid p) (objects d))"
    using arg_cong [OF ms, of size] by (simp only: size_mset)
  then show "fe_object_count f = count_where (under_folder bid p) (objects d)"
    by (simp add: f_def folder_entry_from_rows_count count_where_def)
  have "sum_list (map filesize_bytes (filter (\<lambda>r. starts_with (original_filename r) p) (rows_by_name (like_prefix pre) (Some bid) d)))
      = sum_list (map filesize_bytes (filter (under_folder bid p) (objects d)))"
    using arg_cong [OF ms, of "\<lambda>m. sum_mset (image_mset filesize_bytes m)"]
    by (simp only: mset_map [symmetric] sum_mset_sum_list)
  then show "fe_total_bytes f = sum_list (map filesize_bytes (filter (under_folder bid p) (objects d)))"
    by (simp add: f_def folder_entry_from_rows_count)
qed (simp add: f_def folder_entry_from_rows_count)

text \<open>C18: Listing one level of a bucket never fails and shows it completely: the folders are the
  first path segments below the prefix that some active key continues, each once; the files are the
  active keys directly under the prefix, folder markers left out; and each folder's counters are
  the number and the bytes of the active objects under it (as long as that sum fits the code's 64-bit integer).\<close>

theorem list_level_complete:
  assumes utf8: "\<forall>r \<in> set (objects d). utf8_slash (original_filename r)"
    and small: "2 * length (objects d) < USIZE_MAX"
  shows "\<exists>res. list_objects_with_prefix lower pre ''/'' None (Some bid) 0 0 d = Some res
    \<and> sorted (common_prefixes res) \<and> distinct (common_prefixes res)
    \<and> set (common_prefixes res) = {f. \<exists>r \<in> set (objects d). obj_active r \<and> obj_bucket_id r = bid
          \<and> child_folder pre (original_filename r) = Some f}
    \<and> set (plr_objects res) = {r \<in> set (objects d). obj_active r \<and> obj_bucket_id r = bid
          \<and> direct_child pre (original_filename r) \<and> not_keep r}
    \<and> (\<forall>f \<in> set (folders res). fe_object_count f = count_where (under_folder bid (fe_prefix f)) (objects d)
          \<and> fe_total_bytes f = sum_list (map filesize_bytes (filter (under_folder bid (fe_prefix f)) (objects d))))
    \<and> \<not> has_more res"
proof -
  define rows where "rows = rows_by_name (like_prefix pre) (Some bid) d"
  define cs where "cs = List.map_filter (\<lambda>r. child_folder pre (original_filename r)) rows"
  define os where "os = filter (\<lambda>r. direct_child pre (original_filename r) \<and> not_keep r) rows"
  define fs where "fs = map (\<lambda>cp. folder_entry_from_rows cp rows) (btree_list cs)"
  define res where "res = page_folder_object_lists fs os pre ''/'' 0 0"
  have set_rows: "set rows = {r \<in> set (objects d). obj_active r \<and> obj_bucket_id r = bid
      \<and> like_prefix pre (original_filename r)}"
    by (simp add: rows_def set_rows_by_name)
  then have "classify_rows pre ''/'' rows = Some (cs, os)"
    unfolding cs_def os_def using utf8 by (intro classify_rows_slash) blast
  then have run: "list_objects_with_prefix lower pre ''/'' None (Some bid) 0 0 d = Some res"
    unfolding list_level_run rows_def [symmetric] by (simp add: fs_def res_def)
  have "length rows \<le> length (objects d)" by (simp add: rows_def rows_by_name_def select_where_def)
  moreover have "length cs \<le> length rows" "length os \<le> length rows"
    unfolding cs_def os_def List.map_filter_def by (simp_all add: le_trans [OF length_filter_le])
  ultimately have "length fs + length os < USIZE_MAX"
    using sorted_list_length [of cs] small unfolding fs_def length_map by linarith
  note page = page_all [OF this, of pre "''/''", folded res_def]
  have cp: "common_prefixes res = btree_list cs"
    by (simp add: page(3) fs_def comp_def folder_entry_from_rows_count(3))
  have mem_cs: "set cs = {f. \<exists>r \<in> set rows. child_folder pre (original_filename r) = Some f}"
    by (force simp: cs_def List.map_filter_def)
  have cf: "child_folder pre k = Some f \<Longrightarrow> like_prefix pre k \<and> starts_with f pre" for k f
    by (auto simp: child_folder_Some intro: like_prefix_starts_with)
  have dc: "direct_child pre k \<Longrightarrow> like_prefix pre k" for k
    by (simp add: direct_child_def like_prefix_starts_with)
  have "\<forall>p \<in> set cs. starts_with p pre" using mem_cs cf by auto
  then have "fe_object_count f = count_where (under_folder bid (fe_prefix f)) (objects d)
      \<and> fe_total_bytes f = sum_list (map filesize_bytes (filter (under_folder bid (fe_prefix f)) (objects d)))"
    if "f \<in> set (folders res)" for f
    using that folder_entry_counts [of _ pre bid d] by (auto simp: page(1) fs_def btree_list_def rows_def)
  moreover have "set (common_prefixes res) = {f. \<exists>r \<in> set (objects d). obj_active r \<and> obj_bucket_id r = bid
          \<and> child_folder pre (original_filename r) = Some f}"
    unfolding cp btree_list_def set_sort set_remdups mem_cs set_rows using cf by auto
  moreover have "set (plr_objects res) = {r \<in> set (objects d). obj_active r \<and> obj_bucket_id r = bid
          \<and> direct_child pre (original_filename r) \<and> not_keep r}"
    unfolding page(2) os_def set_filter set_rows using dc by auto
  moreover have "sorted (common_prefixes res)" "distinct (common_prefixes res)"
    by (simp_all add: cp btree_list_def)
  ultimately show ?thesis using run page(4) by blast
qed

theorem list_level_complete_witness:
  "\<exists>res. list_objects_with_prefix ascii_lower [] ''/'' None (Some 1) 0 0 demo_db = Some res
    \<and> set (common_prefixes res) = {f. \<exists>r \<in> set (objects demo_db). obj_active r \<and> obj_bucket_id r = 1
          \<and> child_folder [] (original_filename r) = Some f}"
proof -
  have "2 * length (objects demo_db) < USIZE_MAX" by (simp add: USIZE_MAX_def demo_db_def)
  moreover have "\<forall>r \<in> set (objects demo_db). utf8_slash (original_filename r)"
    by (auto simp: demo_db_def demo_object_def utf8_slash_def is_cont_def less_Suc_eq nth_Cons')
  ultimately show ?thesis
    using list_level_complete [of demo_db ascii_lower "[]" 1] by blast
qed

end
