(* ===== verification/Rbac.thy ===== *)
theory Rbac
  imports Listing
begin

text \<open>
  Accounts, roles, permissions, sessions, buckets and settings: \<open>src/db/rbac.rs\<close>. Argon2 and the
  random generator are not code of the server: hashing and verification are the parameters
  \<open>argon\<close>, \<open>phc\<close> and \<open>argon_verify\<close>, and a function that draws random bytes takes them as an
  argument. Deleting a row follows the foreign keys of \<open>migrations/\<close>: cascades, \<open>SET NULL\<close>, and
  the references that forbid the deletion.
\<close>

section \<open>Secrets\<close>

definition hex_digit :: "nat \<Rightarrow> char" where
  "hex_digit n = (if n < 10 then byte (48 + n) else byte (87 + n))"

definition hex_encode :: "string \<Rightarrow> string" where
  "hex_encode bs = concat (map (\<lambda>b. [hex_digit (of_char b div 16), hex_digit (of_char b mod 16)]) bs)"

definition hash_password :: "(string \<Rightarrow> string \<Rightarrow> string + string) \<Rightarrow> string \<Rightarrow> string \<Rightarrow> string res" where
  "hash_password argon salt password =
     (case argon salt password of
        Inl e \<Rightarrow> Inl (Bail (''hash password: '' @ e))
      | Inr h \<Rightarrow> Inr h)"

definition verify_password ::
  "(string \<Rightarrow> string + 'h) \<Rightarrow> (string \<Rightarrow> 'h \<Rightarrow> bool) \<Rightarrow> string \<Rightarrow> string \<Rightarrow> bool res" where
  "verify_password phc argon_verify password hash =
     (case phc hash of
        Inl e \<Rightarrow> Inl (Bail (''parse password hash: '' @ e))
      | Inr parsed \<Rightarrow> Inr (argon_verify password parsed))"

text \<open>\<open>random_hex\<close> of the bytes drawn; 16 and 32 of them for credentials, 32 for a session.\<close>

definition random_hex :: "string \<Rightarrow> string" where
  "random_hex buf = hex_encode buf"

definition generate_credentials :: "string \<Rightarrow> string \<Rightarrow> string \<times> string" where
  "generate_credentials r16 r32 = (random_hex r16, random_hex r32)"

definition generate_session_token :: "string \<Rightarrow> string" where
  "generate_session_token r32 = random_hex r32"

section \<open>Accounts\<close>

definition account_count :: "db \<Rightarrow> int" where
  "account_count d = count_where (\<lambda>_. True) (accounts d)"

definition get_account_by_id :: "int \<Rightarrow> db \<Rightarrow> account_record option" where
  "get_account_by_id i d = row_by account_id i (accounts d)"

definition get_account_by_username :: "string \<Rightarrow> db \<Rightarrow> account_record option" where
  "get_account_by_username u d = row_by username_hex u (accounts d)"

definition list_accounts :: "db \<Rightarrow> account_record list" where
  "list_accounts d = sort_key account_created_utc (accounts d)"

definition create_account ::
  "(string \<Rightarrow> string \<Rightarrow> string + string) \<Rightarrow> string \<Rightarrow> string \<Rightarrow> string \<Rightarrow> string \<Rightarrow> int option \<Rightarrow>
     time \<Rightarrow> db \<Rightarrow> account_record res \<times> db" where
  "create_account argon salt username password dname created_by now d =
     (case hash_password argon salt password of
        Inl e \<Rightarrow> (Inl e, d)
      | Inr h \<Rightarrow>
          if username \<in> username_hex ` set (accounts d)
          then (Inl (Unique ''account.username_hex''), d)
          else if (case created_by of None \<Rightarrow> False | Some c \<Rightarrow> c \<notin> account_id ` set (accounts d))
          then (Inl ForeignKey, d)
          else
            let i = next_account_id d;
                d' = accounts_update (\<lambda>rows. rows @ [\<lparr>account_id = i, username_hex = username,
                       password_hash = h, display_name = dname, is_disabled = False,
                       account_created_utc = now, account_updated_utc = now,
                       created_by_account_id = created_by\<rparr>])
                     (next_account_id_update (\<lambda>n. n + 1) d)
            in (case get_account_by_id i d' of
                  None \<Rightarrow> (Inl (Bail ''account missing after insert''), d')
                | Some a \<Rightarrow> (Inr a, d')))"

definition account_created_by :: "int \<Rightarrow> int \<Rightarrow> db \<Rightarrow> bool" where
  "account_created_by aid actor d =
     (Option.bind (get_account_by_id aid d) created_by_account_id = Some actor)"

text \<open>An \<open>UPDATE ... WHERE id\<close> that must hit a row.\<close>

definition update_account :: "(account_record \<Rightarrow> account_record) \<Rightarrow> int \<Rightarrow> db \<Rightarrow> unit res \<times> db" where
  "update_account f i d =
     (if count_where (\<lambda>a. account_id a = i) (accounts d) = 0 then (Inl (Bail ''account not found''), d)
      else (Inr (), accounts_update (update_where (\<lambda>a. account_id a = i) f) d))"

definition set_account_disabled :: "int \<Rightarrow> bool \<Rightarrow> time \<Rightarrow> db \<Rightarrow> unit res \<times> db" where
  "set_account_disabled i dis now =
     update_account (\<lambda>a. a\<lparr>is_disabled := dis, account_updated_utc := now\<rparr>) i"

definition update_account_display_name :: "int \<Rightarrow> string \<Rightarrow> time \<Rightarrow> db \<Rightarrow> unit res \<times> db" where
  "update_account_display_name i dname now =
     update_account (\<lambda>a. a\<lparr>display_name := dname, account_updated_utc := now\<rparr>) i"

definition set_account_password ::
  "(string \<Rightarrow> string \<Rightarrow> string + string) \<Rightarrow> string \<Rightarrow> int \<Rightarrow> string \<Rightarrow> time \<Rightarrow> db \<Rightarrow> unit res \<times> db" where
  "set_account_password argon salt i password now d =
     (case hash_password argon salt password of
        Inl e \<Rightarrow> (Inl e, d)
      | Inr h \<Rightarrow> update_account (\<lambda>a. a\<lparr>password_hash := h, account_updated_utc := now\<rparr>) i d)"

text \<open>
  Deleting an account: refused while a share it created or may use exists; its sessions and role
  assignments go with it, buckets it owned and accounts it created lose the reference.
\<close>

definition delete_account :: "int \<Rightarrow> db \<Rightarrow> bool res \<times> db" where
  "delete_account i d =
     (if count_where (\<lambda>a. account_id a = i) (accounts d) = 0 then (Inr False, d)
      else if (\<exists>s \<in> set (share_links d). share_created_by s = i) \<or> i \<in> snd ` set (share_users d)
      then (Inl ForeignKey, d)
      else (Inr True,
        d\<lparr>accounts := update_where (\<lambda>a. created_by_account_id a = Some i)
                        (\<lambda>a. a\<lparr>created_by_account_id := None\<rparr>)
                        (delete_where (\<lambda>a. account_id a = i) (accounts d)),
          account_roles := delete_where (\<lambda>(a, r). a = i) (account_roles d),
          sessions := delete_where (\<lambda>s. session_account_id s = i) (sessions d),
          buckets := update_where (\<lambda>b. owner_account_id b = Some i)
                       (\<lambda>b. b\<lparr>owner_account_id := None\<rparr>) (buckets d)\<rparr>))"

section \<open>Roles\<close>

definition list_roles :: "db \<Rightarrow> role_record list" where
  "list_roles d = sort_key (\<lambda>r. - position r) (sort_key role_id (roles d))"

definition get_role :: "int \<Rightarrow> db \<Rightarrow> role_record option" where
  "get_role i d = row_by role_id i (roles d)"

definition get_owner_role :: "db \<Rightarrow> role_record option" where
  "get_owner_role d = select_one is_owner (sort_key role_id (roles d))"

definition create_role :: "string \<Rightarrow> int \<Rightarrow> db \<Rightarrow> role_record res \<times> db" where
  "create_role name pos d =
     (if name \<in> role_name ` set (roles d) then (Inl (Unique ''role.name''), d)
      else
        let i = next_role_id d;
            d' = roles_update (\<lambda>rows. rows @ [\<lparr>role_id = i, role_name = name, position = pos, is_owner = False\<rparr>])
                   (next_role_id_update (\<lambda>n. n + 1) d)
        in (case get_role i d' of
              None \<Rightarrow> (Inl (Bail ''role missing after insert''), d')
            | Some r \<Rightarrow> (Inr r, d')))"

definition update_role :: "int \<Rightarrow> string option \<Rightarrow> int option \<Rightarrow> db \<Rightarrow> unit res \<times> db" where
  "update_role i name pos d =
     (case get_role i d of
        None \<Rightarrow> (Inl (Bail ''role not found''), d)
      | Some r \<Rightarrow>
          let name' = (case name of Some n \<Rightarrow> n | None \<Rightarrow> role_name r);
              pos' = (case pos of Some p \<Rightarrow> p | None \<Rightarrow> position r) in
          if \<exists>x \<in> set (roles d). role_name x = name' \<and> role_id x \<noteq> i then (Inl (Unique ''role.name''), d)
          else (Inr (), roles_update (update_where (\<lambda>x. role_id x = i)
                 (\<lambda>x. x\<lparr>role_name := name', position := pos'\<rparr>)) d))"

definition delete_role :: "int \<Rightarrow> db \<Rightarrow> unit res \<times> db" where
  "delete_role i d =
     (case get_role i d of
        None \<Rightarrow> (Inl (Bail ''role not found''), d)
      | Some r \<Rightarrow>
          if is_owner r then (Inl (Bail ''cannot delete Owner role''), d)
          else (Inr (), d\<lparr>roles := delete_where (\<lambda>x. role_id x = i) (roles d),
                  account_roles := delete_where (\<lambda>(a, x). x = i) (account_roles d),
                  role_perms := delete_where (\<lambda>p. rbp_role_id p = i) (role_perms d)\<rparr>))"

definition list_account_role_ids :: "int \<Rightarrow> db \<Rightarrow> int list" where
  "list_account_role_ids a d = map snd (select_where (\<lambda>(x, r). x = a) (account_roles d))"

text \<open>\<open>INSERT INTO account_role\<close> with its primary key and foreign keys.\<close>

definition insert_account_role :: "int \<Rightarrow> int \<Rightarrow> db \<Rightarrow> unit res \<times> db" where
  "insert_account_role a r d =
     (if (a, r) \<in> set (account_roles d)
      then (Inl (Unique ''account_role.account_id, account_role.role_id''), d)
      else if a \<notin> account_id ` set (accounts d) \<or> r \<notin> role_id ` set (roles d) then (Inl ForeignKey, d)
      else (Inr (), account_roles_update (\<lambda>rows. rows @ [(a, r)]) d))"

fun insert_account_roles :: "int \<Rightarrow> int list \<Rightarrow> db \<Rightarrow> unit res \<times> db" where
  "insert_account_roles a [] d = (Inr (), d)"
| "insert_account_roles a (r # rs) d =
     (case insert_account_role a r d of
        (Inl e, d') \<Rightarrow> (Inl e, d')
      | (Inr _, d') \<Rightarrow> insert_account_roles a rs d')"

definition set_account_roles :: "int \<Rightarrow> int list \<Rightarrow> db \<Rightarrow> unit res \<times> db" where
  "set_account_roles a rs d =
     (case insert_account_roles a rs (account_roles_update (delete_where (\<lambda>(x, r). x = a)) d) of
        (Inl e, _) \<Rightarrow> (Inl e, d)
      | (Inr _, d') \<Rightarrow> (Inr (), d'))"

definition assign_role :: "int \<Rightarrow> int \<Rightarrow> db \<Rightarrow> unit res \<times> db" where
  "assign_role a r d =
     (if (a, r) \<in> set (account_roles d) then (Inr (), d) else insert_account_role a r d)"

section \<open>Permissions\<close>

definition list_role_permissions :: "int \<Rightarrow> db \<Rightarrow> role_bucket_permission list" where
  "list_role_permissions r d = select_where (\<lambda>p. rbp_role_id p = r) (role_perms d)"

definition list_all_permissions :: "db \<Rightarrow> role_bucket_permission list" where
  "list_all_permissions d = sort_key rbp_role_id (sort_key rbp_bucket_id (role_perms d))"

definition insert_role_permission :: "int \<Rightarrow> int \<Rightarrow> crud_perms \<Rightarrow> db \<Rightarrow> unit res \<times> db" where
  "insert_role_permission r b p d =
     (if \<exists>x \<in> set (role_perms d). rbp_role_id x = r \<and> rbp_bucket_id x = b
      then (Inl (Unique ''role_bucket_permission.role_id, role_bucket_permission.bucket_id''), d)
      else if r \<notin> role_id ` set (roles d) \<or> b \<notin> bucket_id ` set (buckets d) then (Inl ForeignKey, d)
      else (Inr (), role_perms_update (\<lambda>rows. rows @ [\<lparr>rbp_role_id = r, rbp_bucket_id = b, rbp_perms = p\<rparr>]) d))"

definition upsert_role_permission :: "int \<Rightarrow> int \<Rightarrow> crud_perms \<Rightarrow> db \<Rightarrow> unit res \<times> db" where
  "upsert_role_permission r b p d =
     (if \<exists>x \<in> set (role_perms d). rbp_role_id x = r \<and> rbp_bucket_id x = b
      then (Inr (), role_perms_update (update_where (\<lambda>x. rbp_role_id x = r \<and> rbp_bucket_id x = b)
             (\<lambda>x. x\<lparr>rbp_perms := p\<rparr>)) d)
      else insert_role_permission r b p d)"

fun insert_role_permissions :: "int \<Rightarrow> (int \<times> crud_perms) list \<Rightarrow> db \<Rightarrow> unit res \<times> db" where
  "insert_role_permissions r [] d = (Inr (), d)"
| "insert_role_permissions r ((b, p) # ps) d =
     (case insert_role_permission r b p d of
        (Inl e, d') \<Rightarrow> (Inl e, d')
      | (Inr _, d') \<Rightarrow> insert_role_permissions r ps d')"

definition replace_role_permissions :: "int \<Rightarrow> (int \<times> crud_perms) list \<Rightarrow> db \<Rightarrow> unit res \<times> db" where
  "replace_role_permissions r ps d =
     (case insert_role_permissions r ps (role_perms_update (delete_where (\<lambda>x. rbp_role_id x = r)) d) of
        (Inl e, _) \<Rightarrow> (Inl e, d)
      | (Inr _, d') \<Rightarrow> (Inr (), d'))"

text \<open>A count over the join of \<open>account_role\<close> with the owner roles.\<close>

definition account_is_owner :: "int \<Rightarrow> db \<Rightarrow> bool" where
  "account_is_owner a d \<longleftrightarrow>
     count_where (\<lambda>(x, r). x = a \<and> (case get_role r d of Some ro \<Rightarrow> is_owner ro | None \<Rightarrow> False))
       (account_roles d) > 0"

definition get_bucket_by_id :: "int \<Rightarrow> db \<Rightarrow> bucket_record option" where
  "get_bucket_by_id i d = row_by bucket_id i (buckets d)"

definition get_bucket_by_name :: "string \<Rightarrow> db \<Rightarrow> bucket_record option" where
  "get_bucket_by_name n d = row_by bucket_name n (buckets d)"

definition account_owns_bucket :: "int \<Rightarrow> int \<Rightarrow> db \<Rightarrow> bool" where
  "account_owns_bucket a b d \<longleftrightarrow> Option.bind (get_bucket_by_id b d) owner_account_id = Some a"

definition effective_perms :: "int \<Rightarrow> int \<Rightarrow> db \<Rightarrow> crud_perms" where
  "effective_perms a b d =
     (if account_owns_bucket a b d then perms_FULL
      else if account_is_owner a d then perms_FULL
      else foldl (\<lambda>acc r. perms_or acc (rbp_perms r)) perms_NONE
             (concat (map (\<lambda>p. map (\<lambda>_. p) (select_where (\<lambda>(x, r). x = a \<and> r = rbp_role_id p) (account_roles d)))
                (select_where (\<lambda>p. rbp_bucket_id p = b) (role_perms d)))))"

definition check_perm :: "int \<Rightarrow> int \<Rightarrow> crud_action \<Rightarrow> db \<Rightarrow> bool" where
  "check_perm a b act d = perms_allow (effective_perms a b d) act"

definition can_edit_bucket_replication :: "int \<Rightarrow> int \<Rightarrow> db \<Rightarrow> bool" where
  "can_edit_bucket_replication a b d =
     (if account_owns_bucket a b d then True else check_perm a b Update d)"

section \<open>Sessions\<close>

definition create_session :: "string \<Rightarrow> int \<Rightarrow> time \<Rightarrow> time \<Rightarrow> db \<Rightarrow> (string \<times> time) res \<times> db" where
  "create_session r32 a ttl now d =
     (let tok = generate_session_token r32; expires = now + ttl in
      if tok \<in> token ` set (sessions d) then (Inl (Unique ''session.token''), d)
      else if a \<notin> account_id ` set (accounts d) then (Inl ForeignKey, d)
      else (Inr (tok, expires), sessions_update (\<lambda>rows. rows @
             [\<lparr>token = tok, session_account_id = a, expires_utc = expires\<rparr>]) d))"

definition delete_session :: "string \<Rightarrow> db \<Rightarrow> db" where
  "delete_session tok d = sessions_update (delete_where (\<lambda>s. token s = tok)) d"

definition delete_sessions_for_account :: "int \<Rightarrow> db \<Rightarrow> db" where
  "delete_sessions_for_account a d = sessions_update (delete_where (\<lambda>s. session_account_id s = a)) d"

definition resolve_session :: "string \<Rightarrow> time \<Rightarrow> db \<Rightarrow> account_record option \<times> db" where
  "resolve_session tok now d =
     (case row_by token tok (sessions d) of
        None \<Rightarrow> (None, d)
      | Some s \<Rightarrow>
          if expires_utc s < now then (None, delete_session tok d)
          else (case get_account_by_id (session_account_id s) d of
                  Some a \<Rightarrow> if is_disabled a then (None, delete_session tok d) else (Some a, d)
                | None \<Rightarrow> (None, d)))"

section \<open>Buckets\<close>

definition list_buckets :: "db \<Rightarrow> bucket_record list" where
  "list_buckets d = sort_key bucket_name (buckets d)"

text \<open>\<open>INSERT INTO bucket\<close>: the columns not given take their defaults.\<close>

definition insert_bucket :: "string \<Rightarrow> int option \<Rightarrow> etag_type \<Rightarrow> time \<Rightarrow> db \<Rightarrow> int res \<times> db" where
  "insert_bucket name owner etype now d =
     (if name \<in> bucket_name ` set (buckets d) then (Inl (Unique ''bucket.name''), d)
      else if (case owner of None \<Rightarrow> False | Some a \<Rightarrow> a \<notin> account_id ` set (accounts d))
      then (Inl ForeignKey, d)
      else (Inr (next_bucket_id d),
        buckets_update (\<lambda>rows. rows @ [\<lparr>bucket_id = next_bucket_id d, bucket_name = name,
          bucket_created_utc = now, owner_account_id = owner, replicate_to_all = True,
          bucket_etag_type = etype, etag_rehash_status = None, etag_rehash_processed = 0,
          etag_rehash_total = 0, etag_rehash_error = None\<rparr>])
        (next_bucket_id_update (\<lambda>n. n + 1) d)))"

definition grant_owner_role :: "int \<Rightarrow> db \<Rightarrow> unit res \<times> db" where
  "grant_owner_role b d =
     (case get_owner_role d of
        None \<Rightarrow> (Inr (), d)
      | Some r \<Rightarrow> upsert_role_permission (role_id r) b perms_FULL d)"

definition create_bucket :: "string \<Rightarrow> int \<Rightarrow> etag_type \<Rightarrow> time \<Rightarrow> db \<Rightarrow> bucket_record res \<times> db" where
  "create_bucket name owner etype now d =
     (case insert_bucket name (Some owner) etype now d of
        (Inl e, d1) \<Rightarrow> (Inl e, d1)
      | (Inr i, d1) \<Rightarrow>
          (case grant_owner_role i d1 of
             (Inl e, d2) \<Rightarrow> (Inl e, d2)
           | (Inr _, d2) \<Rightarrow>
               (case get_bucket_by_id i d2 of
                  None \<Rightarrow> (Inl (Bail ''bucket missing after insert''), d2)
                | Some b \<Rightarrow> (Inr b, d2))))"

definition ensure_bucket :: "string \<Rightarrow> time \<Rightarrow> db \<Rightarrow> int res \<times> db" where
  "ensure_bucket name now d =
     (case get_bucket_by_name name d of
        Some b \<Rightarrow> (Inr (bucket_id b), d)
      | None \<Rightarrow>
          (case insert_bucket name None Md5 now d of
             (Inl e, d1) \<Rightarrow> (Inl e, d1)
           | (Inr i, d1) \<Rightarrow>
               (case grant_owner_role i d1 of
                  (Inl e, d2) \<Rightarrow> (Inl e, d2)
                | (Inr _, d2) \<Rightarrow> (Inr i, d2))))"

definition claim_unowned_buckets :: "int \<Rightarrow> db \<Rightarrow> int res \<times> db" where
  "claim_unowned_buckets a d =
     (let n = count_where (\<lambda>b. owner_account_id b = None) (buckets d) in
      if n > 0 \<and> a \<notin> account_id ` set (accounts d) then (Inl ForeignKey, d)
      else (Inr n, buckets_update (update_where (\<lambda>b. owner_account_id b = None)
             (\<lambda>b. b\<lparr>owner_account_id := Some a\<rparr>)) d))"

definition rename_bucket :: "int \<Rightarrow> string \<Rightarrow> db \<Rightarrow> bucket_record res \<times> db" where
  "rename_bucket i new_name d =
     (case get_bucket_by_id i d of
        None \<Rightarrow> (Inl (Bail ''bucket not found''), d)
      | Some b \<Rightarrow>
          if bucket_name b = ''storage'' then (Inl (Bail ''cannot rename default storage bucket''), d)
          else if new_name = ''storage'' then (Inl (Bail ''cannot use reserved bucket name storage''), d)
          else if new_name = bucket_name b then (Inr b, d)
          else if \<exists>x \<in> set (buckets d). bucket_name x = new_name \<and> bucket_id x \<noteq> i
          then (Inl (Unique ''bucket.name''), d)
          else
            let d' = buckets_update (update_where (\<lambda>x. bucket_id x = i) (\<lambda>x. x\<lparr>bucket_name := new_name\<rparr>)) d
            in (case get_bucket_by_id i d' of
                  None \<Rightarrow> (Inl (Bail ''bucket missing after rename''), d')
                | Some b' \<Rightarrow> (Inr b', d')))"

definition set_bucket_owner :: "int \<Rightarrow> int \<Rightarrow> db \<Rightarrow> bucket_record res \<times> db" where
  "set_bucket_owner i new_owner d =
     (case get_bucket_by_id i d of
        None \<Rightarrow> (Inl (Bail ''bucket not found''), d)
      | Some _ \<Rightarrow>
          (case get_account_by_id new_owner d of
             None \<Rightarrow> (Inl (Bail ''account not found''), d)
           | Some a \<Rightarrow>
               if is_disabled a then (Inl (Bail ''cannot transfer ownership to a disabled account''), d)
               else
                 let d' = buckets_update (update_where (\<lambda>x. bucket_id x = i)
                            (\<lambda>x. x\<lparr>owner_account_id := Some new_owner\<rparr>)) d
                 in (case get_bucket_by_id i d' of
                       None \<Rightarrow> (Inl (Bail ''bucket missing after ownership transfer''), d')
                     | Some b' \<Rightarrow> (Inr b', d'))))"

text \<open>SQL \<open>TRIM\<close> strips spaces only.\<close>

definition sql_trim :: "string \<Rightarrow> string" where
  "sql_trim s = trim_end_char (CHR '' '') (trim_start_char (CHR '' '') s)"

definition list_account_directory :: "db \<Rightarrow> (int \<times> string) list" where
  "list_account_directory d =
     sort_key snd (sort_key fst
       (map (\<lambda>a. (account_id a, if sql_trim (display_name a) = [] then username_hex a
                                else sql_trim (display_name a)))
         (select_where (\<lambda>a. \<not> is_disabled a) (accounts d))))"

definition delete_bucket :: "int \<Rightarrow> db \<Rightarrow> unit res \<times> db" where
  "delete_bucket i d =
     (case get_bucket_by_id i d of
        None \<Rightarrow> (Inl (Bail ''bucket not found''), d)
      | Some b \<Rightarrow>
          if bucket_name b = ''storage'' then (Inl (Bail ''cannot delete default storage bucket''), d)
          else if count_where (\<lambda>r. obj_bucket_id r = i) (objects d) > 0
          then (Inl (Bail ''bucket still contains objects''), d)
          else if \<exists>s \<in> set (share_links d). share_bucket_id s = i then (Inl ForeignKey, d)
          else (Inr (), d\<lparr>buckets := delete_where (\<lambda>x. bucket_id x = i) (buckets d),
                  role_perms := delete_where (\<lambda>p. rbp_bucket_id p = i) (role_perms d),
                  repl_peers := delete_where (\<lambda>n. bna_bucket_id n = i) (repl_peers d)\<rparr>))"

section \<open>Settings\<close>

definition get_settings :: "db \<Rightarrow> app_settings res" where
  "get_settings d = (case settings d of None \<Rightarrow> Inl (Bail ''app_settings missing'') | Some s \<Rightarrow> Inr s)"

definition set_recycle_retention :: "int \<Rightarrow> retention_unit \<Rightarrow> db \<Rightarrow> app_settings res \<times> db" where
  "set_recycle_retention v u d =
     (if v < 0 then (Inl (Bail ''retention value must be >= 0''), d)
      else
        let d' = settings_update (map_option
                   (\<lambda>s. s\<lparr>recycle_retention_value := v, recycle_retention_unit := u\<rparr>)) d
        in (get_settings d', d'))"

end
