(* ===== verification/Nodes.thy ===== *)
theory Nodes
  imports Rbac
begin

text \<open>
  Cluster peers, the nodes a bucket is replicated to with their quotas, and a bucket's hash
  algorithm with the progress of its rehash: the functions of \<open>src/db/repository.rs\<close> on the tables
  \<open>cluster_peer\<close>, \<open>bucket_replication_peer\<close> and \<open>bucket\<close>, and \<open>src/cluster/peer_manager.rs\<close>.
\<close>

definition DEFAULT_NODE_ALLOCATED_BYTES :: int where
  "DEFAULT_NODE_ALLOCATED_BYTES = 100 * 1024 * 1024 * 1024"

section \<open>Peers\<close>

definition upsert_peer :: "string \<Rightarrow> string \<Rightarrow> db \<Rightarrow> db" where
  "upsert_peer i endpoint d =
     (if i \<in> peer_id ` set (peers d)
      then peers_update (update_where (\<lambda>p. peer_id p = i)
             (\<lambda>p. p\<lparr>wireguard_endpoint := endpoint, is_active := True\<rparr>)) d
      else peers_update (\<lambda>rows. rows @ [\<lparr>peer_id = i, wireguard_endpoint = endpoint,
             is_active = True, last_heartbeat_utc = None\<rparr>]) d)"

definition list_active_peers :: "db \<Rightarrow> cluster_peer list" where
  "list_active_peers d = select_where is_active (peers d)"

definition update_peer_heartbeat :: "string \<Rightarrow> time \<Rightarrow> db \<Rightarrow> db" where
  "update_peer_heartbeat i t d =
     peers_update (update_where (\<lambda>p. peer_id p = i) (\<lambda>p. p\<lparr>last_heartbeat_utc := Some t\<rparr>)) d"

definition active_peer :: "string \<Rightarrow> db \<Rightarrow> bool" where
  "active_peer i d \<longleftrightarrow> select_one (\<lambda>p. peer_id p = i \<and> is_active p) (peers d) \<noteq> None"

section \<open>Replication targets\<close>

definition node_row :: "int \<Rightarrow> string \<Rightarrow> db \<Rightarrow> bucket_node_assignment option" where
  "node_row b p d = row_by (\<lambda>n. (bna_bucket_id n, bna_peer_id n)) (b, p) (repl_peers d)"

definition peer_should_receive_bucket :: "string \<Rightarrow> int \<Rightarrow> db \<Rightarrow> bool" where
  "peer_should_receive_bucket p b d \<longleftrightarrow>
     select_one (\<lambda>x. bucket_id x = b \<and> (replicate_to_all x \<or> node_row b p d \<noteq> None)) (buckets d) \<noteq> None"

definition nodes_of_bucket :: "int \<Rightarrow> db \<Rightarrow> bucket_node_assignment list" where
  "nodes_of_bucket b d =
     sort_key bna_peer_id (select_where (\<lambda>n. bna_bucket_id n = b) (repl_peers d))"

definition get_bucket_replication :: "int \<Rightarrow> db \<Rightarrow> (bool \<times> string list) res" where
  "get_bucket_replication b d =
     (case get_bucket_by_id b d of
        None \<Rightarrow> Inl (Bail ''bucket not found'')
      | Some x \<Rightarrow> Inr (replicate_to_all x, map bna_peer_id (nodes_of_bucket b d)))"

text \<open>\<open>INSERT OR IGNORE\<close> of the targets; unknown and inactive peers are skipped.\<close>

fun insert_targets :: "int \<Rightarrow> string list \<Rightarrow> db \<Rightarrow> db" where
  "insert_targets b [] d = d"
| "insert_targets b (p # ps) d =
     (if \<not> active_peer p d then insert_targets b ps d
      else if node_row b p d \<noteq> None then insert_targets b ps d
      else insert_targets b ps (repl_peers_update (\<lambda>rows. rows @
             [\<lparr>bna_bucket_id = b, bna_peer_id = p, allocated_bytes = DEFAULT_NODE_ALLOCATED_BYTES,
               quota_mode = Soft\<rparr>]) d))"

definition set_bucket_replication :: "int \<Rightarrow> bool \<Rightarrow> string list \<Rightarrow> db \<Rightarrow> unit res \<times> db" where
  "set_bucket_replication b all ps d =
     (if count_where (\<lambda>x. bucket_id x = b) (buckets d) = 0 then (Inl (Bail ''bucket not found''), d)
      else
        let d1 = buckets_update (update_where (\<lambda>x. bucket_id x = b) (\<lambda>x. x\<lparr>replicate_to_all := all\<rparr>)) d;
            d2 = repl_peers_update (delete_where (\<lambda>n. bna_bucket_id n = b)) d1
        in (Inr (), if \<not> all then insert_targets b ps d2 else d2))"

definition list_bucket_ids :: "db \<Rightarrow> int list" where
  "list_bucket_ids d = sort (map bucket_id (buckets d))"

definition list_bucket_node_assignments :: "int \<Rightarrow> db \<Rightarrow> bucket_node_assignment list" where
  "list_bucket_node_assignments b d = nodes_of_bucket b d"

definition insert_node :: "int \<Rightarrow> string \<Rightarrow> int \<Rightarrow> quota_mode \<Rightarrow> db \<Rightarrow> unit res \<times> db" where
  "insert_node b p bytes mode d =
     (if b \<notin> bucket_id ` set (buckets d) \<or> p \<notin> peer_id ` set (peers d) then (Inl ForeignKey, d)
      else (Inr (), repl_peers_update (\<lambda>rows. rows @ [\<lparr>bna_bucket_id = b, bna_peer_id = p,
              allocated_bytes = bytes, quota_mode = mode\<rparr>]) d))"

definition ensure_bucket_node_assignment :: "int \<Rightarrow> string \<Rightarrow> int \<Rightarrow> quota_mode \<Rightarrow> db \<Rightarrow> unit res \<times> db" where
  "ensure_bucket_node_assignment b p bytes mode d =
     (if node_row b p d \<noteq> None then (Inr (), d) else insert_node b p bytes mode d)"

definition clear_replicate_to_all :: "int \<Rightarrow> db \<Rightarrow> db" where
  "clear_replicate_to_all b d =
     buckets_update (update_where (\<lambda>x. bucket_id x = b) (\<lambda>x. x\<lparr>replicate_to_all := False\<rparr>)) d"

definition update_node :: "int \<Rightarrow> string \<Rightarrow> int \<Rightarrow> quota_mode \<Rightarrow> db \<Rightarrow> db" where
  "update_node b p bytes mode d =
     repl_peers_update (update_where (\<lambda>n. bna_bucket_id n = b \<and> bna_peer_id n = p)
       (\<lambda>n. n\<lparr>allocated_bytes := bytes, quota_mode := mode\<rparr>)) d"

definition assign_bucket_node :: "int \<Rightarrow> string \<Rightarrow> int \<Rightarrow> quota_mode \<Rightarrow> db \<Rightarrow> unit res \<times> db" where
  "assign_bucket_node b p bytes mode d =
     (if bytes \<le> 0 then (Inl (Bail ''allocated_bytes must be positive''), d)
      else if \<not> active_peer p d then (Inl (Bail ''peer not found or inactive''), d)
      else
        let d1 = clear_replicate_to_all b d in
        if node_row b p d1 \<noteq> None then (Inr (), update_node b p bytes mode d1)
        else (case insert_node b p bytes mode d1 of
                (Inl e, _) \<Rightarrow> (Inl e, d)
              | (Inr _, d2) \<Rightarrow> (Inr (), d2)))"

definition update_bucket_node :: "int \<Rightarrow> string \<Rightarrow> int option \<Rightarrow> quota_mode option \<Rightarrow> db \<Rightarrow> unit res \<times> db" where
  "update_bucket_node b p bytes mode d =
     (if bytes = None \<and> mode = None then (Inl (Bail ''no fields to update''), d)
      else if (case bytes of Some n \<Rightarrow> n \<le> 0 | None \<Rightarrow> False)
      then (Inl (Bail ''allocated_bytes must be positive''), d)
      else (case node_row b p d of
              None \<Rightarrow> (Inl (Bail ''node assignment not found''), d)
            | Some row \<Rightarrow>
                let n = (case bytes of Some n \<Rightarrow> n | None \<Rightarrow> allocated_bytes row);
                    m = (case mode of Some m \<Rightarrow> m | None \<Rightarrow> quota_mode row)
                in (Inr (), update_node b p n m (clear_replicate_to_all b d))))"

definition remove_bucket_node :: "int \<Rightarrow> string \<Rightarrow> string \<Rightarrow> db \<Rightarrow> unit res \<times> db" where
  "remove_bucket_node b p local_node d =
     (if p = local_node then (Inl (Bail ''cannot remove the local node''), d)
      else if count_where (\<lambda>n. bna_bucket_id n = b) (repl_peers d) \<le> 1
      then (Inl (Bail ''cannot remove the last node''), d)
      else if count_where (\<lambda>n. bna_bucket_id n = b \<and> bna_peer_id n = p) (repl_peers d) = 0
      then (Inl (Bail ''node assignment not found''), d)
      else (Inr (), clear_replicate_to_all b
             (repl_peers_update (delete_where (\<lambda>n. bna_bucket_id n = b \<and> bna_peer_id n = p)) d)))"

section \<open>Quotas\<close>

definition quota_exceeded_msg :: "bucket_node_assignment \<Rightarrow> int \<Rightarrow> int \<Rightarrow> string" where
  "quota_exceeded_msg row used growth =
     ''quota exceeded on node '' @ bna_peer_id row @ '' (used '' @ show_int used @ '' + ''
       @ show_int growth @ '' > allocated '' @ show_int (allocated_bytes row) @ '')''"

fun check_rows :: "int \<Rightarrow> int \<Rightarrow> int \<Rightarrow> bucket_node_assignment list \<Rightarrow> unit res" where
  "check_rows projected used growth [] = Inr ()"
| "check_rows projected used growth (row # rows) =
     (if projected > allocated_bytes row then Inl (Bail (quota_exceeded_msg row used growth))
      else check_rows projected used growth rows)"

definition check_hard_quota :: "int \<Rightarrow> int \<Rightarrow> db \<Rightarrow> unit res" where
  "check_hard_quota b growth d =
     (if growth \<le> 0 then Inr ()
      else
        let used = bucket_used_bytes b d;
            projected = saturating_add used growth
        in check_rows projected used growth
             (select_where (\<lambda>n. bna_bucket_id n = b \<and> quota_mode n = Hard) (repl_peers d)))"

section \<open>Peer bootstrap (\<open>peer_manager.rs\<close>)\<close>

definition seed_peers_from_config :: "(string \<times> string) list \<Rightarrow> db \<Rightarrow> db" where
  "seed_peers_from_config cluster_peers d = foldl (\<lambda>d (i, ep). upsert_peer i ep d) d cluster_peers"

fun ensure_assignments :: "int list \<Rightarrow> string \<Rightarrow> db \<Rightarrow> unit res \<times> db" where
  "ensure_assignments [] p d = (Inr (), d)"
| "ensure_assignments (b # bs) p d =
     (case ensure_bucket_node_assignment b p DEFAULT_NODE_ALLOCATED_BYTES Soft d of
        (Inl e, d') \<Rightarrow> (Inl e, d')
      | (Inr _, d') \<Rightarrow> ensure_assignments bs p d')"

definition ensure_local_node :: "string \<Rightarrow> string \<Rightarrow> db \<Rightarrow> unit res \<times> db" where
  "ensure_local_node node grpc_addr d =
     (let d1 = upsert_peer node grpc_addr d in ensure_assignments (list_bucket_ids d1) node d1)"

definition note_heartbeat :: "string \<Rightarrow> time \<Rightarrow> db \<Rightarrow> db" where
  "note_heartbeat i now d = update_peer_heartbeat i now d"

section \<open>A bucket's hash algorithm\<close>

definition default_bucket_id :: "db \<Rightarrow> int res" where
  "default_bucket_id d =
     (case get_bucket_by_name ''storage'' d of
        None \<Rightarrow> Inl (Bail ''default storage bucket missing'')
      | Some b \<Rightarrow> Inr (bucket_id b))"

definition bucket_etag_type_of :: "int \<Rightarrow> db \<Rightarrow> etag_type res" where
  "bucket_etag_type_of b d =
     (case get_bucket_by_id b d of
        None \<Rightarrow> Inl (Bail ''bucket not found'')
      | Some x \<Rightarrow> Inr (bucket_etag_type x))"

definition update_bucket :: "(bucket_record \<Rightarrow> bucket_record) \<Rightarrow> int \<Rightarrow> db \<Rightarrow> db" where
  "update_bucket f b d = buckets_update (update_where (\<lambda>x. bucket_id x = b) f) d"

definition set_bucket_etag_type :: "int \<Rightarrow> etag_type \<Rightarrow> db \<Rightarrow> unit res \<times> db" where
  "set_bucket_etag_type b etype d =
     (if count_where (\<lambda>x. bucket_id x = b) (buckets d) = 0 then (Inl (Bail ''bucket not found''), d)
      else (Inr (), update_bucket (\<lambda>x. x\<lparr>bucket_etag_type := etype\<rparr>) b d))"

definition begin_bucket_etag_rehash :: "int \<Rightarrow> int \<Rightarrow> db \<Rightarrow> unit res \<times> db" where
  "begin_bucket_etag_rehash b tot d =
     (if count_where (\<lambda>x. bucket_id x = b) (buckets d) = 0 then (Inl (Bail ''bucket not found''), d)
      else (Inr (), update_bucket (\<lambda>x. x\<lparr>etag_rehash_status := Some ''running'',
             etag_rehash_processed := 0, etag_rehash_total := tot, etag_rehash_error := None\<rparr>) b d))"

definition bump_bucket_etag_rehash_processed :: "int \<Rightarrow> db \<Rightarrow> db" where
  "bump_bucket_etag_rehash_processed b d =
     update_bucket (\<lambda>x. x\<lparr>etag_rehash_processed := etag_rehash_processed x + 1\<rparr>) b d"

definition finish_bucket_etag_rehash :: "int \<Rightarrow> string \<Rightarrow> string option \<Rightarrow> db \<Rightarrow> db" where
  "finish_bucket_etag_rehash b status err d =
     update_bucket (\<lambda>x. x\<lparr>etag_rehash_status := Some status, etag_rehash_error := err\<rparr>) b d"

definition update_object_etag :: "int \<Rightarrow> etag_type \<Rightarrow> string \<Rightarrow> time \<Rightarrow> db \<Rightarrow> unit res \<times> db" where
  "update_object_etag i etype tag now d =
     (if count_where (\<lambda>r. obj_id r = i \<and> obj_active r) (objects d) = 0
      then (Inl (Bail ''object not found''), d)
      else (Inr (), objects_update (update_where (\<lambda>r. obj_id r = i \<and> obj_active r)
             (\<lambda>r. r\<lparr>obj_etag_type := etype, etag := tag, date_modified := now\<rparr>)) d))"

text \<open>\<open>original_filename NOT LIKE '%/.keep'\<close>: no escape character, and case is ignored.\<close>

definition rehashable :: "int \<Rightarrow> object_record \<Rightarrow> bool" where
  "rehashable b r \<longleftrightarrow> obj_bucket_id r = b \<and> obj_active r \<and> original_filename r \<noteq> ''.keep''
     \<and> \<not> sql_like None ''%/.keep'' (original_filename r)"

definition count_active_objects_in_bucket :: "int \<Rightarrow> db \<Rightarrow> int" where
  "count_active_objects_in_bucket b d = count_where (rehashable b) (objects d)"

definition list_objects_for_etag_rehash :: "int \<Rightarrow> db \<Rightarrow> object_record list" where
  "list_objects_for_etag_rehash b d = newest_first (select_where (rehashable b) (objects d))"

end
