(* ===== verification/Outbox.thy ===== *)
theory Outbox
  imports Nodes
begin

text \<open>
  The transactional outbox: the queue functions of \<open>src/db/repository.rs\<close> behind
  \<open>src/cluster/outbox.rs\<close>, which write replication jobs, hand them to the worker and retire or
  reschedule them, and the life of a job as a state machine.
\<close>

section \<open>Operations\<close>

text \<open>
  The peers a change of an object is sent to: the join of the active peers with the object's
  bucket, the local node left out.
\<close>

definition target_peers :: "int \<Rightarrow> string \<Rightarrow> db \<Rightarrow> cluster_peer list" where
  "target_peers oid exclude d =
     (case get_object_by_id oid d of
        None \<Rightarrow> []
      | Some o1 \<Rightarrow>
          (case get_bucket_by_id (obj_bucket_id o1) d of
             None \<Rightarrow> []
           | Some b \<Rightarrow> select_where (\<lambda>p. is_active p \<and> peer_id p \<noteq> exclude
               \<and> (replicate_to_all b \<or> node_row (bucket_id b) (peer_id p) d \<noteq> None)) (peers d)))"

definition new_job :: "string \<Rightarrow> int \<Rightarrow> string \<Rightarrow> string \<Rightarrow> outbox_operation \<Rightarrow> time \<Rightarrow> int \<Rightarrow> outbox_row" where
  "new_job p oid fp tag opn now i = \<lparr>job_id = i, job_peer_id = p, job_object_id = Some oid,
     job_filepath_uuid = fp, job_etag = tag, job_operation = opn, job_status = Pending,
     attempt_count = 0, next_retry_utc = now\<rparr>"

definition insert_job :: "(int \<Rightarrow> outbox_row) \<Rightarrow> db \<Rightarrow> db" where
  "insert_job mk d = outbox_update (\<lambda>rows. rows @ [mk (next_job_id d)]) (next_job_id_update (\<lambda>n. n + 1) d)"

definition enqueue_for_active_peers ::
  "outbox_operation \<Rightarrow> int \<Rightarrow> string \<Rightarrow> string \<Rightarrow> string \<Rightarrow> time \<Rightarrow> db \<Rightarrow> int \<times> db" where
  "enqueue_for_active_peers opn oid fp tag exclude now d =
     (let ps = target_peers oid exclude d in
      (int (length ps), foldl (\<lambda>d p. insert_job (new_job (peer_id p) oid fp tag opn now) d) d ps))"

definition enqueue_put_for_active_peers ::
  "int \<Rightarrow> string \<Rightarrow> string \<Rightarrow> string \<Rightarrow> time \<Rightarrow> db \<Rightarrow> int \<times> db" where
  "enqueue_put_for_active_peers = enqueue_for_active_peers Put"

definition enqueue_delete_for_active_peers ::
  "int \<Rightarrow> string \<Rightarrow> string \<Rightarrow> string \<Rightarrow> time \<Rightarrow> db \<Rightarrow> int \<times> db" where
  "enqueue_delete_for_active_peers = enqueue_for_active_peers DeleteOp"

definition enqueue_put_for_peer :: "string \<Rightarrow> int \<Rightarrow> string \<Rightarrow> string \<Rightarrow> time \<Rightarrow> db \<Rightarrow> unit res \<times> db" where
  "enqueue_put_for_peer p oid fp tag now d =
     (if select_one (\<lambda>j. job_peer_id j = p \<and> job_filepath_uuid j = fp \<and> job_operation j = Put
            \<and> job_status j \<in> {Pending, Failed, InFlight}) (outbox d) \<noteq> None
      then (Inr (), d)
      else if p \<notin> peer_id ` set (peers d) \<or> oid \<notin> obj_id ` set (objects d) then (Inl ForeignKey, d)
      else (Inr (), insert_job (new_job p oid fp tag Put now) d))"

definition claimable :: "time \<Rightarrow> db \<Rightarrow> outbox_row \<Rightarrow> bool" where
  "claimable now d j \<longleftrightarrow> job_status j \<in> {Pending, Failed} \<and> next_retry_utc j \<le> now
     \<and> active_peer (job_peer_id j) d"

text \<open>The row of the join that a worker gets for a job.\<close>

definition job_view :: "db \<Rightarrow> outbox_row \<Rightarrow> outbox_job" where
  "job_view d j =
     (let ob = Option.bind (job_object_id j) (\<lambda>i. get_object_by_id i d);
          bk = Option.bind ob (\<lambda>r. get_bucket_by_id (obj_bucket_id r) d) in
      \<lparr>oj_id = job_id j, oj_peer_id = job_peer_id j, oj_object_id = job_object_id j,
       oj_filepath_uuid = Some (job_filepath_uuid j), oj_etag = Some (job_etag j),
       oj_operation = outbox_operation_to_string (job_operation j),
       oj_status = outbox_status_to_string (job_status j), oj_attempt_count = attempt_count j,
       oj_wireguard_endpoint = (case row_by peer_id (job_peer_id j) (peers d) of
          Some p \<Rightarrow> wireguard_endpoint p | None \<Rightarrow> []),
       oj_original_filename = map_option original_filename ob,
       oj_filepath = (case ob of Some r \<Rightarrow> Some (filepath r) | None \<Rightarrow> Some (job_filepath_uuid j)),
       oj_file_format = map_option file_format ob,
       oj_filesize_bytes = map_option filesize_bytes ob,
       oj_etag_type = map_option (\<lambda>r. etag_type_to_string (obj_etag_type r)) ob,
       oj_object_etag = (case ob of Some r \<Rightarrow> Some (etag r) | None \<Rightarrow> Some (job_etag j)),
       oj_date_uploaded = map_option date_uploaded ob,
       oj_date_modified = map_option date_modified ob,
       oj_bucket_name = map_option bucket_name bk\<rparr>)"

text \<open>\<open>LIMIT\<close> with a negative number does not limit.\<close>

definition sql_limit :: "int \<Rightarrow> 'a list \<Rightarrow> 'a list" where
  "sql_limit n xs = (if n < 0 then xs else take (nat n) xs)"

definition claimed_rows :: "int \<Rightarrow> time \<Rightarrow> db \<Rightarrow> outbox_row list" where
  "claimed_rows limit now d =
     sql_limit limit (sort_key job_id (select_where (claimable now d) (outbox d)))"

definition set_in_flight :: "int \<Rightarrow> db \<Rightarrow> db" where
  "set_in_flight i d = outbox_update (update_where (\<lambda>j. job_id j = i) (\<lambda>j. j\<lparr>job_status := InFlight\<rparr>)) d"

definition claim_outbox_jobs :: "int \<Rightarrow> time \<Rightarrow> db \<Rightarrow> outbox_job list \<times> db" where
  "claim_outbox_jobs limit now d =
     (let js = claimed_rows limit now d in
      (map (job_view d) js, foldl (\<lambda>d j. set_in_flight (oj_id j) d) d (map (job_view d) js)))"

definition complete_outbox_job :: "int \<Rightarrow> db \<Rightarrow> db" where
  "complete_outbox_job i d = outbox_update (delete_where (\<lambda>j. job_id j = i)) d"

text \<open>The retry is scheduled with the old count: the first after 30 seconds, then 60, and so on.\<close>

definition fail_job :: "time \<Rightarrow> outbox_row \<Rightarrow> outbox_row" where
  "fail_job now j = j\<lparr>job_status := Failed, attempt_count := attempt_count j + 1,
     next_retry_utc := now + (attempt_count j + 1) * 30\<rparr>"

definition fail_outbox_job :: "int \<Rightarrow> time \<Rightarrow> db \<Rightarrow> db" where
  "fail_outbox_job i now d = outbox_update (update_where (\<lambda>j. job_id j = i) (fail_job now)) d"

end
