(* ===== verification/Shares.thy ===== *)
theory Shares
  imports Outbox
begin

text \<open>
  Share links: \<open>src/db/shares.rs\<close>. The random generator is not code of the server: the draws of
  each attempt are arguments.
\<close>

section \<open>Codes\<close>

definition SHARE_CHARSET :: string where
  "SHARE_CHARSET = ''123456789ABCDEFGHJKLMNPQRSTUVWXYZabcdefghijkmnopqrstuvwxyz''"

definition TOKEN_LEN :: nat where "TOKEN_LEN = 22"
definition SHORT_CODE_LEN :: nat where "SHORT_CODE_LEN = 8"

text \<open>The code spelled by the indices drawn, each below the length of the alphabet.\<close>

definition random_share_code :: "nat list \<Rightarrow> string" where
  "random_share_code draws = map (\<lambda>i. SHARE_CHARSET ! i) draws"

section \<open>Queries\<close>

definition prefix_has_objects :: "int \<Rightarrow> string \<Rightarrow> db \<Rightarrow> bool" where
  "prefix_has_objects b pre d \<longleftrightarrow>
     count_where (\<lambda>r. obj_active r \<and> obj_bucket_id r = b \<and> like_prefix pre (original_filename r)) (objects d) > 0"

definition get_share_by_id :: "int \<Rightarrow> db \<Rightarrow> share_link_record option" where
  "get_share_by_id i d = row_by share_id i (share_links d)"

definition get_share_by_token :: "string \<Rightarrow> db \<Rightarrow> share_link_record option" where
  "get_share_by_token t d = row_by share_token t (share_links d)"

definition get_share_by_short_code :: "string \<Rightarrow> db \<Rightarrow> share_link_record option" where
  "get_share_by_short_code c d = row_by short_code (Some c) (share_links d)"

datatype share_deny_reason = Revoked | Expired

definition share_is_usable :: "share_link_record \<Rightarrow> time \<Rightarrow> share_deny_reason + unit" where
  "share_is_usable s now =
     (if revoked_at s \<noteq> None then Inl Revoked
      else (case expires_at s of
              Some e \<Rightarrow> if e < now then Inl Expired else Inr ()
            | None \<Rightarrow> Inr ()))"

definition list_share_recipients :: "int \<Rightarrow> db \<Rightarrow> int list" where
  "list_share_recipients i d = sort (map snd (select_where (\<lambda>(s, a). s = i) (share_users d)))"

definition share_allows_account :: "int \<Rightarrow> int \<Rightarrow> db \<Rightarrow> bool" where
  "share_allows_account i a d \<longleftrightarrow> count_where (\<lambda>(s, x). s = i \<and> x = a) (share_users d) > 0"

definition newest_shares :: "share_link_record list \<Rightarrow> share_link_record list" where
  "newest_shares ss = sort_key (\<lambda>s. - share_created_at s) ss"

definition list_shares_for_target :: "int \<Rightarrow> string \<Rightarrow> int \<Rightarrow> db \<Rightarrow> share_link_record list" where
  "list_shares_for_target b key creator d =
     newest_shares (select_where (\<lambda>s. share_bucket_id s = b \<and> target_key s = key
       \<and> share_created_by s = creator \<and> revoked_at s = None) (share_links d))"

text \<open>The pattern is the stored key itself: its \<open>%\<close> and \<open>_\<close> are wildcards here.\<close>

definition covers_key :: "share_link_record \<Rightarrow> string \<Rightarrow> bool" where
  "covers_key s key \<longleftrightarrow> (target_kind s = File \<and> target_key s = key)
     \<or> (target_kind s = Folder \<and> sql_like None (target_key s @ ''%'') key)"

definition list_shares_covering_key :: "int \<Rightarrow> string \<Rightarrow> db \<Rightarrow> share_link_record list" where
  "list_shares_covering_key b key d =
     newest_shares (select_where (\<lambda>s. share_bucket_id s = b \<and> revoked_at s = None \<and> covers_key s key)
       (share_links d))"

definition list_folder_shares_for_prefix :: "int \<Rightarrow> string \<Rightarrow> db \<Rightarrow> share_link_record list" where
  "list_folder_shares_for_prefix b pre d =
     newest_shares (select_where (\<lambda>s. share_bucket_id s = b \<and> revoked_at s = None
       \<and> target_kind s = Folder \<and> target_key s = pre) (share_links d))"

definition prefer_share_for_link ::
  "share_link_record list \<Rightarrow> string option \<Rightarrow> time \<Rightarrow> share_link_record option" where
  "prefer_share_for_link ss file_key now =
     (let usable = filter (\<lambda>s. share_is_usable s now = Inr ()) ss in
      if usable = [] then None
      else (case find (\<lambda>s. access_mode s = Public) usable of
              Some s \<Rightarrow> Some s
            | None \<Rightarrow>
                (case (case file_key of
                         None \<Rightarrow> None
                       | Some k \<Rightarrow> find (\<lambda>s. target_kind s = File \<and> target_key s = k) usable) of
                   Some s \<Rightarrow> Some s
                 | None \<Rightarrow> Some (hd usable))))"

section \<open>Creating and revoking\<close>

definition insert_share ::
  "string \<Rightarrow> string option \<Rightarrow> int \<Rightarrow> string \<Rightarrow> share_target_kind \<Rightarrow> share_access_mode \<Rightarrow>
     time option \<Rightarrow> int \<Rightarrow> time \<Rightarrow> db \<Rightarrow> int res \<times> db" where
  "insert_share tok code b key kind mode expires creator now d =
     (if tok \<in> share_token ` set (share_links d) then (Inl (Unique ''share_link.token''), d)
      else if code \<noteq> None \<and> code \<in> short_code ` set (share_links d)
      then (Inl (Unique ''share_link.short_code''), d)
      else if b \<notin> bucket_id ` set (buckets d) \<or> creator \<notin> account_id ` set (accounts d)
      then (Inl ForeignKey, d)
      else (Inr (next_share_id d),
        share_links_update (\<lambda>rows. rows @ [\<lparr>share_id = next_share_id d, share_token = tok,
          short_code = code, share_bucket_id = b, target_key = key, target_kind = kind,
          access_mode = mode, expires_at = expires, share_created_by = creator,
          share_created_at = now, revoked_at = None\<rparr>])
        (next_share_id_update (\<lambda>n. n + 1) d)))"

text \<open>The recipients are inserted one by one, outside a transaction.\<close>

fun insert_share_users :: "int \<Rightarrow> int list \<Rightarrow> db \<Rightarrow> unit res \<times> db" where
  "insert_share_users s [] d = (Inr (), d)"
| "insert_share_users s (a # as) d =
     (if (s, a) \<in> set (share_users d)
      then (Inl (Unique ''share_link_user.share_id, share_link_user.account_id''), d)
      else if s \<notin> share_id ` set (share_links d) \<or> a \<notin> account_id ` set (accounts d)
      then (Inl ForeignKey, d)
      else insert_share_users s as (share_users_update (\<lambda>rows. rows @ [(s, a)]) d))"

text \<open>The attempts that are left, each with the codes drawn for it.\<close>

fun try_create_share ::
  "(nat list \<times> nat list) list \<Rightarrow> bool \<Rightarrow> int \<Rightarrow> string \<Rightarrow> share_target_kind \<Rightarrow> share_access_mode \<Rightarrow>
     time option \<Rightarrow> int \<Rightarrow> int list \<Rightarrow> time \<Rightarrow> db \<Rightarrow> share_link_record res \<times> db" where
  "try_create_share [] shorten b key kind mode expires creator accts now d =
     (Inl (Bail ''failed to generate unique share token''), d)"
| "try_create_share ((t, c) # draws) shorten b key kind mode expires creator accts now d =
     (let tok = random_share_code t;
          code = (if shorten then Some (random_share_code c) else None) in
      case insert_share tok code b key kind mode expires creator now d of
        (Inl e, d1) \<Rightarrow>
          if err_has e ''UNIQUE''
          then try_create_share draws shorten b key kind mode expires creator accts now d1
          else (Inl e, d1)
      | (Inr i, d1) \<Rightarrow>
          (case (if mode = SpecificUsers then insert_share_users i accts d1 else (Inr (), d1)) of
             (Inl e, d2) \<Rightarrow> (Inl e, d2)
           | (Inr _, d2) \<Rightarrow>
               (case get_share_by_id i d2 of
                  None \<Rightarrow> (Inl (Bail ''share missing after insert''), d2)
                | Some s \<Rightarrow> (Inr s, d2))))"

definition create_share ::
  "(nat \<Rightarrow> nat list \<times> nat list) \<Rightarrow> int \<Rightarrow> string \<Rightarrow> share_target_kind \<Rightarrow> share_access_mode \<Rightarrow>
     time option \<Rightarrow> int \<Rightarrow> int list \<Rightarrow> bool \<Rightarrow> time \<Rightarrow> db \<Rightarrow> share_link_record res \<times> db" where
  "create_share draw b key kind mode expires creator accts shorten now d =
     (if kind = File \<and> get_object_by_filename_in_bucket key b d = None
      then (Inl (Bail ''object not found''), d)
      else if kind = Folder \<and> \<not> prefix_has_objects b key d
      then (Inl (Bail ''folder not found or empty''), d)
      else if mode = SpecificUsers \<and> accts = []
      then (Inl (Bail ''specific_users requires at least one account_id''), d)
      else try_create_share (map draw [0..<8]) shorten b key kind mode expires creator accts now d)"

definition revoke_share :: "int \<Rightarrow> int \<Rightarrow> bool \<Rightarrow> time \<Rightarrow> db \<Rightarrow> bool res \<times> db" where
  "revoke_share i actor owner now d =
     (case get_share_by_id i d of
        None \<Rightarrow> (Inr False, d)
      | Some s \<Rightarrow>
          if revoked_at s \<noteq> None then (Inr True, d)
          else if \<not> owner \<and> share_created_by s \<noteq> actor
          then (Inl (Bail ''not allowed to revoke this share''), d)
          else (Inr True, share_links_update (update_where (\<lambda>x. share_id x = i \<and> revoked_at x = None)
                 (\<lambda>x. x\<lparr>revoked_at := Some now\<rparr>)) d))"

section \<open>Scope\<close>

definition key_in_share_scope :: "share_link_record \<Rightarrow> string \<Rightarrow> bool" where
  "key_in_share_scope s key =
     (case target_kind s of File \<Rightarrow> key = target_key s | Folder \<Rightarrow> starts_with key (target_key s))"

definition resolve_list_prefix :: "share_link_record \<Rightarrow> string option \<Rightarrow> string + string" where
  "resolve_list_prefix s relative =
     (if target_kind s \<noteq> Folder then Inl ''share is not a folder''
      else (case nonempty_trimmed relative of
              None \<Rightarrow> Inr (target_key s)
            | Some rel0 \<Rightarrow>
                let rel = trim_start_char (CHR ''/'') rel0;
                    joined = (if ends_with rel ''/'' then target_key s @ rel else target_key s @ rel @ ''/'')
                in if \<not> starts_with joined (target_key s) then Inl ''prefix outside share scope''
                   else if \<exists>seg \<in> set (split_on (CHR ''/'') (trim_end_char (CHR ''/'') joined)).
                             seg = ''.'' \<or> seg = ''..'' \<or> seg = []
                   then Inl ''invalid prefix''
                   else Inr joined))"

definition share_url_path :: "share_link_record \<Rightarrow> string" where
  "share_url_path s = (case short_code s of
     Some code \<Rightarrow> ''/s/'' @ code
   | None \<Rightarrow> ''/share/'' @ share_token s)"

end
