(* ===== verification/Systems.thy ===== *)
theory Systems
  imports Main
begin

text \<open>
  The interface of every state machine of the development: its initial states, its step relation
  and a property that both keep. Each component that runs in steps interprets it.
\<close>

locale invariant_system =
  fixes init :: "'s \<Rightarrow> bool" and step :: "'s \<Rightarrow> 's \<Rightarrow> bool" and inv :: "'s \<Rightarrow> bool"
  assumes init_inv: "init s \<Longrightarrow> inv s"
    and step_inv: "inv s \<Longrightarrow> step s t \<Longrightarrow> inv t"
begin

lemma steps_inv: "step\<^sup>*\<^sup>* s t \<Longrightarrow> inv s \<Longrightarrow> inv t"
  by (induction rule: rtranclp_induct) (auto intro: step_inv)

lemma reachable_inv: "init s \<Longrightarrow> step\<^sup>*\<^sup>* s t \<Longrightarrow> inv t"
  using steps_inv init_inv by blast

end

text \<open>
  A part of the program that answers requests one at a time, and its contract: what a client may think of the state,
  and which answers and changes that allows for each request. What holds for a request holds for every sequence.
\<close>

fun run_all :: "('q \<Rightarrow> 's \<Rightarrow> 'r \<times> 's) \<Rightarrow> 'q list \<Rightarrow> 's \<Rightarrow> 'r list \<times> 's" where
  "run_all serve [] s = ([], s)"
| "run_all serve (q # qs) s = (let (r, t) = serve q s; (rs, u) = run_all serve qs t in (r # rs, u))"

fun all_allowed :: "('q \<Rightarrow> 's \<Rightarrow> 'r \<times> 's) \<Rightarrow> ('q \<Rightarrow> 's \<Rightarrow> bool) \<Rightarrow> 'q list \<Rightarrow> 's \<Rightarrow> bool" where
  "all_allowed serve allowed [] s \<longleftrightarrow> True"
| "all_allowed serve allowed (q # qs) s \<longleftrightarrow> allowed q s \<and> all_allowed serve allowed qs (snd (serve q s))"

inductive spec_run :: "('q \<Rightarrow> 'a \<Rightarrow> 'r \<Rightarrow> 'a \<Rightarrow> bool) \<Rightarrow> 'q list \<Rightarrow> 'a \<Rightarrow> 'r list \<Rightarrow> 'a \<Rightarrow> bool" for spec where
  spec_done: "spec_run spec [] m [] m"
| spec_next: "spec_run spec (q # qs) m (r # rs) m''" if "spec q m r m'" and "spec_run spec qs m' rs m''"

locale served_refinement =
  fixes serve :: "'q \<Rightarrow> 's \<Rightarrow> 'r \<times> 's" and inv :: "'s \<Rightarrow> bool" and view :: "'s \<Rightarrow> 'a"
    and allowed :: "'q \<Rightarrow> 's \<Rightarrow> bool" and spec :: "'q \<Rightarrow> 'a \<Rightarrow> 'r \<Rightarrow> 'a \<Rightarrow> bool"
  assumes simulates: "inv s \<Longrightarrow> allowed q s \<Longrightarrow> serve q s = (r, t) \<Longrightarrow> inv t \<and> spec q (view s) r (view t)"
begin

lemma runs_refine:
  "inv s \<Longrightarrow> all_allowed serve allowed qs s \<Longrightarrow> run_all serve qs s = (rs, t) \<Longrightarrow> inv t \<and> spec_run spec qs (view s) rs (view t)"
proof (induction qs arbitrary: s rs)
  case (Cons q qs)
  obtain r s1 rs1 where step: "serve q s = (r, s1)" and rest: "run_all serve qs s1 = (rs1, t)" and rs: "rs = r # rs1"
    using Cons.prems(3) by (auto split: prod.split_asm)
  with Cons.prems(2) have "allowed q s" "all_allowed serve allowed qs s1" by simp_all
  with simulates [OF Cons.prems(1) _ step] Cons.IH [OF _ _ rest] show ?case unfolding rs by (blast intro: spec_next)
qed (simp add: spec_done)

end

end
