(* ===== verification/Invariants.thy ===== *)
theory Invariants
  imports Shares Systems
begin

text \<open>
  Every operation on the database keeps the constraints of the schema and the rows the migrations
  seed. First each kind of statement on each table, with the side conditions the constraints ask
  for, then each operation of the repository, then the states that any sequence of operations
  reaches.
\<close>

named_theorems stmt_ok \<open>statements that keep the constraints\<close>
named_theorems op_ok \<open>operations that keep the constraints\<close>

section \<open>Statements\<close>

lemma mem_update_where: "r \<in> set rows \<Longrightarrow> (if P r then f r else r) \<in> set (update_where P f rows)"
  by (simp add: update_where_def)

lemma update_accounts_ok [stmt_ok]:
  assumes "db_ok d" and "\<And>r. account_id (f r) = account_id r" "\<And>r. username_hex (f r) = username_hex r"
    "\<And>r. created_by_account_id (f r) = created_by_account_id r"
  shows "db_ok (accounts_update (update_where P f) d)"
  using assms unfolding db_ok_parts by simp

lemma insert_account_ok [stmt_ok]:
  assumes "db_ok d" "account_id r = next_account_id d" "username_hex r \<notin> username_hex ` set (accounts d)"
    "\<And>c. created_by_account_id r = Some c \<Longrightarrow> c \<in> account_id ` set (accounts d)"
  shows "db_ok (accounts_update (\<lambda>rows. rows @ [r]) (next_account_id_update (\<lambda>n. n + 1) d))"
  using assms unfolding db_ok_parts by (simp split: option.splits)

lemma insert_role_ok [stmt_ok]:
  assumes "db_ok d" "role_id r = next_role_id d" "role_name r \<notin> role_name ` set (roles d)"
  shows "db_ok (roles_update (\<lambda>rows. rows @ [r]) (next_role_id_update (\<lambda>n. n + 1) d))"
  using assms unfolding db_ok_parts by simp

lemma insert_account_role_ok [stmt_ok]:
  assumes "db_ok d" "p \<notin> set (account_roles d)" "fst p \<in> account_id ` set (accounts d)"
    "snd p \<in> role_id ` set (roles d)"
  shows "db_ok (account_roles_update (\<lambda>rows. rows @ [p]) d)"
  using assms unfolding db_ok_parts by simp

lemma delete_account_roles_ok [stmt_ok]: "db_ok d \<Longrightarrow> db_ok (account_roles_update (delete_where P) d)"
  unfolding db_ok_parts by simp

lemma insert_perm_ok [stmt_ok]:
  assumes "db_ok d" "\<not> (\<exists>x \<in> set (role_perms d). rbp_role_id x = rbp_role_id p \<and> rbp_bucket_id x = rbp_bucket_id p)"
    "rbp_role_id p \<in> role_id ` set (roles d)" "rbp_bucket_id p \<in> bucket_id ` set (buckets d)"
  shows "db_ok (role_perms_update (\<lambda>rows. rows @ [p]) d)"
  using assms unfolding db_ok_parts by (simp add: image_iff) metis

lemma update_perms_ok [stmt_ok]:
  assumes "db_ok d" "\<And>r. rbp_role_id (f r) = rbp_role_id r" "\<And>r. rbp_bucket_id (f r) = rbp_bucket_id r"
  shows "db_ok (role_perms_update (update_where P f) d)"
  using assms unfolding db_ok_parts by simp

lemma delete_perms_ok [stmt_ok]: "db_ok d \<Longrightarrow> db_ok (role_perms_update (delete_where P) d)"
  unfolding db_ok_parts by simp

lemma insert_session_ok [stmt_ok]:
  assumes "db_ok d" "token s \<notin> token ` set (sessions d)" "session_account_id s \<in> account_id ` set (accounts d)"
  shows "db_ok (sessions_update (\<lambda>rows. rows @ [s]) d)"
  using assms unfolding db_ok_parts by simp

lemma delete_sessions_ok [stmt_ok]: "db_ok d \<Longrightarrow> db_ok (sessions_update (delete_where P) d)"
  unfolding db_ok_parts by simp

lemma insert_bucket_row_ok [stmt_ok]:
  assumes "db_ok d" "bucket_id b = next_bucket_id d" "bucket_name b \<notin> bucket_name ` set (buckets d)"
    "\<And>a. owner_account_id b = Some a \<Longrightarrow> a \<in> account_id ` set (accounts d)"
  shows "db_ok (buckets_update (\<lambda>rows. rows @ [b]) (next_bucket_id_update (\<lambda>n. n + 1) d))"
  using assms unfolding db_ok_parts by (simp split: option.splits)

lemma update_buckets_ok [stmt_ok]:
  assumes "db_ok d" "\<And>r. bucket_id (f r) = bucket_id r" "\<And>r. bucket_name (f r) = bucket_name r"
    "\<And>r. owner_account_id (f r) = owner_account_id r"
  shows "db_ok (buckets_update (update_where P f) d)"
  using assms unfolding db_ok_parts by simp

lemma set_owner_ok [stmt_ok]:
  assumes "db_ok d" "(\<exists>b \<in> set (buckets d). P b) \<Longrightarrow> a \<in> account_id ` set (accounts d)"
  shows "db_ok (buckets_update (update_where P (\<lambda>b. b\<lparr>owner_account_id := Some a\<rparr>)) d)"
proof -
  have "fk_opt owner_account_id (update_where P (\<lambda>b. b\<lparr>owner_account_id := Some a\<rparr>) (buckets d))
      (account_id ` set (accounts d))"
  proof -
    have "fk_opt owner_account_id (buckets d) (account_id ` set (accounts d))"
      using assms(1) unfolding db_ok_parts by simp
    then show ?thesis
      using assms(2) by (cases "\<exists>b \<in> set (buckets d). P b") (auto simp: fk_opt_def update_where_def)
  qed
  then show ?thesis using assms(1) unfolding db_ok_parts by simp
qed

lemma rename_bucket_row_ok [stmt_ok]:
  assumes "db_ok d" "\<not> (\<exists>x \<in> set (buckets d). bucket_name x = nm \<and> bucket_id x \<noteq> i)"
    "\<And>b. b \<in> set (buckets d) \<Longrightarrow> bucket_id b = i \<Longrightarrow> bucket_name b \<noteq> ''storage''"
  shows "db_ok (buckets_update (update_where (\<lambda>x. bucket_id x = i) (\<lambda>x. x\<lparr>bucket_name := nm\<rparr>)) d)"
proof -
  let ?rows = "update_where (\<lambda>x. bucket_id x = i) (\<lambda>x. x\<lparr>bucket_name := nm\<rparr>) (buckets d)"
  have ids: "keyed_ok bucket_id (buckets d) (next_bucket_id d)" and nms: "uniq bucket_name (buckets d)"
    and st: "''storage'' \<in> bucket_name ` set (buckets d)"
    using assms(1) unfolding db_ok_parts by simp_all
  have "uniq bucket_name ?rows"
    unfolding uniq_def update_where_def map_map
  proof (rule distinct_map_of_inj)
    show "distinct (buckets d)" using nms by (simp add: uniq_def distinct_map)
    show "x = y" if "x \<in> set (buckets d)" "y \<in> set (buckets d)"
      "(bucket_name \<circ> (\<lambda>r. if bucket_id r = i then r\<lparr>bucket_name := nm\<rparr> else r)) x
       = (bucket_name \<circ> (\<lambda>r. if bucket_id r = i then r\<lparr>bucket_name := nm\<rparr> else r)) y" for x y
      using that keyed_ok_eqD [OF ids that(1,2)] distinct_map_eqD [OF nms [unfolded uniq_def] that(1,2)] assms(2)
      by (auto split: if_split_asm)
  qed
  moreover have "''storage'' \<in> bucket_name ` set ?rows"
  proof -
    from st obtain b where b: "b \<in> set (buckets d)" "bucket_name b = ''storage''" by auto
    then have "b \<in> set ?rows" using assms(3) [of b] by (force simp: update_where_def image_iff)
    with b show ?thesis by force
  qed
  ultimately show ?thesis using assms(1) unfolding db_ok_parts by simp
qed

lemma settings_ok [stmt_ok]:
  assumes "db_ok d" "0 \<le> v"
  shows "db_ok (settings_update (map_option (\<lambda>s. s\<lparr>recycle_retention_value := v, recycle_retention_unit := u\<rparr>)) d)"
  using assms unfolding db_ok_parts by (simp split: option.splits)

lemma insert_peer_ok [stmt_ok]: "db_ok d \<Longrightarrow> peer_id p \<notin> peer_id ` set (peers d) \<Longrightarrow>
    db_ok (peers_update (\<lambda>rows. rows @ [p]) d)"
  unfolding db_ok_parts by simp

lemma update_peers_ok [stmt_ok]: "db_ok d \<Longrightarrow> (\<And>r. peer_id (f r) = peer_id r) \<Longrightarrow>
    db_ok (peers_update (update_where P f) d)"
  unfolding db_ok_parts by simp

lemma insert_node_ok [stmt_ok]:
  assumes "db_ok d" "node_row (bna_bucket_id n) (bna_peer_id n) d = None"
    "bna_bucket_id n \<in> bucket_id ` set (buckets d)" "bna_peer_id n \<in> peer_id ` set (peers d)"
  shows "db_ok (repl_peers_update (\<lambda>rows. rows @ [n]) d)"
  using assms node_tbl.row_None [of "(bna_bucket_id n, bna_peer_id n)" d]
  unfolding db_ok_parts node_row_def by simp

lemma update_nodes_ok [stmt_ok]:
  assumes "db_ok d" "\<And>r. bna_bucket_id (f r) = bna_bucket_id r" "\<And>r. bna_peer_id (f r) = bna_peer_id r"
  shows "db_ok (repl_peers_update (update_where P f) d)"
  using assms unfolding db_ok_parts by simp

lemma delete_nodes_ok [stmt_ok]: "db_ok d \<Longrightarrow> db_ok (repl_peers_update (delete_where P) d)"
  unfolding db_ok_parts by simp

lemma insert_job_row_ok [stmt_ok]:
  assumes "db_ok d" "job_id (mk (next_job_id d)) = next_job_id d"
    "job_peer_id (mk (next_job_id d)) \<in> peer_id ` set (peers d)"
    "\<And>i. job_object_id (mk (next_job_id d)) = Some i \<Longrightarrow> i \<in> obj_id ` set (objects d)"
  shows "db_ok (insert_job mk d)"
  using assms unfolding insert_job_def db_ok_parts by (simp split: option.splits)

lemma update_jobs_ok [stmt_ok]:
  assumes "db_ok d" "\<And>j. job_id (f j) = job_id j" "\<And>j. job_peer_id (f j) = job_peer_id j"
    "\<And>j. job_object_id (f j) = job_object_id j"
  shows "db_ok (outbox_update (update_where P f) d)"
  using assms unfolding db_ok_parts by simp

lemma delete_jobs_ok [stmt_ok]: "db_ok d \<Longrightarrow> db_ok (outbox_update (delete_where P) d)"
  unfolding db_ok_parts by simp

lemma insert_share_row_ok [stmt_ok]:
  assumes "db_ok d" "share_id s = next_share_id d" "share_token s \<notin> share_token ` set (share_links d)"
    "short_code s \<noteq> None \<Longrightarrow> short_code s \<notin> short_code ` set (share_links d)"
    "share_bucket_id s \<in> bucket_id ` set (buckets d)" "share_created_by s \<in> account_id ` set (accounts d)"
  shows "db_ok (share_links_update (\<lambda>rows. rows @ [s]) (next_share_id_update (\<lambda>n. n + 1) d))"
  using assms unfolding db_ok_parts by simp

lemma update_shares_ok [stmt_ok]:
  assumes "db_ok d" "\<And>s. share_id (f s) = share_id s" "\<And>s. share_token (f s) = share_token s" "\<And>s. short_code (f s) = short_code s"
    "\<And>s. share_bucket_id (f s) = share_bucket_id s" "\<And>s. share_created_by (f s) = share_created_by s"
  shows "db_ok (share_links_update (update_where P f) d)"
  using assms unfolding db_ok_parts by simp

lemma insert_share_user_ok [stmt_ok]:
  assumes "db_ok d" "p \<notin> set (share_users d)" "fst p \<in> share_id ` set (share_links d)"
    "snd p \<in> account_id ` set (accounts d)"
  shows "db_ok (share_users_update (\<lambda>rows. rows @ [p]) d)"
  using assms unfolding db_ok_parts by simp

text \<open>The object table: what its own invariant lemmas do not cover are the references.\<close>

lemma objects_table_ok:
  assumes "db_ok d" "objects_ok (objects_update g d)"
    "obj_id ` set (g (objects d)) = obj_id ` set (objects d)"
    "fk obj_bucket_id (g (objects d)) (bucket_id ` set (buckets d))"
  shows "db_ok (objects_update g d)"
  using assms unfolding db_ok_parts by simp

lemma update_objects_ok [stmt_ok]:
  assumes "db_ok d" "objects_ok (objects_update (update_where P f) d)"
    "\<And>r. obj_id (f r) = obj_id r" "\<And>r. obj_bucket_id (f r) = obj_bucket_id r"
  shows "db_ok (objects_update (update_where P f) d)"
  using assms by (intro objects_table_ok) (simp_all add: db_ok_parts)

lemma delete_object_row_ok [stmt_ok]:
  assumes "db_ok d" shows "db_ok (delete_object_row P d)"
proof -
  let ?gone = "obj_id ` set (select_where P (objects d))"
  let ?jobs = "update_where (\<lambda>j. case job_object_id j of None \<Rightarrow> False | Some i \<Rightarrow> i \<in> ?gone)
      (\<lambda>j. j\<lparr>job_object_id := None\<rparr>) (outbox d)"
  have "fk_opt job_object_id ?jobs (obj_id ` set (delete_where P (objects d)))"
  proof -
    have "fk_opt job_object_id (outbox d) (obj_id ` set (objects d))"
      using assms unfolding db_ok_parts by simp
    then show ?thesis
      by (fastforce simp: fk_opt_def update_where_def set_delete_where set_select_where split: option.splits)
  qed
  moreover have "objects_ok (delete_object_row P d)"
    using assms objects_ok_delete unfolding db_ok_def by blast
  ultimately show ?thesis
    using assms unfolding db_ok_parts delete_object_row_def Let_def by simp
qed


section \<open>Operations of \<open>rbac.rs\<close>\<close>

lemma update_account_ok [op_ok]:
  assumes "update_account f i d = (x, d')" "db_ok d"
    "\<And>r. account_id (f r) = account_id r" "\<And>r. username_hex (f r) = username_hex r"
    "\<And>r. created_by_account_id (f r) = created_by_account_id r"
  shows "db_ok d'"
  using assms by (auto simp: update_account_def intro: stmt_ok split: if_split_asm)

lemma create_account_ok [op_ok]:
  "create_account argon salt u pw dn c now d = (x, d') \<Longrightarrow> db_ok d \<Longrightarrow> db_ok d'"
  by (auto simp: create_account_def Let_def split: if_split_asm option.splits sum.splits intro!: stmt_ok)

lemma set_account_disabled_ok [op_ok]: "set_account_disabled i b now d = (x, d') \<Longrightarrow> db_ok d \<Longrightarrow> db_ok d'"
  unfolding set_account_disabled_def by (erule update_account_ok) simp_all

lemma update_account_display_name_ok [op_ok]:
  "update_account_display_name i n now d = (x, d') \<Longrightarrow> db_ok d \<Longrightarrow> db_ok d'"
  unfolding update_account_display_name_def by (erule update_account_ok) simp_all

lemma set_account_password_ok [op_ok]:
  "set_account_password argon salt i pw now d = (x, d') \<Longrightarrow> db_ok d \<Longrightarrow> db_ok d'"
  unfolding set_account_password_def by (auto split: sum.splits elim!: update_account_ok)

lemma delete_account_ok [op_ok]: "delete_account i d = (x, d') \<Longrightarrow> db_ok d \<Longrightarrow> db_ok d'"
proof -
  assume r: "delete_account i d = (x, d')" and ok: "db_ok d"
  let ?A = "delete_where (\<lambda>a. account_id a = i) (accounts d)"
  let ?accts = "update_where (\<lambda>a. created_by_account_id a = Some i) (\<lambda>a. a\<lparr>created_by_account_id := None\<rparr>) ?A"
  let ?bkts = "update_where (\<lambda>b. owner_account_id b = Some i) (\<lambda>b. b\<lparr>owner_account_id := None\<rparr>) (buckets d)"
  let ?ids = "account_id ` set (accounts d) - {i}"
  let ?roles = "delete_where (\<lambda>(a, r). a = i) (account_roles d)"
  let ?sess = "delete_where (\<lambda>s. session_account_id s = i) (sessions d)"
  let ?d1 = "d\<lparr>accounts := ?accts, account_roles := ?roles, sessions := ?sess, buckets := ?bkts\<rparr>"
  have ids: "account_id ` set ?accts = ?ids"
    by (auto simp: set_delete_where)
  note p = ok [unfolded db_ok_parts]
  have refs: "fk fst ?roles ?ids" "fk session_account_id ?sess ?ids"
    using p by (auto simp: fk_def set_delete_where)
  have opts: "fk_opt owner_account_id ?bkts ?ids" "fk_opt created_by_account_id ?accts ?ids"
    using p by (auto simp: fk_opt_def update_where_def delete_where_def split: option.splits)
  have "db_ok ?d1" if "\<not> (\<exists>s \<in> set (share_links d). share_created_by s = i)" "i \<notin> snd ` set (share_users d)"
  proof -
    have "fk share_created_by (share_links d) ?ids" "fk snd (share_users d) ?ids"
      using p that by (auto simp: fk_def)
    then show ?thesis
      using p refs opts unfolding db_ok_parts by (simp add: ids)
  qed
  then show ?thesis
    using r ok unfolding delete_account_def by (simp split: if_split_asm)
qed

lemma create_role_ok [op_ok]: "create_role n pos d = (x, d') \<Longrightarrow> db_ok d \<Longrightarrow> db_ok d'"
  by (auto simp: create_role_def Let_def split: if_split_asm option.splits intro!: stmt_ok)

lemma update_role_ok [op_ok]: "update_role i n pos d = (x, d') \<Longrightarrow> db_ok d \<Longrightarrow> db_ok d'"
proof -
  assume r: "update_role i n pos d = (x, d')" and ok: "db_ok d"
  have "db_ok (roles_update (update_where (\<lambda>x. role_id x = i) (\<lambda>x. x\<lparr>role_name := nm, position := ps\<rparr>)) d)"
    if fresh: "\<not> (\<exists>x \<in> set (roles d). role_name x = nm \<and> role_id x \<noteq> i)" for nm ps
  proof -
    let ?f = "\<lambda>x. x\<lparr>role_name := nm, position := ps\<rparr>"
    have ids: "keyed_ok role_id (roles d) (next_role_id d)" and nms: "uniq role_name (roles d)"
      using ok unfolding db_ok_parts by simp_all
    have "uniq role_name (update_where (\<lambda>x. role_id x = i) ?f (roles d))"
      unfolding uniq_def update_where_def map_map
    proof (rule distinct_map_of_inj)
      show "distinct (roles d)" using nms by (simp add: uniq_def distinct_map)
      show "x = y" if "x \<in> set (roles d)" "y \<in> set (roles d)"
        "(role_name \<circ> (\<lambda>r. if role_id r = i then ?f r else r)) x = (role_name \<circ> (\<lambda>r. if role_id r = i then ?f r else r)) y" for x y
        using that keyed_ok_eqD [OF ids that(1,2)] distinct_map_eqD [OF nms [unfolded uniq_def] that(1,2)] fresh
        by (auto split: if_split_asm)
    qed
    moreover have "\<exists>r \<in> set (update_where (\<lambda>x. role_id x = i) ?f (roles d)). is_owner r"
    proof -
      have "\<exists>r \<in> set (roles d). is_owner r" using ok unfolding db_ok_parts by simp
      then obtain r where r: "r \<in> set (roles d)" "is_owner r" by blast
      show ?thesis
        by (rule bexI [OF _ mem_update_where [OF r(1)]]) (use r(2) in simp)
    qed
    ultimately show ?thesis using ok unfolding db_ok_parts by simp
  qed
  then show ?thesis
    using r ok unfolding update_role_def Let_def by (auto split: if_split_asm option.splits)
qed

lemma delete_role_ok [op_ok]: "delete_role i d = (x, d') \<Longrightarrow> db_ok d \<Longrightarrow> db_ok d'"
proof -
  assume r: "delete_role i d = (x, d')" and ok: "db_ok d"
  let ?ar = "delete_where (\<lambda>(a, x). x = i) (account_roles d)"
  let ?rp = "delete_where (\<lambda>p. rbp_role_id p = i) (role_perms d)"
  let ?rl = "delete_where (\<lambda>x. role_id x = i) (roles d)"
  have ids: "role_id ` set ?rl = role_id ` set (roles d) - {i}" by (auto simp: set_delete_where)
  note p = ok [unfolded db_ok_parts]
  have refs: "fk snd ?ar (role_id ` set (roles d) - {i})" "fk rbp_role_id ?rp (role_id ` set (roles d) - {i})"
    using p by (auto simp: fk_def set_delete_where)
  have "db_ok (d\<lparr>roles := ?rl, account_roles := ?ar, role_perms := ?rp\<rparr>)"
    if ro: "get_role i d = Some ro" "\<not> is_owner ro" for ro
  proof -
    have mem: "ro \<in> set (roles d)" "role_id ro = i"
      using ro(1) unfolding get_role_def using role_tbl.row_mem by blast+
    have ids': "keyed_ok role_id (roles d) (next_role_id d)" using p by simp
    have "\<exists>r \<in> set (roles d). is_owner r" using p by simp
    then have "\<exists>r \<in> set ?rl. is_owner r"
      using mem ro(2) keyed_ok_eqD [OF ids'] by (fastforce simp: set_delete_where)
    then show ?thesis using p refs unfolding db_ok_parts by (simp add: ids)
  qed
  then show ?thesis
    using r ok unfolding delete_role_def by (simp split: if_split_asm option.splits)
qed

lemma insert_account_role_op_ok [op_ok]: "insert_account_role a r d = (x, d') \<Longrightarrow> db_ok d \<Longrightarrow> db_ok d'"
  by (auto simp: insert_account_role_def split: if_split_asm intro!: stmt_ok)

lemma insert_account_roles_ok [op_ok]: "insert_account_roles a rs d = (x, d') \<Longrightarrow> db_ok d \<Longrightarrow> db_ok d'"
  by (induction a rs d rule: insert_account_roles.induct)
     (auto split: prod.splits sum.splits dest: insert_account_role_op_ok)

lemma set_account_roles_ok [op_ok]: "set_account_roles a rs d = (x, d') \<Longrightarrow> db_ok d \<Longrightarrow> db_ok d'"
  by (auto simp: set_account_roles_def split: prod.splits sum.splits
      dest!: insert_account_roles_ok intro: stmt_ok)

lemma assign_role_ok [op_ok]: "assign_role a r d = (x, d') \<Longrightarrow> db_ok d \<Longrightarrow> db_ok d'"
  by (auto simp: assign_role_def split: if_split_asm dest: op_ok)

lemma insert_role_permission_ok [op_ok]: "insert_role_permission r b p d = (x, d') \<Longrightarrow> db_ok d \<Longrightarrow> db_ok d'"
  unfolding insert_role_permission_def by (auto split: if_split_asm intro!: insert_perm_ok)

lemma upsert_role_permission_ok [op_ok]: "upsert_role_permission r b p d = (x, d') \<Longrightarrow> db_ok d \<Longrightarrow> db_ok d'"
  unfolding upsert_role_permission_def
  by (auto split: if_split_asm intro!: update_perms_ok dest: insert_role_permission_ok)

lemma insert_role_permissions_ok [op_ok]:
  "insert_role_permissions r ps d = (x, d') \<Longrightarrow> db_ok d \<Longrightarrow> db_ok d'"
  by (induction r ps d rule: insert_role_permissions.induct)
     (auto split: prod.splits sum.splits dest: insert_role_permission_ok)

lemma replace_role_permissions_ok [op_ok]:
  "replace_role_permissions r ps d = (x, d') \<Longrightarrow> db_ok d \<Longrightarrow> db_ok d'"
  by (auto simp: replace_role_permissions_def split: prod.splits sum.splits
      dest!: insert_role_permissions_ok intro: stmt_ok)

lemma create_session_ok [op_ok]: "create_session r a ttl now d = (x, d') \<Longrightarrow> db_ok d \<Longrightarrow> db_ok d'"
  by (auto simp: create_session_def Let_def split: if_split_asm intro!: stmt_ok)

lemma delete_session_ok [stmt_ok]: "db_ok d \<Longrightarrow> db_ok (delete_session tok d)"
  by (simp add: delete_session_def stmt_ok)

lemma delete_sessions_for_account_ok [stmt_ok]: "db_ok d \<Longrightarrow> db_ok (delete_sessions_for_account a d)"
  by (simp add: delete_sessions_for_account_def stmt_ok)

lemma resolve_session_ok [op_ok]: "resolve_session tok now d = (x, d') \<Longrightarrow> db_ok d \<Longrightarrow> db_ok d'"
  by (auto simp: resolve_session_def delete_session_ok split: option.splits if_split_asm)

lemma insert_bucket_ok [op_ok]: "insert_bucket n ow et now d = (x, d') \<Longrightarrow> db_ok d \<Longrightarrow> db_ok d'"
  by (auto simp: insert_bucket_def split: if_split_asm option.splits intro!: stmt_ok)

lemma grant_owner_role_ok [op_ok]: "grant_owner_role b d = (x, d') \<Longrightarrow> db_ok d \<Longrightarrow> db_ok d'"
  by (auto simp: grant_owner_role_def split: option.splits dest: upsert_role_permission_ok)

lemma create_bucket_ok [op_ok]: "create_bucket n ow et now d = (x, d') \<Longrightarrow> db_ok d \<Longrightarrow> db_ok d'"
  by (auto simp: create_bucket_def split: option.splits prod.splits sum.splits
      dest: insert_bucket_ok grant_owner_role_ok)

lemma ensure_bucket_ok [op_ok]: "ensure_bucket n now d = (x, d') \<Longrightarrow> db_ok d \<Longrightarrow> db_ok d'"
  by (auto simp: ensure_bucket_def split: option.splits prod.splits sum.splits
      dest: insert_bucket_ok grant_owner_role_ok)

lemma claim_unowned_buckets_ok [op_ok]: "claim_unowned_buckets a d = (x, d') \<Longrightarrow> db_ok d \<Longrightarrow> db_ok d'"
  by (auto simp: claim_unowned_buckets_def Let_def count_where_pos split: if_split_asm intro!: set_owner_ok)

lemma rename_bucket_ok [op_ok]: "rename_bucket i n d = (x, d') \<Longrightarrow> db_ok d \<Longrightarrow> db_ok d'"
proof -
  assume r: "rename_bucket i n d = (x, d')" and ok: "db_ok d"
  have ids: "keyed_ok bucket_id (buckets d) (next_bucket_id d)" using ok unfolding db_ok_parts by simp
  have mem: "b \<in> set (buckets d) \<and> bucket_id b = i" if "get_bucket_by_id i d = Some b" for b
    using that unfolding get_bucket_by_id_def by (rule bkt_tbl.row_mem)
  have "db_ok (buckets_update (update_where (\<lambda>x. bucket_id x = i) (\<lambda>x. x\<lparr>bucket_name := n\<rparr>)) d)"
    if b: "get_bucket_by_id i d = Some b" "bucket_name b \<noteq> ''storage''"
      "\<not> (\<exists>x \<in> set (buckets d). bucket_name x = n \<and> bucket_id x \<noteq> i)" for b
    by (rule rename_bucket_row_ok [OF ok b(3)]) (use mem [OF b(1)] b(2) keyed_ok_eqD [OF ids] in metis)
  then show ?thesis
    using r ok unfolding rename_bucket_def Let_def by (simp split: option.splits if_split_asm)
qed

lemma set_bucket_owner_ok [op_ok]: "set_bucket_owner i a d = (x, d') \<Longrightarrow> db_ok d \<Longrightarrow> db_ok d'"
proof -
  assume r: "set_bucket_owner i a d = (x, d')" and ok: "db_ok d"
  have "db_ok (buckets_update (update_where (\<lambda>x. bucket_id x = i) (\<lambda>x. x\<lparr>owner_account_id := Some a\<rparr>)) d)"
    if "get_account_by_id a d = Some ac" for ac
    using that unfolding get_account_by_id_def by (intro set_owner_ok ok) (auto dest: acc_tbl.row_mem)
  then show ?thesis
    using r ok unfolding set_bucket_owner_def Let_def by (simp split: option.splits if_split_asm)
qed

lemma delete_bucket_ok [op_ok]: "delete_bucket i d = (x, d') \<Longrightarrow> db_ok d \<Longrightarrow> db_ok d'"
proof -
  assume r: "delete_bucket i d = (x, d')" and ok: "db_ok d"
  let ?bk = "delete_where (\<lambda>x. bucket_id x = i) (buckets d)"
  let ?rp = "delete_where (\<lambda>p. rbp_bucket_id p = i) (role_perms d)"
  let ?nd = "delete_where (\<lambda>n. bna_bucket_id n = i) (repl_peers d)"
  let ?ids = "bucket_id ` set (buckets d) - {i}"
  have ids: "bucket_id ` set ?bk = ?ids" by (auto simp: set_delete_where)
  note p = ok [unfolded db_ok_parts]
  have refs: "fk rbp_bucket_id ?rp ?ids" "fk bna_bucket_id ?nd ?ids"
    using p by (auto simp: fk_def set_delete_where)
  have "db_ok (d\<lparr>buckets := ?bk, role_perms := ?rp, repl_peers := ?nd\<rparr>)"
    if b: "get_bucket_by_id i d = Some b" "bucket_name b \<noteq> ''storage''"
      and no: "\<not> count_where (\<lambda>r. obj_bucket_id r = i) (objects d) > 0"
        "\<not> (\<exists>s \<in> set (share_links d). share_bucket_id s = i)" for b
  proof -
    have mem: "b \<in> set (buckets d)" "bucket_id b = i"
      using b(1) unfolding get_bucket_by_id_def using bkt_tbl.row_mem by blast+
    have "fk obj_bucket_id (objects d) ?ids" "fk share_bucket_id (share_links d) ?ids"
      using p no by (auto simp: fk_def count_where_pos)
    moreover have "''storage'' \<in> bucket_name ` set ?bk"
    proof -
      have "keyed_ok bucket_id (buckets d) (next_bucket_id d)" using p by simp
      moreover have "''storage'' \<in> bucket_name ` set (buckets d)" using p by simp
      ultimately show ?thesis
        using mem b(2) keyed_ok_eqD by (fastforce simp: set_delete_where)
    qed
    ultimately show ?thesis using p refs unfolding db_ok_parts by (simp add: ids)
  qed
  then show ?thesis
    using r ok unfolding delete_bucket_def by (simp split: if_split_asm option.splits)
qed

lemma set_recycle_retention_ok [op_ok]: "set_recycle_retention v u d = (x, d') \<Longrightarrow> db_ok d \<Longrightarrow> db_ok d'"
  by (auto simp: set_recycle_retention_def Let_def split: if_split_asm intro!: settings_ok)


section \<open>Operations on nodes, jobs and shares\<close>

lemma upsert_peer_ok [stmt_ok]: "db_ok d \<Longrightarrow> db_ok (upsert_peer i e d)"
  by (auto simp: upsert_peer_def intro!: insert_peer_ok update_peers_ok)

lemma update_peer_heartbeat_ok [stmt_ok]: "db_ok d \<Longrightarrow> db_ok (update_peer_heartbeat i t d)"
  by (simp add: update_peer_heartbeat_def update_peers_ok)

lemma active_peer_mem: "active_peer p d \<Longrightarrow> p \<in> peer_id ` set (peers d)"
  by (auto simp: active_peer_def dest: select_one_Some)

lemma insert_targets_ok [stmt_ok]:
  "db_ok d \<Longrightarrow> b \<in> bucket_id ` set (buckets d) \<Longrightarrow> db_ok (insert_targets b ps d)"
proof (induction b ps d rule: insert_targets.induct)
  case (2 b p ps d)
  have "db_ok (repl_peers_update (\<lambda>rows. rows @ [\<lparr>bna_bucket_id = b, bna_peer_id = p,
      allocated_bytes = DEFAULT_NODE_ALLOCATED_BYTES, quota_mode = Soft\<rparr>]) d)"
    if "active_peer p d" "node_row b p d = None"
    by (rule insert_node_ok) (use 2 that active_peer_mem in simp_all)
  with 2 show ?case by simp
qed simp

lemma set_bucket_replication_ok [op_ok]: "set_bucket_replication b all ps d = (x, d') \<Longrightarrow> db_ok d \<Longrightarrow> db_ok d'"
proof -
  assume r: "set_bucket_replication b all ps d = (x, d')" and ok: "db_ok d"
  let ?d2 = "repl_peers_update (delete_where (\<lambda>n. bna_bucket_id n = b))
      (buckets_update (update_where (\<lambda>x. bucket_id x = b) (\<lambda>x. x\<lparr>replicate_to_all := all\<rparr>)) d)"
  have "db_ok ?d2" by (intro delete_nodes_ok update_buckets_ok ok) simp_all
  moreover have "b \<in> bucket_id ` set (buckets ?d2)" if "count_where (\<lambda>x. bucket_id x = b) (buckets d) \<noteq> 0"
    using that by (auto simp: count_where_0)
  ultimately have "db_ok (insert_targets b ps ?d2)" if "count_where (\<lambda>x. bucket_id x = b) (buckets d) \<noteq> 0"
    using that insert_targets_ok by blast
  then show ?thesis
    using r ok \<open>db_ok ?d2\<close> unfolding set_bucket_replication_def Let_def
    by (simp split: if_split_asm)
qed

lemma insert_node_op_ok:
  "insert_node b p n m d = (x, d') \<Longrightarrow> db_ok d \<Longrightarrow> node_row b p d = None \<Longrightarrow> db_ok d'"
  by (auto simp: insert_node_def split: if_split_asm intro!: insert_node_ok)

lemma ensure_bucket_node_assignment_ok [op_ok]:
  "ensure_bucket_node_assignment b p n m d = (x, d') \<Longrightarrow> db_ok d \<Longrightarrow> db_ok d'"
  by (auto simp: ensure_bucket_node_assignment_def split: if_split_asm dest: insert_node_op_ok)

lemma clear_replicate_ok [stmt_ok]: "db_ok d \<Longrightarrow> db_ok (clear_replicate_to_all b d)"
  by (simp add: clear_replicate_to_all_def update_buckets_ok)

lemma update_node_ok [stmt_ok]: "db_ok d \<Longrightarrow> db_ok (update_node b p n m d)"
  by (simp add: update_node_def update_nodes_ok)

lemma assign_bucket_node_ok [op_ok]: "assign_bucket_node b p n m d = (x, d') \<Longrightarrow> db_ok d \<Longrightarrow> db_ok d'"
  by (auto simp: assign_bucket_node_def Let_def split: if_split_asm prod.splits sum.splits
      intro: stmt_ok dest: insert_node_op_ok [OF _ clear_replicate_ok])

lemma update_bucket_node_ok [op_ok]: "update_bucket_node b p n m d = (x, d') \<Longrightarrow> db_ok d \<Longrightarrow> db_ok d'"
  by (auto simp: update_bucket_node_def Let_def split: if_split_asm option.splits
      intro: update_node_ok clear_replicate_ok)

lemma remove_bucket_node_ok [op_ok]: "remove_bucket_node b p l d = (x, d') \<Longrightarrow> db_ok d \<Longrightarrow> db_ok d'"
  by (auto simp: remove_bucket_node_def split: if_split_asm intro: clear_replicate_ok delete_nodes_ok)

lemma ensure_assignments_ok [op_ok]: "ensure_assignments bs p d = (x, d') \<Longrightarrow> db_ok d \<Longrightarrow> db_ok d'"
  by (induction bs p d rule: ensure_assignments.induct)
     (auto split: prod.splits sum.splits dest: ensure_bucket_node_assignment_ok)

lemma ensure_local_node_ok [op_ok]: "ensure_local_node n a d = (x, d') \<Longrightarrow> db_ok d \<Longrightarrow> db_ok d'"
  by (auto simp: ensure_local_node_def Let_def intro: upsert_peer_ok ensure_assignments_ok)

lemma update_bucket_fields_ok [stmt_ok]:
  "db_ok d \<Longrightarrow> (\<And>r. bucket_id (f r) = bucket_id r) \<Longrightarrow> (\<And>r. bucket_name (f r) = bucket_name r) \<Longrightarrow>
    (\<And>r. owner_account_id (f r) = owner_account_id r) \<Longrightarrow> db_ok (update_bucket f b d)"
  by (simp add: update_bucket_def update_buckets_ok)

lemma bucket_etag_ops_ok [op_ok]:
  "set_bucket_etag_type b t d = (x, d') \<Longrightarrow> db_ok d \<Longrightarrow> db_ok d'"
  "begin_bucket_etag_rehash b n d = (x, d') \<Longrightarrow> db_ok d \<Longrightarrow> db_ok d'"
  by (auto simp: set_bucket_etag_type_def begin_bucket_etag_rehash_def split: if_split_asm
      intro: update_bucket_fields_ok)

lemma bucket_etag_progress_ok [stmt_ok]:
  "db_ok d \<Longrightarrow> db_ok (bump_bucket_etag_rehash_processed b d)"
  "db_ok d \<Longrightarrow> db_ok (finish_bucket_etag_rehash b st e d)"
  by (simp_all add: bump_bucket_etag_rehash_processed_def finish_bucket_etag_rehash_def update_bucket_fields_ok)

lemma objects_ok_keep:
  assumes ok: "objects_ok d" and "\<And>r. obj_id (f r) = obj_id r" "\<And>r. filepath (f r) = filepath r"
    "\<And>r. obj_bucket_id (f r) = obj_bucket_id r" "\<And>r. original_filename (f r) = original_filename r"
    "\<And>r. obj_active (f r) = obj_active r"
  shows "objects_ok (objects_update (update_where P f) d)"
  by (rule objects_ok_update [OF ok]) (use assms active_keyD [OF ok] in \<open>auto split: if_split_asm\<close>)

lemma update_object_etag_ok [op_ok]: "update_object_etag i t e now d = (x, d') \<Longrightarrow> db_ok d \<Longrightarrow> db_ok d'"
proof -
  assume r: "update_object_etag i t e now d = (x, d')" and ok: "db_ok d"
  let ?d1 = "objects_update (update_where (\<lambda>r. obj_id r = i \<and> obj_active r)
      (\<lambda>r. r\<lparr>obj_etag_type := t, etag := e, date_modified := now\<rparr>)) d"
  have "objects_ok ?d1" by (rule objects_ok_keep) (use ok in \<open>simp_all add: db_ok_def obj_active_def\<close>)
  then have "db_ok ?d1" by (intro update_objects_ok ok) simp_all
  then show ?thesis using r ok by (auto simp: update_object_etag_def split: if_split_asm)
qed

lemma target_peers_mem:
  "p \<in> set (target_peers i n d) \<Longrightarrow> p \<in> set (peers d) \<and> is_active p \<and> peer_id p \<noteq> n \<and> i \<in> obj_id ` set (objects d)"
proof (cases "get_object_by_id i d")
  case (Some r)
  then have "r \<in> set (objects d)" "obj_id r = i"
    unfolding get_object_by_id_def using obj_tbl.row_mem by blast+
  with Some show "p \<in> set (target_peers i n d) \<Longrightarrow> ?thesis"
    by (auto simp: target_peers_def set_select_where split: option.splits)
qed (simp add: target_peers_def)

lemma insert_job_frame [simp]:
  "peers (insert_job mk d) = peers d" "objects (insert_job mk d) = objects d" "buckets (insert_job mk d) = buckets d"
  "repl_peers (insert_job mk d) = repl_peers d"
  by (simp_all add: insert_job_def)

lemma enqueue_ok [op_ok]: "enqueue_for_active_peers opn i fp tag ex now d = (x, d') \<Longrightarrow> db_ok d \<Longrightarrow> db_ok d'"
proof -
  have "db_ok d \<Longrightarrow> \<forall>p \<in> set ps. p \<in> set (peers d) \<and> i \<in> obj_id ` set (objects d) \<Longrightarrow>
      db_ok (foldl (\<lambda>d p. insert_job (new_job (peer_id p) i fp tag opn now) d) d ps)" for ps
  proof (induction ps arbitrary: d)
    case (Cons p ps)
    have "db_ok (insert_job (new_job (peer_id p) i fp tag opn now) d)"
      by (rule insert_job_row_ok) (use Cons.prems in \<open>auto simp: new_job_def\<close>)
    with Cons show ?case by simp
  qed simp
  then show "enqueue_for_active_peers opn i fp tag ex now d = (x, d') \<Longrightarrow> db_ok d \<Longrightarrow> db_ok d'"
    unfolding enqueue_for_active_peers_def Let_def using target_peers_mem by blast
qed

lemma enqueue_put_for_peer_ok [op_ok]: "enqueue_put_for_peer p i fp tag now d = (x, d') \<Longrightarrow> db_ok d \<Longrightarrow> db_ok d'"
  by (auto simp: enqueue_put_for_peer_def new_job_def split: if_split_asm intro!: insert_job_row_ok)

lemma set_in_flight_ok [stmt_ok]: "db_ok d \<Longrightarrow> db_ok (set_in_flight i d)"
  by (simp add: set_in_flight_def update_jobs_ok)

lemma claim_outbox_jobs_ok [op_ok]: "claim_outbox_jobs n now d = (x, d') \<Longrightarrow> db_ok d \<Longrightarrow> db_ok d'"
proof -
  have "db_ok d \<Longrightarrow> db_ok (foldl (\<lambda>d j. set_in_flight (oj_id j) d) d js)" for js
    by (induction js arbitrary: d) (simp_all add: set_in_flight_ok)
  then show "claim_outbox_jobs n now d = (x, d') \<Longrightarrow> db_ok d \<Longrightarrow> db_ok d'"
    by (auto simp: claim_outbox_jobs_def Let_def)
qed

lemma complete_outbox_job_ok [stmt_ok]: "db_ok d \<Longrightarrow> db_ok (complete_outbox_job i d)"
  by (simp add: complete_outbox_job_def delete_jobs_ok)

lemma fail_outbox_job_ok [stmt_ok]: "db_ok d \<Longrightarrow> db_ok (fail_outbox_job i now d)"
  by (simp add: fail_outbox_job_def fail_job_def update_jobs_ok)

lemma insert_share_ok [op_ok]: "insert_share t c b k kd m e cr now d = (x, d') \<Longrightarrow> db_ok d \<Longrightarrow> db_ok d'"
  by (auto simp: insert_share_def split: if_split_asm intro!: insert_share_row_ok)

lemma insert_share_users_ok [op_ok]: "insert_share_users s as d = (x, d') \<Longrightarrow> db_ok d \<Longrightarrow> db_ok d'"
  by (induction s as d rule: insert_share_users.induct)
     (auto split: if_split_asm dest: insert_share_user_ok)

lemma try_create_share_ok [op_ok]:
  "try_create_share ds sh b k kd m e cr as now d = (x, d') \<Longrightarrow> db_ok d \<Longrightarrow> db_ok d'"
  by (induction ds sh b k kd m e cr as now d rule: try_create_share.induct)
     (auto simp: Let_def split: prod.splits sum.splits if_split_asm option.splits
       dest: insert_share_ok insert_share_users_ok)

lemma create_share_ok [op_ok]:
  "create_share dr b k kd m e cr as sh now d = (x, d') \<Longrightarrow> db_ok d \<Longrightarrow> db_ok d'"
  by (auto simp: create_share_def split: if_split_asm dest: try_create_share_ok)

lemma revoke_share_ok [op_ok]: "revoke_share i a ow now d = (x, d') \<Longrightarrow> db_ok d \<Longrightarrow> db_ok d'"
  by (auto simp: revoke_share_def split: if_split_asm option.splits intro!: update_shares_ok)

section \<open>Operations on objects\<close>

lemma soft_delete_rows_ok [stmt_ok]: "db_ok d \<Longrightarrow> db_ok (soft_delete_rows P now d)"
proof -
  assume ok: "db_ok d"
  then have "objects_ok (soft_delete_rows P now d)" by (simp add: db_ok_def objects_ok_soft_delete)
  then show ?thesis unfolding soft_delete_rows_def by (intro update_objects_ok ok) simp_all
qed

lemma soft_delete_ops_ok [op_ok]:
  "soft_delete_object_by_filename k b now d = (r, d') \<Longrightarrow> db_ok d \<Longrightarrow> db_ok d'"
  "soft_delete_prefix i pre now d = (n, d') \<Longrightarrow> db_ok d \<Longrightarrow> db_ok d'"
  by (auto simp: soft_delete_object_by_filename_def soft_delete_prefix_def Let_def
      split: option.splits intro: soft_delete_rows_ok)

lemma delete_object_ops_ok [op_ok]:
  "delete_object_by_filepath fp d = (q, d') \<Longrightarrow> db_ok d \<Longrightarrow> db_ok d'"
  "delete_object_by_filename_tx k d = (r, d') \<Longrightarrow> db_ok d \<Longrightarrow> db_ok d'"
  "hard_delete_object_tx i d = (r, d') \<Longrightarrow> db_ok d \<Longrightarrow> db_ok d'"
  by (auto simp: delete_object_by_filepath_def delete_object_by_filename_tx_def hard_delete_object_tx_def
      split: option.splits intro: delete_object_row_ok)

lemma insert_object_row_ok [op_ok]: "insert_object_row r d = (x, d') \<Longrightarrow> db_ok d \<Longrightarrow> db_ok d'"
proof -
  assume run: "insert_object_row r d = (x, d')" and inv: "db_ok d"
  have new: "objects_ok d'" using objects_ok_insert [OF _ run] inv by (simp add: db_ok_def)
  from run show "db_ok d'"
  proof (cases rule: insert_object_row_cases)
    case ok
    then show ?thesis using inv new unfolding db_ok_parts ok(2) by simp
  qed (use inv in simp)
qed

lemma insert_object_ops_ok [op_ok]:
  "insert_object_tx fname fp fmt n et tag b now d = (x, d') \<Longrightarrow> db_ok d \<Longrightarrow> db_ok d'"
  "insert_object_idempotent fname fp fmt n es tag u m b now d = (y, d') \<Longrightarrow> db_ok d \<Longrightarrow> db_ok d'"
  by (auto simp: insert_object_tx_def insert_object_idempotent_def split: option.splits if_splits prod.splits sum.splits
      dest: insert_object_row_ok)

lemma restore_object_ok [op_ok]: "restore_object i now d = (x, d') \<Longrightarrow> db_ok d \<Longrightarrow> db_ok d'"
proof -
  assume r: "restore_object i now d = (x, d')" and ok: "db_ok d"
  have ok': "objects_ok d'" using objects_ok_restore [OF _ r] ok by (simp add: db_ok_def)
  consider "d' = d" | "d' = objects_update (update_where (\<lambda>x. obj_id x = i) (\<lambda>x. x\<lparr>deleted_at := None, date_modified := now\<rparr>)) d"
    using r unfolding restore_object_def Let_def by (auto split: option.splits if_split_asm)
  then show ?thesis
  proof cases
    case 2
    show ?thesis using ok' unfolding 2 by (intro update_objects_ok ok) simp_all
  qed (use ok in simp)
qed

lemma rename_prefix_ok [op_ok]: "rename_prefix b f t now d = (x, d') \<Longrightarrow> db_ok d \<Longrightarrow> db_ok d'"
proof -
  assume r: "rename_prefix b f t now d = (x, d')" and ok: "db_ok d"
  have ook: "objects_ok d" using ok by (simp add: db_ok_def)
  have ok': "objects_ok d'" by (rule objects_ok_rename [OF ook r])
  from r ook show ?thesis
  proof (cases rule: rename_prefix_cases)
    case (renamed rs)
    have k: "obj_id (renamed rs now r) = obj_id r" "obj_bucket_id (renamed rs now r) = obj_bucket_id r" for r
      by (simp_all add: renamed_def split: option.splits)
    have "fk obj_bucket_id (objects d) (bucket_id ` set (buckets d))" using ok unfolding db_ok_parts by simp
    then show ?thesis
      using ok' unfolding renamed(4)
      by (intro objects_table_ok ok) (simp_all add: image_image k fk_def)
  qed (use ok in simp_all)
qed


section \<open>The reachable databases\<close>

text \<open>One call of the repository, with any arguments, on the database as it is.\<close>

inductive db_step :: "db \<Rightarrow> db \<Rightarrow> bool" where
  "insert_object_tx fname fp fmt n et tag b now d = (x1, d') \<Longrightarrow> db_step d d'"
| "insert_object_idempotent fname fp fmt n es tag u m b now d = (x2, d') \<Longrightarrow> db_step d d'"
| "soft_delete_object_by_filename fname bo now d = (x3, d') \<Longrightarrow> db_step d d'"
| "soft_delete_prefix b pre now d = (x4, d') \<Longrightarrow> db_step d d'"
| "delete_object_by_filepath fp d = (x5, d') \<Longrightarrow> db_step d d'"
| "delete_object_by_filename_tx fname d = (x6, d') \<Longrightarrow> db_step d d'"
| "hard_delete_object_tx i d = (x7, d') \<Longrightarrow> db_step d d'"
| "restore_object i now d = (x8, d') \<Longrightarrow> db_step d d'"
| "rename_prefix b from_p to_p now d = (x9, d') \<Longrightarrow> db_step d d'"
| "update_object_etag i et tag now d = (x10, d') \<Longrightarrow> db_step d d'"
| "create_account argon salt u pw dn cb now d = (x11, d') \<Longrightarrow> db_step d d'"
| "set_account_disabled i dis now d = (x12, d') \<Longrightarrow> db_step d d'"
| "update_account_display_name i dn now d = (x13, d') \<Longrightarrow> db_step d d'"
| "set_account_password argon salt i pw now d = (x14, d') \<Longrightarrow> db_step d d'"
| "delete_account i d = (x15, d') \<Longrightarrow> db_step d d'"
| "create_role nm pos d = (x16, d') \<Longrightarrow> db_step d d'"
| "update_role i nmo poso d = (x17, d') \<Longrightarrow> db_step d d'"
| "delete_role i d = (x18, d') \<Longrightarrow> db_step d d'"
| "set_account_roles i rs d = (x19, d') \<Longrightarrow> db_step d d'"
| "assign_role i r d = (x20, d') \<Longrightarrow> db_step d d'"
| "upsert_role_permission r b p d = (x21, d') \<Longrightarrow> db_step d d'"
| "replace_role_permissions r ps d = (x22, d') \<Longrightarrow> db_step d d'"
| "create_session r32 i ttl now d = (x23, d') \<Longrightarrow> db_step d d'"
| "resolve_session tok now d = (x24, d') \<Longrightarrow> db_step d d'"
| "create_bucket nm i et now d = (x25, d') \<Longrightarrow> db_step d d'"
| "ensure_bucket nm now d = (x26, d') \<Longrightarrow> db_step d d'"
| "claim_unowned_buckets i d = (x27, d') \<Longrightarrow> db_step d d'"
| "rename_bucket b nm d = (x28, d') \<Longrightarrow> db_step d d'"
| "set_bucket_owner b i d = (x29, d') \<Longrightarrow> db_step d d'"
| "delete_bucket b d = (x30, d') \<Longrightarrow> db_step d d'"
| "set_recycle_retention v un d = (x31, d') \<Longrightarrow> db_step d d'"
| "set_bucket_replication b all ts d = (x32, d') \<Longrightarrow> db_step d d'"
| "ensure_bucket_node_assignment b pid bytes qm d = (x33, d') \<Longrightarrow> db_step d d'"
| "assign_bucket_node b pid bytes qm d = (x34, d') \<Longrightarrow> db_step d d'"
| "update_bucket_node b pid byteso qmo d = (x35, d') \<Longrightarrow> db_step d d'"
| "remove_bucket_node b pid loc d = (x36, d') \<Longrightarrow> db_step d d'"
| "set_bucket_etag_type b et d = (x37, d') \<Longrightarrow> db_step d d'"
| "begin_bucket_etag_rehash b n d = (x38, d') \<Longrightarrow> db_step d d'"
| "enqueue_for_active_peers opn i fp tag loc now d = (x39, d') \<Longrightarrow> db_step d d'"
| "enqueue_put_for_peer pid i fp tag now d = (x40, d') \<Longrightarrow> db_step d d'"
| "claim_outbox_jobs n now d = (x41, d') \<Longrightarrow> db_step d d'"
| "create_share draw b key kd md e i accts shorten now d = (x42, d') \<Longrightarrow> db_step d d'"
| "revoke_share i actor ow now d = (x43, d') \<Longrightarrow> db_step d d'"
| "db_step d (delete_session tok d)"
| "db_step d (delete_sessions_for_account i d)"
| "db_step d (upsert_peer pid ep d)"
| "db_step d (update_peer_heartbeat pid now d)"
| "db_step d (bump_bucket_etag_rehash_processed b d)"
| "db_step d (finish_bucket_etag_rehash b st eo d)"
| "db_step d (complete_outbox_job i d)"
| "db_step d (fail_outbox_job i now d)"

lemma db_step_ok: "db_step d d' \<Longrightarrow> db_ok d \<Longrightarrow> db_ok d'"
  by (erule db_step.cases)
     ((hypsubst, erule op_ok, assumption)+,
      (hypsubst, rule delete_session_ok delete_sessions_for_account_ok upsert_peer_ok update_peer_heartbeat_ok
        bucket_etag_progress_ok complete_outbox_job_ok fail_outbox_job_ok, assumption)+)

interpretation db_sys: invariant_system "\<lambda>d. \<exists>now. d = initial_db now" db_step db_ok
proof
  show "\<exists>now. d = initial_db now \<Longrightarrow> db_ok d" for d using initial_db_ok by blast
  show "db_ok d \<Longrightarrow> db_step d d' \<Longrightarrow> db_ok d'" for d d'
    by (rule db_step_ok)
qed

section \<open>Properties\<close>

text \<open>Whatever operations of the repository run, in whatever order and with whatever arguments,
  on a freshly migrated database: keys stay unique and below their counters, no bucket has two
  active objects of one key, every reference names an existing row, and the default bucket, an
  owner role and the settings row are never lost.\<close>

theorem reachable_db_ok:
  assumes "db_step\<^sup>*\<^sup>* (initial_db t0) d"
  shows "db_ok d"
  using db_sys.reachable_inv [OF _ assms] by blast

theorem reachable_db_ok_witness:
  "db_ok (snd (create_account (\<lambda>s p. Inr (s @ p)) ''salt'' ''ab'' ''pw'' ''Ann'' None 7 (initial_db 0)))"
proof -
  let ?run = "create_account (\<lambda>s p. Inr (s @ p)) ''salt'' ''ab'' ''pw'' ''Ann'' None 7 (initial_db 0)"
  let ?d = "snd ?run"
  have "?run = (fst ?run, ?d)" by simp
  then have "db_step (initial_db 0) ?d" by (rule db_step.intros(11))
  then have "db_step\<^sup>*\<^sup>* (initial_db 0) ?d" by blast
  then show ?thesis by (rule reachable_db_ok)
qed

end
