(* ===== verification/Keys.thy ===== *)
theory Keys
  imports Rust_Base
begin

text \<open>Object keys and folder prefixes as the handlers normalize them: \<open>src/server/keys.rs\<close>.\<close>

definition bad_segment :: "string \<Rightarrow> bool" where
  "bad_segment seg \<longleftrightarrow> seg = [] \<or> seg = ''.'' \<or> seg = ''..''"

definition normalize_object_key :: "string \<Rightarrow> string + string" where
  "normalize_object_key raw =
     (let key = trim_start_char (CHR ''/'') (trim raw) in
      if key = [] then Inl ''object key must not be empty''
      else if \<exists>seg \<in> set (split_on (CHR ''/'') key). bad_segment seg
      then Inl ''object key contains invalid path segment''
      else Inr key)"

definition normalize_folder_prefix :: "string \<Rightarrow> string + string" where
  "normalize_folder_prefix raw =
     (let key = trim_start_char (CHR ''/'') (trim raw) in
      if key = [] \<or> key = ''/'' then Inl ''folder prefix must not be empty''
      else
        let key = trim_end_char (CHR ''/'') key in
        if key = [] then Inl ''folder prefix must not be empty''
        else if \<exists>seg \<in> set (split_on (CHR ''/'') key). bad_segment seg
        then Inl ''folder prefix contains invalid path segment''
        else Inr (key @ ''/''))"

section \<open>What normalized keys look like\<close>

text \<open>Keys that name a path: no empty, \<open>.\<close> or \<open>..\<close> segment.\<close>

definition valid_key :: "string \<Rightarrow> bool" where
  "valid_key k \<longleftrightarrow> (\<forall>seg \<in> set (split_on (CHR ''/'') k). \<not> bad_segment seg)"

lemma normalize_object_key_Inr:
  "normalize_object_key raw = Inr k \<longleftrightarrow> k = trim_start_char (CHR ''/'') (trim raw) \<and> valid_key k"
  by (auto simp: normalize_object_key_def Let_def valid_key_def bad_segment_def)

lemma normalize_folder_prefix_Inr:
  assumes "normalize_folder_prefix raw = Inr p"
  obtains k where "p = k @ ''/''" "valid_key k"
proof -
  define k where "k = trim_end_char (CHR ''/'') (trim_start_char (CHR ''/'') (trim raw))"
  have "p = k @ ''/''" "valid_key k"
    using assms unfolding normalize_folder_prefix_def Let_def k_def [symmetric] valid_key_def
    by (simp_all split: if_split_asm)
  then show thesis by (rule that)
qed

lemma bad_segment_Nil [simp]: "bad_segment []"
  by (simp add: bad_segment_def)

lemma valid_key_Nil [simp]: "\<not> valid_key []"
  by (simp add: valid_key_def)

lemma valid_key_nonempty: "valid_key k \<Longrightarrow> k \<noteq> []"
  by (cases k) simp_all

lemma valid_key_hd: "valid_key k \<Longrightarrow> hd k \<noteq> CHR ''/''"
proof
  assume v: "valid_key k" and h: "hd k = CHR ''/''"
  then obtain cs where "k = CHR ''/'' # cs" using valid_key_nonempty [OF v] by (metis list.collapse)
  then show False using v by (simp add: valid_key_def)
qed

lemma valid_key_last: "valid_key k \<Longrightarrow> last k \<noteq> CHR ''/''"
proof
  assume v: "valid_key k" and l: "last k = CHR ''/''"
  then obtain a where "k = a @ [CHR ''/'']"
    using valid_key_nonempty [OF v] by (metis append_butlast_last_id)
  then show False using v by (simp add: valid_key_def split_on_snoc_sep)
qed

lemma valid_key_child: "valid_key (a @ CHR ''/'' # b) \<longleftrightarrow> valid_key a \<and> valid_key b"
  by (simp add: valid_key_def split_on_app ball_Un)

end
