(* ===== verification/Sharing.thy ===== *)
theory Sharing
  imports Invariants Keys
begin

text \<open>
  What keys and share links promise (\<open>src/server/keys.rs\<close>, \<open>src/db/shares.rs\<close>): normalized keys are
  path-safe, a listing stays inside the shared folder, a created link leads to what was asked for, and
  a revoked one is dead.
\<close>

section \<open>Keys\<close>

lemma valid_key_join:
  "valid_key k \<longleftrightarrow> (\<exists>segs. k = join ''/'' segs \<and> segs \<noteq> []
     \<and> list_all (\<lambda>s. s \<noteq> [] \<and> s \<noteq> ''.'' \<and> s \<noteq> ''..'' \<and> CHR ''/'' \<notin> set s) segs)"
proof
  assume v: "valid_key k"
  let ?segs = "split_on (CHR ''/'') k"
  have "list_all (\<lambda>s. s \<noteq> [] \<and> s \<noteq> ''.'' \<and> s \<noteq> ''..'' \<and> CHR ''/'' \<notin> set s) ?segs"
    unfolding list_all_iff
  proof
    fix s assume "s \<in> set ?segs"
    with v split_on_no_sep [OF this] show "s \<noteq> [] \<and> s \<noteq> ''.'' \<and> s \<noteq> ''..'' \<and> CHR ''/'' \<notin> set s"
      unfolding valid_key_def bad_segment_def by blast
  qed
  then show "\<exists>segs. k = join ''/'' segs \<and> segs \<noteq> []
     \<and> list_all (\<lambda>s. s \<noteq> [] \<and> s \<noteq> ''.'' \<and> s \<noteq> ''..'' \<and> CHR ''/'' \<notin> set s) segs"
    by (intro exI [of _ ?segs] conjI) (rule join_split_on [symmetric], rule split_on_nonempty)
next
  assume "\<exists>segs. k = join ''/'' segs \<and> segs \<noteq> []
     \<and> list_all (\<lambda>s. s \<noteq> [] \<and> s \<noteq> ''.'' \<and> s \<noteq> ''..'' \<and> CHR ''/'' \<notin> set s) segs"
  then obtain segs where k: "k = join ''/'' segs" "segs \<noteq> []"
    and ok: "\<forall>s \<in> set segs. s \<noteq> [] \<and> s \<noteq> ''.'' \<and> s \<noteq> ''..'' \<and> CHR ''/'' \<notin> set s" unfolding list_all_iff by blast
  have "split_on (CHR ''/'') k = segs" unfolding k(1) by (rule split_on_join [OF k(2)]) (use ok in blast)
  with ok show "valid_key k" unfolding valid_key_def bad_segment_def by simp
qed

text \<open>C27: A key is accepted exactly if, trimmed of white space and of the slashes before it, it is one or more segments
  with single slashes between them, none of them empty, \<open>.\<close> or \<open>..\<close>; and then that is the key that is used. So an
  accepted key can be joined to a directory without leaving it.\<close>

theorem normalize_object_key_safe:
  "normalize_object_key raw = Inr k \<longleftrightarrow>
     (\<exists>n segs. trim raw = replicate n (CHR ''/'') @ k \<and> k = join ''/'' segs \<and> segs \<noteq> []
        \<and> list_all (\<lambda>s. s \<noteq> [] \<and> s \<noteq> ''.'' \<and> s \<noteq> ''..'' \<and> CHR ''/'' \<notin> set s) segs)"
proof -
  have drop: "trim_start_char (CHR ''/'') (replicate n (CHR ''/'') @ k) = k" if "valid_key k" for n
    using valid_key_nonempty [OF that] valid_key_hd [OF that]
    by (cases k) (simp_all add: trim_start_char_def dropWhile_append)
  have "k = trim_start_char (CHR ''/'') s \<and> valid_key k \<longleftrightarrow> (\<exists>n. s = replicate n (CHR ''/'') @ k) \<and> valid_key k" for s
  proof -
    have "takeWhile (\<lambda>c. c = CHR ''/'') s = replicate (length (takeWhile (\<lambda>c. c = CHR ''/'') s)) (CHR ''/'')"
      by (rule replicate_eqI) (auto dest: set_takeWhileD)
    then have "\<exists>n. s = replicate n (CHR ''/'') @ trim_start_char (CHR ''/'') s"
      unfolding trim_start_char_def using takeWhile_dropWhile_id by metis
    then show ?thesis using drop by metis
  qed
  then show ?thesis unfolding normalize_object_key_Inr valid_key_join by blast
qed

theorem normalize_object_key_safe_witness:
  "normalize_object_key '' //photos/2024/cat.jpg'' = Inr ''photos/2024/cat.jpg''
   \<and> normalize_object_key ''a/../b'' \<noteq> Inr ''a/../b''"
proof -
  have "normalize_object_key '' //photos/2024/cat.jpg'' = Inr ''photos/2024/cat.jpg''"
    unfolding normalize_object_key_safe
    by (rule exI [of _ 2], rule exI [of _ "[''photos'', ''2024'', ''cat.jpg'']"]) code_simp
  moreover have "normalize_object_key ''a/../b'' \<noteq> Inr ''a/../b''" by code_simp
  ultimately show ?thesis ..
qed

section \<open>The scope of a share\<close>

text \<open>However a visitor of a folder share writes the sub-folder to list, the prefix that is listed lies
  inside the share: every key under it is in the share's scope, and it has no \<open>.\<close>, \<open>..\<close> or empty
  segment when a sub-folder was given.\<close>

theorem resolve_list_prefix_confined:
  assumes "resolve_list_prefix s relative = Inr p"
  shows "starts_with p (target_key s) \<and> (\<forall>k. starts_with k p \<longrightarrow> key_in_share_scope s k)
    \<and> (nonempty_trimmed relative \<noteq> None \<longrightarrow> valid_key (trim_end_char (CHR ''/'') p))"
proof -
  have kind: "target_kind s = Folder" and st: "starts_with p (target_key s)"
    using assms unfolding resolve_list_prefix_def Let_def
    by (auto simp: starts_with_iff split: option.splits if_split_asm)
  have "key_in_share_scope s k" if "starts_with k p" for k
    using starts_with_trans [OF that st] kind by (simp add: key_in_share_scope_def)
  moreover have "valid_key (trim_end_char (CHR ''/'') p)" if "nonempty_trimmed relative = Some rel" for rel
  proof -
    show ?thesis
      using assms kind that unfolding resolve_list_prefix_def Let_def valid_key_def bad_segment_def
      by (auto split: if_split_asm)
  qed
  ultimately show ?thesis using st by blast
qed

definition demo_share :: "string \<Rightarrow> share_target_kind \<Rightarrow> share_link_record" where
  "demo_share key kind = \<lparr>share_id = 1, share_token = ''tok'', short_code = None, share_bucket_id = 1,
     target_key = key, target_kind = kind, access_mode = Public, expires_at = None,
     share_created_by = 1, share_created_at = 0, revoked_at = None\<rparr>"

theorem resolve_list_prefix_confined_witness:
  "key_in_share_scope (demo_share ''photos/'' Folder) ''photos/2024/cat.jpg'' \<and> valid_key ''photos/2024''"
proof -
  have "resolve_list_prefix (demo_share ''photos/'' Folder) (Some ''/2024'') = Inr ''photos/2024/''"
    "starts_with ''photos/2024/cat.jpg'' ''photos/2024/''" "nonempty_trimmed (Some ''/2024'') \<noteq> None"
    "trim_end_char (CHR ''/'') ''photos/2024/'' = ''photos/2024''" by code_simp+
  with resolve_list_prefix_confined [OF this(1)] show ?thesis by metis
qed

text \<open>The query for the shares that cover a key treats the shared folder's name as a pattern: a share of the
  folder \<open>a_b/\<close> is returned for the key \<open>axb/f\<close>, which is outside its scope.\<close>

theorem covering_share_out_of_scope:
  "let s = demo_share ''a_b/'' Folder; d = (initial_db 0)\<lparr>share_links := [s]\<rparr> in
   list_shares_covering_key 1 ''axb/f'' d = [s] \<and> \<not> key_in_share_scope s ''axb/f''"
  by code_simp

section \<open>Creating and revoking\<close>

lemma insert_share_users_fresh:
  "insert_share_users s bs d = (Inr (), d') \<Longrightarrow> b \<in> set bs \<Longrightarrow> (s, b) \<notin> set (share_users d)"
proof (induction bs arbitrary: d)
  case (Cons a bs)
  have new: "(s, a) \<notin> set (share_users d)"
    and run: "insert_share_users s bs (share_users_update (\<lambda>rows. rows @ [(s, a)]) d) = (Inr (), d')"
    using Cons.prems by (simp_all split: if_split_asm)
  show ?case
  proof (cases "b = a")
    case False
    with Cons.prems(2) Cons.IH [OF run] show ?thesis by simp
  qed (use new in simp)
qed simp

lemma insert_share_users_Inr:
  "insert_share_users s as d = (Inr (), d') \<Longrightarrow>
     d' = share_users_update (\<lambda>rows. rows @ map (Pair s) as) d \<and> distinct as"
proof (induction as arbitrary: d)
  case (Cons a as)
  have new: "(s, a) \<notin> set (share_users d)"
    and run: "insert_share_users s as (share_users_update (\<lambda>rows. rows @ [(s, a)]) d) = (Inr (), d')"
    using Cons.prems by (simp_all split: if_split_asm)
  have "a \<notin> set as"
  proof
    assume "a \<in> set as"
    from insert_share_users_fresh [OF run this] show False by simp
  qed
  then show ?case using Cons.IH [OF run] by simp
qed simp

lemma insert_share_Inl:
  "fst (insert_share tok code b k kd m e cr now d) = Inl err \<Longrightarrow>
     insert_share tok code b k kd m e cr now d = (Inl err, d)"
  by (cases "tok \<in> share_token ` set (share_links d)"; cases "code \<noteq> None \<and> code \<in> short_code ` set (share_links d)";
      cases "b \<notin> bucket_id ` set (buckets d) \<or> cr \<notin> account_id ` set (accounts d)")
    (simp_all only: insert_share_def if_True if_False simp_thms fst_conv sum.inject sum.distinct)

lemma try_create_share_Inr:
  assumes "try_create_share ds sh b k kd m e cr as now d = (Inr s, d')" and "db_ok d"
  shows "\<exists>tok code. s = \<lparr>share_id = next_share_id d, share_token = tok, short_code = code, share_bucket_id = b,
      target_key = k, target_kind = kd, access_mode = m, expires_at = e, share_created_by = cr,
      share_created_at = now, revoked_at = None\<rparr>
    \<and> (code = None \<longleftrightarrow> \<not> sh) \<and> tok \<notin> share_token ` set (share_links d) \<and> share_links d' = share_links d @ [s]
    \<and> (m = SpecificUsers \<longrightarrow> share_users d' = share_users d @ map (Pair (next_share_id d)) as \<and> distinct as)
    \<and> (m \<noteq> SpecificUsers \<longrightarrow> share_users d' = share_users d)"
  using assms
proof (induction ds)
  case (Cons tc ds)
  obtain t c where tc: "tc = (t, c)" by force
  define code where "code = (if sh then Some (random_share_code c) else None)"
  let ?ins = "insert_share (random_share_code t) code b k kd m e cr now d"
  show ?case
  proof (cases "fst ?ins")
    case (Inl err)
    then have fail: "?ins = (Inl err, d)" by (rule insert_share_Inl)
    have "try_create_share ds sh b k kd m e cr as now d = (Inr s, d')"
      using Cons.prems(1) unfolding tc try_create_share.simps Let_def code_def [symmetric] fail
      by (simp only: prod.case sum.case split: if_split_asm) simp
    then show ?thesis using Cons.IH Cons.prems(2) by blast
  next
    case (Inr i)
    define row where "row = \<lparr>share_id = next_share_id d, share_token = random_share_code t, short_code = code,
        share_bucket_id = b, target_key = k, target_kind = kd, access_mode = m, expires_at = e,
        share_created_by = cr, share_created_at = now, revoked_at = None\<rparr>"
    define d1 where "d1 = share_links_update (\<lambda>rows. rows @ [row]) (next_share_id_update (\<lambda>n. n + 1) d)"
    have ins: "?ins = (Inr (next_share_id d), d1)" and tok: "random_share_code t \<notin> share_token ` set (share_links d)"
      using Inr unfolding insert_share_def row_def [symmetric] d1_def by (simp_all split: if_split_asm)
    obtain r d2 where add: "(if m = SpecificUsers then insert_share_users (next_share_id d) as d1 else (Inr (), d1)) = (r, d2)"
      by fastforce
    have run: "(case r of Inl err \<Rightarrow> (Inl err, d2)
        | Inr _ \<Rightarrow> (case get_share_by_id (next_share_id d) d2 of
            None \<Rightarrow> (Inl (Bail ''share missing after insert''), d2) | Some s \<Rightarrow> (Inr s, d2))) = (Inr s, d')"
      using Cons.prems(1) unfolding tc try_create_share.simps Let_def code_def [symmetric] ins
      by (simp only: prod.case sum.case add)
    then have res: "r = Inr ()" "d2 = d'" and got: "get_share_by_id (next_share_id d) d' = Some s"
      by (auto split: sum.splits option.splits)
    have users: "(if m = SpecificUsers then insert_share_users (next_share_id d) as d1 else (Inr (), d1)) = (Inr (), d')"
      using add res by simp
    have d': "share_links d' = share_links d @ [row]"
      "m = SpecificUsers \<Longrightarrow> share_users d' = share_users d @ map (Pair (next_share_id d)) as \<and> distinct as"
      "m \<noteq> SpecificUsers \<Longrightarrow> share_users d' = share_users d"
      using users insert_share_users_Inr [of "next_share_id d" as d1 d'] by (auto simp: d1_def split: if_split_asm)
    have below: "\<forall>r \<in> set (share_links d). share_id r < next_share_id d"
      using Cons.prems(2) unfolding db_ok_parts keyed_ok_def by blast
    then have "find (\<lambda>r. share_id r = next_share_id d) (share_links d) = None"
      by (auto simp: find_None_iff)
    then have "get_share_by_id (next_share_id d) d' = Some row"
      unfolding get_share_by_id_def row_by_def d'(1) select_one_def find_append
      by (simp add: row_def)
    with got have "s = row" by simp
    moreover have "code = None \<longleftrightarrow> \<not> sh" by (simp add: code_def)
    ultimately show ?thesis using d' tok unfolding row_def by blast
  qed
qed simp

lemma ieq_list: "list_all2 ieq p t \<longleftrightarrow> ascii_lower t = ascii_lower p"
proof -
  have "list_all2 ieq p t \<longleftrightarrow> map ascii_lower_char p = map ascii_lower_char t"
    by (induction p arbitrary: t) (auto simp: list_all2_Cons1 ieq_def Cons_eq_map_conv)
  then show ?thesis by (auto simp: ascii_lower_def)
qed

lemma iprefix_lower:
  "iprefix p t \<longleftrightarrow> (\<exists>front rest. t = front @ rest \<and> ascii_lower front = ascii_lower p)"
proof
  assume "iprefix p t"
  then have "ascii_lower (take (length p) t) = ascii_lower p" by (simp add: iprefix_def ieq_list)
  then show "\<exists>front rest. t = front @ rest \<and> ascii_lower front = ascii_lower p"
    by (intro exI [of _ "take (length p) t"] exI [of _ "drop (length p) t"]) simp
next
  assume "\<exists>front rest. t = front @ rest \<and> ascii_lower front = ascii_lower p"
  then obtain front rest where t: "t = front @ rest" "ascii_lower front = ascii_lower p" by blast
  then have "length front = length p" unfolding ascii_lower_def by (metis length_map)
  then show "iprefix p t" using t by (simp add: iprefix_def ieq_list)
qed

text \<open>C29: A share that was created is found by its token, is in force (unless it was given an expiry already
  past), and leads to what was asked for: a file share only to the key of an active object of the bucket, a folder
  share only to a prefix that an active object of the bucket has, up to the case of ASCII letters (the query is a
  LIKE); a share for specific users has at least one recipient, and exactly the ones given.\<close>

theorem create_share_correct:
  assumes "db_ok d" and "create_share draw b key kd m e cr as sh now d = (Inr s, d')"
  shows "get_share_by_token (share_token s) d' = Some s
    \<and> share_bucket_id s = b \<and> target_key s = key \<and> target_kind s = kd \<and> access_mode s = m \<and> share_created_by s = cr
    \<and> (short_code s = None \<longleftrightarrow> \<not> sh)
    \<and> (\<forall>t. share_is_usable s t = Inr () \<longleftrightarrow> (\<forall>x. e = Some x \<longrightarrow> t \<le> x))
    \<and> (\<exists>r \<in> set (objects d). obj_bucket_id r = b \<and> deleted_at r = None
        \<and> (case kd of File \<Rightarrow> original_filename r = key
           | Folder \<Rightarrow> \<exists>front rest. original_filename r = front @ rest \<and> ascii_lower front = ascii_lower key))
    \<and> list_share_recipients (share_id s) d' = (if m = SpecificUsers then sort as else [])
    \<and> (m = SpecificUsers \<longrightarrow> as \<noteq> [])"
proof -
  have run: "try_create_share (map draw [0..<8]) sh b key kd m e cr as now d = (Inr s, d')"
    and pre: "kd = File \<longrightarrow> get_object_by_filename_in_bucket key b d \<noteq> None" "kd = Folder \<longrightarrow> prefix_has_objects b key d"
    using assms(2) unfolding create_share_def by (simp_all split: if_split_asm)
  have target: "\<exists>r \<in> set (objects d). obj_bucket_id r = b \<and> deleted_at r = None
      \<and> (case kd of File \<Rightarrow> original_filename r = key
         | Folder \<Rightarrow> \<exists>front rest. original_filename r = front @ rest \<and> ascii_lower front = ascii_lower key)"
  proof (cases kd)
    case File
    with pre obtain r where "get_object_by_filename_in_bucket key b d = Some r" by blast
    then have "r \<in> set (objects d) \<and> original_filename r = key \<and> obj_bucket_id r = b \<and> obj_active r"
      unfolding get_object_by_filename_in_bucket_def by (rule select_one_Some)
    with File show ?thesis by (auto simp: obj_active_def)
  next
    case Folder
    with pre obtain r where "r \<in> set (objects d)" "obj_active r" "obj_bucket_id r = b" "iprefix key (original_filename r)"
      by (auto simp: prefix_has_objects_def count_where_pos like_prefix_iff)
    with Folder show ?thesis by (auto simp: obj_active_def iprefix_lower)
  qed
  have some: "m = SpecificUsers \<longrightarrow> as \<noteq> []" using assms(2) unfolding create_share_def by (auto split: if_split_asm)
  from try_create_share_Inr [OF run assms(1)] obtain tok code where
    s: "s = \<lparr>share_id = next_share_id d, share_token = tok, short_code = code, share_bucket_id = b,
      target_key = key, target_kind = kd, access_mode = m, expires_at = e, share_created_by = cr,
      share_created_at = now, revoked_at = None\<rparr>"
    and code: "code = None \<longleftrightarrow> \<not> sh"
    and tok: "tok \<notin> share_token ` set (share_links d)" and links: "share_links d' = share_links d @ [s]"
    and users: "m = SpecificUsers \<longrightarrow> share_users d' = share_users d @ map (Pair (next_share_id d)) as"
      "m \<noteq> SpecificUsers \<longrightarrow> share_users d' = share_users d" by blast
  have "find (\<lambda>r. share_token r = tok) (share_links d) = None" using tok by (auto simp: find_None_iff)
  then have "get_share_by_token (share_token s) d' = Some s"
    unfolding get_share_by_token_def row_by_def select_one_def links find_append by (simp add: s)
  moreover have "\<forall>p \<in> set (share_users d). fst p < next_share_id d"
  proof -
    have "fk fst (share_users d) (share_id ` set (share_links d))"
      "keyed_ok share_id (share_links d) (next_share_id d)" using assms(1) unfolding db_ok_parts by simp_all
    then show ?thesis by (force simp: fk_def keyed_ok_def)
  qed
  then have "filter (\<lambda>(x, a). x = next_share_id d) (share_users d) = []"
    by (auto simp: filter_empty_conv)
  then have "list_share_recipients (share_id s) d' = (if m = SpecificUsers then sort as else [])"
    using users by (simp add: list_share_recipients_def select_where_def s filter_map comp_def)
  moreover have "share_is_usable s t = Inr () \<longleftrightarrow> (\<forall>x. e = Some x \<longrightarrow> t \<le> x)" for t
    by (auto simp: s share_is_usable_def split: option.splits)
  ultimately show ?thesis unfolding s share_link_record.simps using code target some by blast
qed

definition share_demo :: db where
  "share_demo = demo_db\<lparr>accounts := [\<lparr>account_id = 1, username_hex = ''a'', password_hash = ''h'',
        display_name = [], is_disabled = False, account_created_utc = 0, account_updated_utc = 0,
        created_by_account_id = None\<rparr>], next_account_id := 2\<rparr>"

lemma share_demo_ok: "db_ok share_demo"
  by code_simp

theorem create_share_correct_witness:
  "list_share_recipients 1 (snd (create_share (\<lambda>n. ([n], [n])) 1 ''a/x'' File SpecificUsers None 1 [1] False 5 share_demo)) = [1]"
proof -
  let ?run = "create_share (\<lambda>n. ([n], [n])) 1 ''a/x'' File SpecificUsers None 1 [1] False 5 share_demo"
  let ?s = "\<lparr>share_id = 1, share_token = ''1'', short_code = None, share_bucket_id = 1, target_key = ''a/x'',
     target_kind = File, access_mode = SpecificUsers, expires_at = None, share_created_by = 1,
     share_created_at = 5, revoked_at = None\<rparr>"
  have "fst ?run = Inr ?s" by code_simp
  then have "?run = (Inr ?s, snd ?run)" by (simp only: prod_eq_iff fst_conv snd_conv simp_thms)
  from create_share_correct [OF share_demo_ok this]
  have "list_share_recipients (share_id ?s) (snd ?run) = (if SpecificUsers = SpecificUsers then sort [1] else [])"
    by (elim conjE)
  moreover have "share_id ?s = 1" "sort [1] = [1::int]" by simp_all
  ultimately show ?thesis by (simp only: if_True simp_thms)
qed

text \<open>Creating a share is not atomic: when a recipient cannot be added, the call reports an error and
  yet the link exists and is in force.\<close>

theorem create_share_leaves_link:
  "let r = create_share (\<lambda>n. ([n], [n])) 1 ''a/x'' File SpecificUsers None 1 [1, 7] False 5 share_demo in
   fst r = Inl ForeignKey
   \<and> map_option (\<lambda>s. share_is_usable s 6) (get_share_by_token ''1'' (snd r)) = Some (Inr ())"
  by code_simp

text \<open>Only the creator of a share or an owner can revoke it; from then on the link is dead, and no other
  share has changed.\<close>

theorem revoke_share_correct:
  assumes "db_ok d" and "revoke_share i actor owner now d = (Inr True, d')"
  shows "\<exists>s. get_share_by_id i d' = Some s \<and> (\<forall>t. share_is_usable s t = Inl Revoked)
    \<and> (\<forall>s0. get_share_by_id i d = Some s0 \<longrightarrow> revoked_at s0 = None \<longrightarrow> owner \<or> share_created_by s0 = actor)
    \<and> (\<forall>k. k \<noteq> i \<longrightarrow> get_share_by_id k d' = get_share_by_id k d)"
proof -
  obtain s0 where s0: "get_share_by_id i d = Some s0"
    using assms(2) by (auto simp: revoke_share_def split: option.splits)
  have id: "share_id s0 = i" using s0 unfolding get_share_by_id_def by (blast dest: share_tbl.row_mem)
  show ?thesis
  proof (cases "revoked_at s0")
    case (Some t)
    then have "d' = d" using assms(2) s0 by (simp add: revoke_share_def)
    then show ?thesis using s0 Some by (simp add: share_is_usable_def)
  next
    case None
    let ?f = "\<lambda>x. x\<lparr>revoked_at := Some now\<rparr>"
    have d': "share_links d' = update_where (\<lambda>x. share_id x = i \<and> revoked_at x = None) ?f (share_links d)"
      and auth: "owner \<or> share_created_by s0 = actor"
      using assms(2) s0 None by (auto simp: revoke_share_def split: if_split_asm)
    have find: "find (\<lambda>x. share_id x = k) (update_where (\<lambda>x. share_id x = i \<and> revoked_at x = None) ?f xs)
       = map_option (\<lambda>x. if share_id x = i \<and> revoked_at x = None then ?f x else x) (find (\<lambda>x. share_id x = k) xs)" for k xs
      by (induction xs) (auto simp: update_where_def)
    have look: "get_share_by_id k d' = map_option (\<lambda>x. if share_id x = i \<and> revoked_at x = None then ?f x else x)
        (get_share_by_id k d)" for k
      by (simp add: get_share_by_id_def row_by_def select_one_def d' find)
    have "get_share_by_id k d' = get_share_by_id k d" if "k \<noteq> i" for k
    proof (cases "get_share_by_id k d")
      case (Some x)
      then have "share_id x = k" unfolding get_share_by_id_def by (blast dest: share_tbl.row_mem)
      then show ?thesis using Some that look by simp
    qed (use look in simp)
    then show ?thesis using look [of i] s0 None id auth by (simp add: share_is_usable_def)
  qed
qed

theorem revoke_share_correct_witness:
  "let d = share_demo\<lparr>share_links := [demo_share ''photos/'' Folder], next_share_id := 2\<rparr> in
   \<exists>s. get_share_by_id 1 (snd (revoke_share 1 1 False 9 d)) = Some s \<and> share_is_usable s 10 = Inl Revoked"
proof -
  let ?d = "share_demo\<lparr>share_links := [demo_share ''photos/'' Folder], next_share_id := 2\<rparr>"
  have ok: "db_ok ?d" by code_simp
  have "fst (revoke_share 1 1 False 9 ?d) = Inr True" by code_simp
  then have "revoke_share 1 1 False 9 ?d = (Inr True, snd (revoke_share 1 1 False 9 ?d))" by (metis prod.collapse)
  from revoke_share_correct [OF ok this] show ?thesis unfolding Let_def by blast
qed
end
