(* ===== verification/Access.thy ===== *)
theory Access
  imports Invariants
begin

text \<open>
  What the access control of \<open>src/db/rbac.rs\<close> promises: who may act on a bucket, how roles are
  replaced, which tokens resolve to an account, and what deleting an account takes away.
\<close>

section \<open>What an account may do\<close>

lemma foldl_perms_or:
  "perms_allow (foldl (\<lambda>acc r. perms_or acc (rbp_perms r)) p rows) act
     \<longleftrightarrow> perms_allow p act \<or> (\<exists>r \<in> set rows. perms_allow (rbp_perms r) act)"
  by (induction rows arbitrary: p) auto

lemma check_perm_char:
  "check_perm a b act d \<longleftrightarrow> account_owns_bucket a b d \<or> account_is_owner a d
     \<or> (\<exists>p \<in> set (role_perms d). rbp_bucket_id p = b \<and> (a, rbp_role_id p) \<in> set (account_roles d)
          \<and> perms_allow (rbp_perms p) act)"
  by (force simp: check_perm_def effective_perms_def foldl_perms_or select_where_def)

lemma resolve_session_char:
  "fst (resolve_session tok now d) = Some a \<longleftrightarrow>
     (\<exists>s. row_by token tok (sessions d) = Some s \<and> now \<le> expires_utc s
        \<and> get_account_by_id (session_account_id s) d = Some a \<and> \<not> is_disabled a)"
  by (auto simp: resolve_session_def split: option.splits)

lemma account_is_owner_iff:
  assumes "db_ok d"
  shows "account_is_owner a d \<longleftrightarrow> (\<exists>r \<in> set (roles d). (a, role_id r) \<in> set (account_roles d) \<and> is_owner r)"
proof -
  have "distinct (map role_id (roles d))" using assms by (simp add: db_ok_parts keyed_ok_def)
  then have "get_role i d = Some r \<longleftrightarrow> r \<in> set (roles d) \<and> role_id r = i" for i r
    unfolding get_role_def using role_tbl.row_mem role_tbl.row_of_mem by blast
  then show ?thesis by (auto simp: account_is_owner_def count_where_pos split: option.split_asm) force
qed

lemma account_owns_bucket_iff:
  assumes "db_ok d"
  shows "account_owns_bucket a b d \<longleftrightarrow> (\<exists>x \<in> set (buckets d). bucket_id x = b \<and> owner_account_id x = Some a)"
proof -
  have "distinct (map bucket_id (buckets d))" using assms by (simp add: db_ok_parts keyed_ok_def)
  then have "get_bucket_by_id b d = Some x \<longleftrightarrow> x \<in> set (buckets d) \<and> bucket_id x = b" for x
    unfolding get_bucket_by_id_def using bkt_tbl.row_mem bkt_tbl.row_of_mem by blast
  then show ?thesis by (auto simp: account_owns_bucket_def bind_eq_Some_conv)
qed

text \<open>C19: An account may act on a bucket exactly if the bucket's row names it as the owner, or it has a role whose
  owner flag is set, or it has some role with a grant of this action on this bucket; grants of several roles add up.\<close>

theorem check_perm_iff:
  assumes "db_ok d"
  shows "check_perm a b act d \<longleftrightarrow>
      (\<exists>x \<in> set (buckets d). bucket_id x = b \<and> owner_account_id x = Some a)
    \<or> (\<exists>r \<in> set (roles d). (a, role_id r) \<in> set (account_roles d) \<and> is_owner r)
    \<or> (\<exists>p \<in> set (role_perms d). rbp_bucket_id p = b \<and> (a, rbp_role_id p) \<in> set (account_roles d)
        \<and> (case act of Create \<Rightarrow> can_create (rbp_perms p) | Read \<Rightarrow> can_read (rbp_perms p)
           | Update \<Rightarrow> can_update (rbp_perms p) | Delete \<Rightarrow> can_delete (rbp_perms p)))"
  unfolding check_perm_char account_is_owner_iff [OF assms] account_owns_bucket_iff [OF assms]
  by (cases act) simp_all

definition granted_db :: db where
  "granted_db = (initial_db 0)\<lparr>accounts := [\<lparr>account_id = 1, username_hex = ''a'', password_hash = ''h'',
        display_name = [], is_disabled = False, account_created_utc = 0, account_updated_utc = 0,
        created_by_account_id = None\<rparr>], next_account_id := 2,
      roles := roles (initial_db 0) @ [\<lparr>role_id = 2, role_name = ''r'', position = 5, is_owner = False\<rparr>], next_role_id := 3,
      role_perms := [\<lparr>rbp_role_id = 2, rbp_bucket_id = 1, rbp_perms = CrudPerms False True False False\<rparr>],
      account_roles := [(1, 2)]\<rparr>"

theorem check_perm_iff_witness: "check_perm 1 1 Read granted_db \<and> \<not> check_perm 1 1 Delete granted_db"
proof -
  have ok: "db_ok granted_db" by code_simp
  show ?thesis unfolding check_perm_iff [OF ok] by code_simp
qed

lemma insert_account_roles_Inr:
  "insert_account_roles a rs d = (Inr (), d') \<Longrightarrow>
     d' = account_roles_update (\<lambda>rows. rows @ map (Pair a) rs) d
     \<and> distinct rs \<and> (\<forall>r \<in> set rs. (a, r) \<notin> set (account_roles d))"
proof (induction rs arbitrary: d)
  case (Cons r rs)
  have new: "(a, r) \<notin> set (account_roles d)"
    and run: "insert_account_roles a rs (account_roles_update (\<lambda>rows. rows @ [(a, r)]) d) = (Inr (), d')"
    using Cons.prems by (simp_all add: insert_account_role_def split: if_split_asm)
  from Cons.IH [OF run] new show ?case by auto
qed simp

text \<open>Replacing the roles of an account is all or nothing: when it succeeds the account has exactly
  the given roles and every other account keeps its own, when it fails nothing has changed.\<close>

theorem set_account_roles_atomic:
  "case set_account_roles a rs d of
     (Inl e, d') \<Rightarrow> d' = d
   | (Inr _, d') \<Rightarrow> distinct rs
        \<and> (\<forall>x. list_account_role_ids x d' = (if x = a then rs else list_account_role_ids x d))
        \<and> d'\<lparr>account_roles := account_roles d\<rparr> = d"
proof -
  let ?d0 = "account_roles_update (delete_where (\<lambda>(x, r). x = a)) d"
  obtain res d1 where run: "insert_account_roles a rs ?d0 = (res, d1)" by force
  show ?thesis
  proof (cases res)
    case (Inl e)
    then show ?thesis using run by (simp add: set_account_roles_def)
  next
    case (Inr u)
    then have res: "res = Inr ()" by simp
    note post = insert_account_roles_Inr [OF run [unfolded res]]
    have "list_account_role_ids x d1 = (if x = a then rs else list_account_role_ids x d)" for x
      using post by (auto simp: list_account_role_ids_def select_where_def delete_where_def comp_def
          filter_map intro!: arg_cong [where f = "map snd"] filter_cong)
    then show ?thesis using run res post by (simp add: set_account_roles_def)
  qed
qed

text \<open>A session token resolves exactly to the enabled account of an unexpired session.\<close>

theorem resolve_session_iff:
  "fst (resolve_session tok now d) = Some a \<longleftrightarrow>
     (\<exists>s. row_by token tok (sessions d) = Some s \<and> now \<le> expires_utc s
        \<and> get_account_by_id (session_account_id s) d = Some a \<and> \<not> is_disabled a)"
  by (rule resolve_session_char)

text \<open>A token that was refused once stays refused: an expired session, or the session of a disabled
  account, is removed when it is presented, so enabling the account again does not revive it.\<close>

theorem resolve_session_final:
  assumes "db_ok d" and "fst (resolve_session tok now d) = None"
  shows "fst (resolve_session tok now' (accounts_update f (snd (resolve_session tok now d)))) = None"
proof -
  have gone: "row_by token tok (sessions (delete_session tok d)) = None"
    using ses_tbl.row_delete [of tok tok d] by (simp add: delete_session_def)
  have acct: "get_account_by_id (session_account_id s) d \<noteq> None" if "row_by token tok (sessions d) = Some s" for s
  proof -
    have "fk session_account_id (sessions d) (account_id ` set (accounts d))"
      using assms(1) unfolding db_ok_parts by simp
    with ses_tbl.row_mem [OF that] show ?thesis
      unfolding get_account_by_id_def acc_tbl.row_None by (simp add: fk_def)
  qed
  show ?thesis
    using assms(2) gone acct by (auto simp: resolve_session_def split: option.splits if_split_asm)
qed

theorem resolve_session_final_witness:
  "let d = (initial_db 0)\<lparr>accounts := [\<lparr>account_id = 1, username_hex = ''a'', password_hash = ''h'',
        display_name = [], is_disabled = True, account_created_utc = 0, account_updated_utc = 0,
        created_by_account_id = None\<rparr>], next_account_id := 2,
      sessions := [\<lparr>token = ''t'', session_account_id = 1, expires_utc = 100\<rparr>]\<rparr> in
   fst (resolve_session ''t'' 6 (accounts_update (map (\<lambda>a. a\<lparr>is_disabled := False\<rparr>)) (snd (resolve_session ''t'' 5 d)))) = None"
proof -
  let ?d = "(initial_db 0)\<lparr>accounts := [\<lparr>account_id = 1, username_hex = ''a'', password_hash = ''h'',
        display_name = [], is_disabled = True, account_created_utc = 0, account_updated_utc = 0,
        created_by_account_id = None\<rparr>], next_account_id := 2,
      sessions := [\<lparr>token = ''t'', session_account_id = 1, expires_utc = 100\<rparr>]\<rparr>"
  have "db_ok ?d" by code_simp
  moreover have "fst (resolve_session ''t'' 5 ?d) = None" by code_simp
  ultimately show ?thesis
    unfolding Let_def by (rule resolve_session_final)
qed

text \<open>C31: Deleting an account takes everything from it: it is gone, no token resolves to it any more, and
  it has no permission on any bucket, even where it was the owner.\<close>

theorem delete_account_revokes:
  assumes "delete_account i d = (Inr True, d')"
  shows "get_account_by_id i d' = None
    \<and> (\<forall>tok now a. fst (resolve_session tok now d') = Some a \<longrightarrow> account_id a \<noteq> i)
    \<and> (\<forall>b act. \<not> check_perm i b act d')"
proof -
  have d': "d' = d\<lparr>accounts := update_where (\<lambda>a. created_by_account_id a = Some i)
                        (\<lambda>a. a\<lparr>created_by_account_id := None\<rparr>)
                        (delete_where (\<lambda>a. account_id a = i) (accounts d)),
          account_roles := delete_where (\<lambda>(a, r). a = i) (account_roles d),
          sessions := delete_where (\<lambda>s. session_account_id s = i) (sessions d),
          buckets := update_where (\<lambda>b. owner_account_id b = Some i)
                       (\<lambda>b. b\<lparr>owner_account_id := None\<rparr>) (buckets d)\<rparr>"
    using assms by (simp add: delete_account_def split: if_split_asm)
  have gone: "get_account_by_id i d' = None"
    unfolding get_account_by_id_def acc_tbl.row_None by (auto simp: d' set_delete_where)
  moreover have "account_id a \<noteq> i" if "fst (resolve_session tok now d') = Some a" for tok now a
    using that gone unfolding resolve_session_char get_account_by_id_def
    by (metis acc_tbl.row_mem option.discI)
  moreover have "\<not> account_owns_bucket i b d'" for b
  proof -
    have "owner_account_id x \<noteq> Some i" if "x \<in> set (buckets d')" for x
      using that by (auto simp: d' set_update_where)
    then show ?thesis
      unfolding account_owns_bucket_def get_bucket_by_id_def
      by (cases "row_by bucket_id b (buckets d')") (auto dest: bkt_tbl.row_mem)
  qed
  moreover have "\<not> account_is_owner i d'"
    by (auto simp: account_is_owner_def count_where_pos d' set_delete_where)
  moreover have "(i, r) \<notin> set (account_roles d')" for r by (auto simp: d' set_delete_where)
  ultimately show ?thesis unfolding check_perm_char by blast
qed

theorem delete_account_revokes_witness:
  "let d = (initial_db 0)\<lparr>accounts := [\<lparr>account_id = 1, username_hex = ''a'', password_hash = ''h'',
        display_name = [], is_disabled = False, account_created_utc = 0, account_updated_utc = 0,
        created_by_account_id = None\<rparr>], account_roles := [(1, 1)]\<rparr> in
   check_perm 1 1 Delete d \<and> \<not> check_perm 1 1 Delete (snd (delete_account 1 d))"
proof -
  let ?d = "(initial_db 0)\<lparr>accounts := [\<lparr>account_id = 1, username_hex = ''a'', password_hash = ''h'',
        display_name = [], is_disabled = False, account_created_utc = 0, account_updated_utc = 0,
        created_by_account_id = None\<rparr>], account_roles := [(1, 1)]\<rparr>"
  have "fst (delete_account 1 ?d) = Inr True" by code_simp
  then have "delete_account 1 ?d = (Inr True, snd (delete_account 1 ?d))" by (metis prod.collapse)
  from delete_account_revokes [OF this] have "\<not> check_perm 1 1 Delete (snd (delete_account 1 ?d))" by blast
  moreover have "check_perm 1 1 Delete ?d" by code_simp
  ultimately show ?thesis by (simp add: Let_def)
qed
end
