(* ===== verification/Storage.thy ===== *)
theory Storage
  imports Shares "HOL-Library.AList"
begin

text \<open>
  Blobs on disk: \<open>src/storage/hasher.rs\<close> and \<open>src/storage/engine.rs\<close>. The file system is the list of
  its files, each a path and its bytes. The digest crates are parameters: \<open>digest\<close> gives the raw
  digest of the bytes fed to a hasher, \<open>xof\<close> the first bytes of BLAKE3's extendable output; \<open>lower\<close>
  is Unicode lower-casing; the UUID of a new blob is an argument. A stream is the list of its items,
  an item being an error or a chunk. Disk errors other than a missing file are not modelled.
\<close>

section \<open>Streaming hashes\<close>

datatype hash_alg = Alg_Md5 | Alg_Sha256 | Alg_Sha512 | Alg_Blake2b128 | Alg_Blake2s256 | Alg_Blake3

text \<open>The state of an incremental hasher: its algorithm and the bytes it has been fed.\<close>

datatype hasher_inner = HasherInner (inner_alg: hash_alg) (fed: string)

record streaming_hasher =
  sh_etag_type :: etag_type
  sh_inner :: hasher_inner

fun alg_of :: "etag_type \<Rightarrow> hash_alg" where
  "alg_of Md5 = Alg_Md5"
| "alg_of Sha256 = Alg_Sha256"
| "alg_of Sha512 = Alg_Sha512"
| "alg_of Blake2_128 = Alg_Blake2b128"
| "alg_of Blake2_256 = Alg_Blake2s256"
| "alg_of Blake3_128 = Alg_Blake3"
| "alg_of Blake3_256 = Alg_Blake3"

definition hasher_new :: "etag_type \<Rightarrow> streaming_hasher" where
  "hasher_new t = \<lparr>sh_etag_type = t, sh_inner = HasherInner (alg_of t) []\<rparr>"

definition hasher_update :: "string \<Rightarrow> streaming_hasher \<Rightarrow> streaming_hasher" where
  "hasher_update data h = h\<lparr>sh_inner := HasherInner (inner_alg (sh_inner h)) (fed (sh_inner h) @ data)\<rparr>"

text \<open>\<open>None\<close> is the \<open>unreachable!\<close> of the last arm.\<close>

definition hasher_finish ::
  "(hash_alg \<Rightarrow> string \<Rightarrow> string) \<Rightarrow> (nat \<Rightarrow> string \<Rightarrow> string) \<Rightarrow> etag_type \<Rightarrow> hasher_inner \<Rightarrow> string option" where
  "hasher_finish digest xof t inner =
     (let bs = fed inner in
      case (t, inner_alg inner) of
        (Md5, Alg_Md5) \<Rightarrow> Some (hex_encode (digest Alg_Md5 bs))
      | (Sha256, Alg_Sha256) \<Rightarrow> Some (hex_encode (digest Alg_Sha256 bs))
      | (Sha512, Alg_Sha512) \<Rightarrow> Some (hex_encode (digest Alg_Sha512 bs))
      | (Blake2_128, Alg_Blake2b128) \<Rightarrow> Some (hex_encode (digest Alg_Blake2b128 bs))
      | (Blake2_256, Alg_Blake2s256) \<Rightarrow> Some (hex_encode (digest Alg_Blake2s256 bs))
      | (Blake3_128, Alg_Blake3) \<Rightarrow> Some (hex_encode (xof 16 bs))
      | (Blake3_256, Alg_Blake3) \<Rightarrow> Some (hex_encode (digest Alg_Blake3 bs))
      | _ \<Rightarrow> None)"

definition hasher_finalize ::
  "(hash_alg \<Rightarrow> string \<Rightarrow> string) \<Rightarrow> (nat \<Rightarrow> string \<Rightarrow> string) \<Rightarrow> streaming_hasher \<Rightarrow> string option" where
  "hasher_finalize digest xof h = hasher_finish digest xof (sh_etag_type h) (sh_inner h)"

definition digest_hex ::
  "(hash_alg \<Rightarrow> string \<Rightarrow> string) \<Rightarrow> (nat \<Rightarrow> string \<Rightarrow> string) \<Rightarrow> etag_type \<Rightarrow> string \<Rightarrow> string option" where
  "digest_hex digest xof t data = hasher_finalize digest xof (hasher_update data (hasher_new t))"

text \<open>The hash of a blob: what the server stores as its etag.\<close>

type_synonym hash_fn = "etag_type \<Rightarrow> string \<Rightarrow> string"

definition blob_hash ::
  "(hash_alg \<Rightarrow> string \<Rightarrow> string) \<Rightarrow> (nat \<Rightarrow> string \<Rightarrow> string) \<Rightarrow> hash_fn" where
  "blob_hash digest xof t bs = (case digest_hex digest xof t bs of Some s \<Rightarrow> s | None \<Rightarrow> [])"

lemma hasher_finish_Some: "\<exists>s. hasher_finish digest xof t (HasherInner (alg_of t) bs) = Some s"
  by (cases t) (simp_all add: hasher_finish_def Let_def)

text \<open>
  What the storage engine relies on: however the bytes are cut into chunks, a hasher that is fed them one after the
  other ends with the hash of the whole.
\<close>

locale incremental_hash =
  fixes start :: "'t \<Rightarrow> 'h" and feed :: "string \<Rightarrow> 'h \<Rightarrow> 'h" and finish :: "'h \<Rightarrow> string option"
    and hash :: "'t \<Rightarrow> string \<Rightarrow> string"
  assumes feed_append: "feed b (feed a h) = feed (a @ b) h"
    and finish_one: "finish (feed bs (start t)) = Some (hash t bs)"
    and feed_nothing: "feed [] (start t) = start t"
begin

lemma feed_all: "foldl (\<lambda>h c. feed c h) (feed bs h) cs = feed (bs @ concat cs) h"
  by (induction cs arbitrary: bs) (simp_all add: feed_append)

lemma stream: "finish (foldl (\<lambda>h c. feed c h) (start t) cs) = Some (hash t (concat cs))"
  using feed_all [of "[]" "start t" cs] by (simp add: feed_nothing finish_one)

lemma rechunk: "concat cs = concat ds \<Longrightarrow>
    finish (foldl (\<lambda>h c. feed c h) (start t) cs) = finish (foldl (\<lambda>h c. feed c h) (start t) ds)"
  by (simp add: stream)

end

interpretation hasher: incremental_hash hasher_new hasher_update "hasher_finalize digest xof" "blob_hash digest xof"
  for digest xof
proof
  show "hasher_update b (hasher_update a h) = hasher_update (a @ b) h" for a b h
    by (simp add: hasher_update_def)
  show "hasher_update [] (hasher_new t) = hasher_new t" for t by (simp add: hasher_update_def hasher_new_def)
  show "hasher_finalize digest xof (hasher_update bs (hasher_new t)) = Some (blob_hash digest xof t bs)" for bs t
  proof -
    obtain s where "hasher_finish digest xof t (HasherInner (alg_of t) bs) = Some s" using hasher_finish_Some by blast
    then show ?thesis by (simp add: blob_hash_def digest_hex_def hasher_finalize_def hasher_update_def hasher_new_def)
  qed
qed

section \<open>Paths and files\<close>

type_synonym fs = "(string \<times> string) list"

text \<open>\<open>Path::join\<close>: an absolute path replaces the base.\<close>

definition path_join :: "string \<Rightarrow> string \<Rightarrow> string" where
  "path_join a b = (if starts_with b ''/'' then b
     else if a = [] \<or> ends_with a ''/'' then a @ b else a @ ''/'' @ b)"

definition fs_read :: "string \<Rightarrow> fs \<Rightarrow> string option" where
  "fs_read p f = map_of f p"

definition fs_write :: "string \<Rightarrow> string \<Rightarrow> fs \<Rightarrow> fs" where
  "fs_write p bs f = AList.update p bs f"

definition fs_remove :: "string \<Rightarrow> fs \<Rightarrow> fs" where
  "fs_remove p f = AList.delete p f"

lemma fs_read_write [simp]: "fs_read q (fs_write p bs f) = (if q = p then Some bs else fs_read q f)"
  by (simp add: fs_read_def fs_write_def update_conv')

lemma fs_read_remove [simp]: "fs_read q (fs_remove p f) = (if q = p then None else fs_read q f)"
  by (simp add: fs_read_def fs_remove_def delete_conv')

record storage_engine =
  storage_root :: string
  objects_dir :: string

definition engine_init :: "string \<Rightarrow> storage_engine" where
  "engine_init root = \<lparr>storage_root = root, objects_dir = path_join root ''objects''\<rparr>"

definition absolute_path_for :: "storage_engine \<Rightarrow> string \<Rightarrow> string" where
  "absolute_path_for eng fp =
     (if starts_with fp ''objects/'' \<or> CHR ''/'' \<in> set fp then path_join (storage_root eng) fp
      else path_join (objects_dir eng) fp)"

definition relative_filepath :: "string \<Rightarrow> string \<Rightarrow> string" where
  "relative_filepath uuid ext = ''objects/'' @ uuid @ ''.'' @ ext"

text \<open>\<open>Path::file_name\<close> and \<open>Path::extension\<close>.\<close>

definition path_file_name :: "string \<Rightarrow> string option" where
  "path_file_name p =
     (let segs = filter (\<lambda>s. s \<noteq> [] \<and> s \<noteq> ''.'') (split_on (CHR ''/'') p) in
      if segs = [] \<or> last segs = ''..'' then None else Some (last segs))"

definition path_extension :: "string \<Rightarrow> string option" where
  "path_extension p =
     (case path_file_name p of
        None \<Rightarrow> None
      | Some n \<Rightarrow> (case rsplit_once (CHR ''.'') n of
                     None \<Rightarrow> None
                   | Some (a, b) \<Rightarrow> if a = [] then None else Some b))"

definition extension_from_filename :: "(string \<Rightarrow> string) \<Rightarrow> string \<Rightarrow> string" where
  "extension_from_filename lower fname =
     lower (case path_extension fname of Some e \<Rightarrow> if e = [] then ''bin'' else e | None \<Rightarrow> ''bin'')"

section \<open>Writing, reading and removing blobs\<close>

record stored_object =
  so_filepath :: string
  so_file_format :: string
  so_absolute_path :: string
  so_filesize_bytes :: int
  so_etag :: string
  so_etag_type :: etag_type

type_synonym stream = "(string + string) list"

text \<open>
  The copy loop of \<open>put_stream\<close> and \<open>put_chunks\<close>: every chunk goes to the file and to the hasher;
  an error of the stream leaves the file as it is so far.
\<close>

fun copy_loop ::
  "string \<Rightarrow> stream \<Rightarrow> streaming_hasher \<Rightarrow> int \<Rightarrow> fs \<Rightarrow> (streaming_hasher \<times> int) res \<times> fs" where
  "copy_loop p [] h tot f = (Inr (h, tot), f)"
| "copy_loop p (Inl e # items) h tot f = (Inl (Bail e), f)"
| "copy_loop p (Inr c # items) h tot f =
     copy_loop p items (hasher_update c h) (tot + int (length c))
       (fs_write p (case fs_read p f of Some bs \<Rightarrow> bs @ c | None \<Rightarrow> c) f)"

text \<open>A reader is at its end when it returns no bytes.\<close>

fun until_empty :: "stream \<Rightarrow> stream" where
  "until_empty [] = []"
| "until_empty (Inl e # items) = [Inl e]"
| "until_empty (Inr c # items) = (if c = [] then [] else Inr c # until_empty items)"

definition put_stream ::
  "(hash_alg \<Rightarrow> string \<Rightarrow> string) \<Rightarrow> (nat \<Rightarrow> string \<Rightarrow> string) \<Rightarrow> (string \<Rightarrow> string) \<Rightarrow>
     storage_engine \<Rightarrow> string \<Rightarrow> stream \<Rightarrow> string \<Rightarrow> etag_type \<Rightarrow> fs \<Rightarrow> stored_object res \<times> fs" where
  "put_stream digest xof lower eng uuid reader fname etype f =
     (let fmt = extension_from_filename lower fname;
          fp = relative_filepath uuid fmt;
          path = path_join (storage_root eng) fp in
      case copy_loop path (until_empty reader) (hasher_new etype) 0 (fs_write path [] f) of
        (Inl e, f') \<Rightarrow> (Inl e, f')
      | (Inr (h, tot), f') \<Rightarrow>
          (case hasher_finalize digest xof h of
             None \<Rightarrow> (Inl (Bail ''unreachable''), f')
           | Some tag \<Rightarrow> (Inr \<lparr>so_filepath = fp, so_file_format = fmt, so_absolute_path = path,
               so_filesize_bytes = tot, so_etag = tag, so_etag_type = etype\<rparr>, f')))"

definition put_chunks ::
  "(hash_alg \<Rightarrow> string \<Rightarrow> string) \<Rightarrow> (nat \<Rightarrow> string \<Rightarrow> string) \<Rightarrow> (string \<Rightarrow> string) \<Rightarrow>
     storage_engine \<Rightarrow> string \<Rightarrow> stream \<Rightarrow> string \<Rightarrow> etag_type \<Rightarrow> string option \<Rightarrow> string option \<Rightarrow>
     fs \<Rightarrow> stored_object res \<times> fs" where
  "put_chunks digest xof lower eng uuid items fname etype expected forced f =
     (let fmt = extension_from_filename lower fname;
          fp = (case forced of Some p \<Rightarrow> p | None \<Rightarrow> relative_filepath uuid fmt);
          path = (case forced of Some p \<Rightarrow> absolute_path_for eng p
                  | None \<Rightarrow> path_join (storage_root eng) fp) in
      case copy_loop path items (hasher_new etype) 0 (fs_write path [] f) of
        (Inl e, f') \<Rightarrow> (Inl e, f')
      | (Inr (h, tot), f') \<Rightarrow>
          (case hasher_finalize digest xof h of
             None \<Rightarrow> (Inl (Bail ''unreachable''), f')
           | Some tag \<Rightarrow>
               if (case expected of Some x \<Rightarrow> x \<noteq> tag | None \<Rightarrow> False)
               then (Inl (Bail (''etag mismatch: expected '' @ the expected @ '', got '' @ tag)),
                     fs_remove path f')
               else (Inr \<lparr>so_filepath = fp, so_file_format = fmt, so_absolute_path = path,
                       so_filesize_bytes = tot, so_etag = tag, so_etag_type = etype\<rparr>, f')))"

definition open_read :: "storage_engine \<Rightarrow> string \<Rightarrow> fs \<Rightarrow> string res" where
  "open_read eng fp f =
     (case fs_read (absolute_path_for eng fp) f of
        None \<Rightarrow> Inl (Bail (''open '' @ absolute_path_for eng fp))
      | Some bs \<Rightarrow> Inr bs)"

definition hash_filepath ::
  "(hash_alg \<Rightarrow> string \<Rightarrow> string) \<Rightarrow> (nat \<Rightarrow> string \<Rightarrow> string) \<Rightarrow> storage_engine \<Rightarrow> string \<Rightarrow>
     etag_type \<Rightarrow> fs \<Rightarrow> string res" where
  "hash_filepath digest xof eng fp etype f =
     (case open_read eng fp f of
        Inl e \<Rightarrow> Inl e
      | Inr bs \<Rightarrow> (case digest_hex digest xof etype bs of
                     None \<Rightarrow> Inl (Bail ''unreachable'') | Some tag \<Rightarrow> Inr tag))"

definition unlink :: "storage_engine \<Rightarrow> string \<Rightarrow> fs \<Rightarrow> fs" where
  "unlink eng fp f = fs_remove (absolute_path_for eng fp) f"

text \<open>The file names of a directory, and its usage against the configured capacity.\<close>

definition dir_entries :: "string \<Rightarrow> fs \<Rightarrow> (string \<times> string) list" where
  "dir_entries dir f = List.map_filter (\<lambda>(p, bs).
     case strip_prefix p (path_join dir []) of
       None \<Rightarrow> None
     | Some n \<Rightarrow> if n = [] \<or> CHR ''/'' \<in> set n then None else Some (n, bs)) f"

definition disk_usage :: "string option \<Rightarrow> storage_engine \<Rightarrow> fs \<Rightarrow> int \<times> int" where
  "disk_usage capacity_env eng f =
     (sum_list (map (\<lambda>(n, bs). int (length bs)) (dir_entries (objects_dir eng) f)),
      case Option.bind capacity_env parse_u64 of Some c \<Rightarrow> c | None \<Rightarrow> 100 * 1024 * 1024 * 1024)"

section \<open>Facts\<close>

lemma copy_loop_ok:
  "copy_loop p (map Inr cs) h tot f =
     (Inr (foldl (\<lambda>h c. hasher_update c h) h cs, tot + int (length (concat cs))),
      if cs = [] then f
      else fs_write p ((case fs_read p f of Some bs \<Rightarrow> bs | None \<Rightarrow> []) @ concat cs) f)"
proof (induction cs arbitrary: h tot f)
  case (Cons c cs)
  have ww: "fs_write p y (fs_write p x f) = fs_write p y f" for x y
    by (simp add: fs_write_def update_conv' update_last)
  show ?case
    by (simp add: Cons.IH ww split: option.split)
qed simp

lemma copy_loop_other: "copy_loop p items h tot f = (x, f') \<Longrightarrow> q \<noteq> p \<Longrightarrow> fs_read q f' = fs_read q f"
  by (induction p items h tot f rule: copy_loop.induct) auto

end
