(* ===== verification/Tui.thy ===== *)
theory Tui
  imports Rust_Base Systems "HOL-Library.Word"
begin

text \<open>
  The events the servers emit (\<open>src/tui/events.rs\<close>) and the state of the terminal dashboard that
  folds them (\<open>src/tui/state.rs\<close>). The counters are \<open>u64\<close> and wrap, as in a release build; a
  queue is the list of its elements, front first.
\<close>

datatype server_event =
    BytesUploaded nat | BytesDownloaded nat
  | ObjectCreated string int | PeerConnected string

record recent_object =
  ro_filename :: string
  ro_size :: int
  ro_etag :: string
  ro_algorithm :: string

record tui_state =
  bytes_up :: "64 word"
  bytes_down :: "64 word"
  throughput_samples :: "64 word list"
  peer_samples :: "64 word list"
  tui_peers :: "string list"
  recent :: "recent_object list"
  disk_used :: "64 word"
  disk_capacity :: "64 word"
  object_count :: "64 word"
  last_up :: "64 word"
  last_down :: "64 word"

definition tui_default :: tui_state where
  "tui_default = \<lparr>bytes_up = 0, bytes_down = 0, throughput_samples = replicate 60 0,
     peer_samples = replicate 60 0, tui_peers = [], recent = [], disk_used = 0, disk_capacity = 1,
     object_count = 0, last_up = 0, last_down = 0\<rparr>"

text \<open>\<open>while recent.len() > 50 { recent.pop_back(); }\<close>\<close>

function pop_while :: "nat \<Rightarrow> 'a list \<Rightarrow> 'a list" where
  "pop_while n xs = (if length xs > n then pop_while n (butlast xs) else xs)"
  by auto
termination by (relation "measure (\<lambda>(n, xs). length xs)") auto

declare pop_while.simps [simp del]

fun tui_apply :: "server_event \<Rightarrow> tui_state \<Rightarrow> tui_state" where
  "tui_apply (BytesUploaded n) s = s\<lparr>bytes_up := bytes_up s + of_nat n\<rparr>"
| "tui_apply (BytesDownloaded n) s = s\<lparr>bytes_down := bytes_down s + of_nat n\<rparr>"
| "tui_apply (ObjectCreated fname sz) s =
     s\<lparr>object_count := object_count s + 1,
       recent := pop_while 50 (\<lparr>ro_filename = fname, ro_size = sz, ro_etag = [], ro_algorithm = []\<rparr> # recent s)\<rparr>"
| "tui_apply (PeerConnected name) s =
     (if name \<in> set (tui_peers s) then s else s\<lparr>tui_peers := tui_peers s @ [name]\<rparr>)"

definition saturating_sub_u64 :: "64 word \<Rightarrow> 64 word \<Rightarrow> 64 word" where
  "saturating_sub_u64 a b = (if a < b then 0 else a - b)"

definition push_sample :: "64 word \<Rightarrow> 64 word list \<Rightarrow> 64 word list" where
  "push_sample x xs = (let ys = xs @ [x] in if length ys > 60 then tl ys else ys)"

definition tick_throughput :: "tui_state \<Rightarrow> tui_state" where
  "tick_throughput s =
     (let delta = saturating_sub_u64 (bytes_up s + bytes_down s) (last_up s + last_down s) in
      s\<lparr>last_up := bytes_up s, last_down := bytes_down s,
        throughput_samples := push_sample delta (throughput_samples s),
        peer_samples := push_sample (of_nat (length (tui_peers s))) (peer_samples s)\<rparr>)"

section \<open>The bounds of the dashboard\<close>

definition tui_ok :: "tui_state \<Rightarrow> bool" where
  "tui_ok s \<longleftrightarrow> length (throughput_samples s) = 60 \<and> length (peer_samples s) = 60
     \<and> length (recent s) \<le> 50 \<and> distinct (tui_peers s)"

text \<open>What the interface does to the state: events and ticks, in any order.\<close>

inductive tui_step :: "tui_state \<Rightarrow> tui_state \<Rightarrow> bool" where
  event: "tui_step s (tui_apply e s)"
| tick: "tui_step s (tick_throughput s)"

lemma pop_while_take: "pop_while n xs = take n xs"
proof (induction n xs rule: pop_while.induct)
  case (1 n xs)
  show ?case
  proof (cases "length xs > n")
    case True
    then have "take n (butlast xs) = take n xs" by (simp add: take_butlast)
    with 1 True show ?thesis by (subst pop_while.simps) simp
  next
    case False
    then show ?thesis by (subst pop_while.simps) simp
  qed
qed

lemma tui_ok_apply: "tui_ok s \<Longrightarrow> tui_ok (tui_apply e s)"
  by (cases e) (auto simp: tui_ok_def pop_while_take)

lemma length_push_sample: "length xs = 60 \<Longrightarrow> length (push_sample x xs) = 60"
  by (simp add: push_sample_def)

lemma tui_ok_tick: "tui_ok s \<Longrightarrow> tui_ok (tick_throughput s)"
  by (simp add: tui_ok_def tick_throughput_def Let_def length_push_sample)

interpretation tui_sys: invariant_system "\<lambda>s. s = tui_default" tui_step tui_ok
proof
  show "s = tui_default \<Longrightarrow> tui_ok s" for s by (simp add: tui_ok_def tui_default_def)
  show "tui_ok s \<Longrightarrow> tui_step s t \<Longrightarrow> tui_ok t" for s t
    by (auto elim!: tui_step.cases simp: tui_ok_apply tui_ok_tick)
qed

section \<open>Properties\<close>

text \<open>Whatever events arrive and however often the dashboard ticks, it keeps exactly 60 samples
  of each series, at most 50 recent objects, and no peer twice.\<close>

theorem tui_bounded:
  assumes "tui_step\<^sup>*\<^sup>* tui_default s"
  shows "length (throughput_samples s) = 60 \<and> length (peer_samples s) = 60
    \<and> length (recent s) \<le> 50 \<and> distinct (tui_peers s)"
  using tui_sys.reachable_inv [OF refl assms] by (simp add: tui_ok_def)

theorem tui_bounded_witness:
  "length (recent (tui_apply (ObjectCreated ''a'' 1) tui_default)) \<le> 50"
proof -
  have "tui_step\<^sup>*\<^sup>* tui_default (tui_apply (ObjectCreated ''a'' 1) tui_default)"
    by (blast intro: tui_step.event)
  from tui_bounded [OF this] show ?thesis by blast
qed

end
