(* ===== verification/Cluster.thy ===== *)
theory Cluster
  imports Storage Tui
begin

text \<open>
  Replication between nodes: the client and the server of the gRPC service
  (\<open>src/cluster/grpc_client.rs\<close>, \<open>grpc_server.rs\<close>), the outbox worker (\<open>worker.rs\<close>) and the
  anti-entropy round (\<open>anti_entropy.rs\<close>). The transport is a parameter: whether an endpoint can be
  reached, and what the peer behind it answers. The text of a date in a message is modelled by the
  date itself, an empty text by \<open>None\<close>.
\<close>

section \<open>Messages and nodes\<close>

record object_metadata =
  om_original_filename :: string
  om_filepath_uuid :: string
  om_file_format :: string
  om_filesize_bytes :: int
  om_etag_type :: string
  om_etag :: string
  om_date_uploaded :: "time option"
  om_date_modified :: "time option"
  om_bucket_name :: string

datatype object_chunk = Metadata object_metadata | Payload string | NoContent

record replication_ack =
  ra_success :: bool
  ra_message :: string
  ra_etag_confirmed :: string

datatype status = InvalidArgument string | Internal string | Transport string

record node =
  node_id :: string
  node_engine :: storage_engine
  node_db :: db
  node_fs :: fs
  node_events :: "server_event list"

section \<open>The server\<close>

text \<open>The loop over the incoming stream: the last metadata and all payloads.\<close>

fun read_chunks :: "object_chunk list \<Rightarrow> object_metadata option \<times> string list \<Rightarrow> object_metadata option \<times> string list" where
  "read_chunks [] acc = acc"
| "read_chunks (Metadata m # cs) (_, ps) = read_chunks cs (Some m, ps)"
| "read_chunks (Payload bs # cs) (m, ps) = read_chunks cs (m, ps @ [bs])"
| "read_chunks (NoContent # cs) acc = read_chunks cs acc"

definition replicate_object ::
  "(hash_alg \<Rightarrow> string \<Rightarrow> string) \<Rightarrow> (nat \<Rightarrow> string \<Rightarrow> string) \<Rightarrow> (string \<Rightarrow> string) \<Rightarrow>
     object_chunk list \<Rightarrow> time \<Rightarrow> node \<Rightarrow> (status + replication_ack) \<times> node" where
  "replicate_object digest xof lower cs now n =
     (case read_chunks cs (None, []) of
        (None, _) \<Rightarrow> (Inl (InvalidArgument ''Missing object metadata''), n)
      | (Some meta, ps) \<Rightarrow>
          let etype = (case etag_type_from_str (om_etag_type meta) of Some t \<Rightarrow> t | None \<Rightarrow> Md5) in
          (case put_chunks digest xof lower (node_engine n) [] (map Inr ps) (om_original_filename meta)
                  etype (Some (om_etag meta)) (Some (om_filepath_uuid meta)) (node_fs n) of
             (Inl e, f) \<Rightarrow> (Inl (Internal (''write/verify failed: '' @ err_msg e)), n\<lparr>node_fs := f\<rparr>)
           | (Inr stored, f) \<Rightarrow>
               let bname = (if trim (om_bucket_name meta) = [] then ''storage'' else trim (om_bucket_name meta)) in
               (case ensure_bucket bname now (node_db n) of
                  (Inl e, d1) \<Rightarrow>
                    (Inl (Internal (''bucket resolve: '' @ err_msg e)), n\<lparr>node_fs := f, node_db := d1\<rparr>)
                | (Inr b, d1) \<Rightarrow>
                    (case insert_object_idempotent (om_original_filename meta) (so_filepath stored)
                            (om_file_format meta) (so_filesize_bytes stored) (om_etag_type meta)
                            (so_etag stored) (om_date_uploaded meta) (om_date_modified meta) b now d1 of
                       (Inl e, d2) \<Rightarrow>
                         (Inl (Internal (''SQLite error: '' @ err_msg e)), n\<lparr>node_fs := f, node_db := d2\<rparr>)
                     | (Inr _, d2) \<Rightarrow>
                         (Inr \<lparr>ra_success = True, ra_message = ''Object successfully replicated'',
                               ra_etag_confirmed = so_etag stored\<rparr>,
                          n\<lparr>node_fs := f, node_db := d2,
                            node_events := node_events n @ [ObjectCreated (om_original_filename meta)
                              (so_filesize_bytes stored)]\<rparr>)))))"

definition delete_object :: "string \<Rightarrow> string \<Rightarrow> node \<Rightarrow> (status + replication_ack) \<times> node" where
  "delete_object fp tag n =
     (Inr \<lparr>ra_success = True, ra_message = ''Object deleted (idempotent)'', ra_etag_confirmed = tag\<rparr>,
      n\<lparr>node_fs := unlink (node_engine n) fp (node_fs n),
        node_db := snd (delete_object_by_filepath fp (node_db n))\<rparr>)"

definition ping_node :: "string \<Rightarrow> string \<Rightarrow> time \<Rightarrow> node \<Rightarrow> (string \<times> bool) \<times> node" where
  "ping_node hb_node hb_ip now n =
     ((node_id n, True),
      n\<lparr>node_db := note_heartbeat hb_node now (upsert_peer hb_node (hb_ip @ '':50051'') (node_db n)),
        node_events := node_events n @ [PeerConnected hb_node]\<rparr>)"

definition sync_digest :: "string \<Rightarrow> node \<Rightarrow> (string \<times> string) list" where
  "sync_digest pre n = digest_map pre (node_db n)"

section \<open>The client\<close>

definition grpc_uri :: "string \<Rightarrow> string" where
  "grpc_uri endpoint =
     (if starts_with endpoint ''http://'' \<or> starts_with endpoint ''https://'' then endpoint
      else ''http://'' @ endpoint)"

text \<open>\<open>File::read\<close> into a buffer of 64 KiB until the end.\<close>

function file_chunks :: "string \<Rightarrow> string list" where
  "file_chunks bs = (if bs = [] then [] else take 65536 bs # file_chunks (drop 65536 bs))"
  by auto
termination by (relation "measure length") auto

declare file_chunks.simps [simp del]

definition put_metadata :: "outbox_job \<Rightarrow> string \<Rightarrow> object_metadata" where
  "put_metadata j fp = \<lparr>
     om_original_filename = (case oj_original_filename j of Some s \<Rightarrow> s | None \<Rightarrow> fp),
     om_filepath_uuid = fp,
     om_file_format = (case oj_file_format j of Some s \<Rightarrow> s | None \<Rightarrow> ''bin''),
     om_filesize_bytes = (case oj_filesize_bytes j of Some n \<Rightarrow> n | None \<Rightarrow> 0),
     om_etag_type = (case oj_etag_type j of Some s \<Rightarrow> s | None \<Rightarrow> ''md5''),
     om_etag = (case oj_object_etag j of Some s \<Rightarrow> s
                | None \<Rightarrow> (case oj_etag j of Some s \<Rightarrow> s | None \<Rightarrow> [])),
     om_date_uploaded = oj_date_uploaded j, om_date_modified = oj_date_modified j,
     om_bucket_name = (case oj_bucket_name j of Some s \<Rightarrow> s | None \<Rightarrow> ''storage'')\<rparr>"

text \<open>The stream of a PUT; a blob that cannot be opened is sent as no payload at all.\<close>

definition put_request :: "storage_engine \<Rightarrow> fs \<Rightarrow> outbox_job \<Rightarrow> object_chunk list res" where
  "put_request eng f j =
     (case (case oj_filepath j of Some p \<Rightarrow> Some p | None \<Rightarrow> oj_filepath_uuid j) of
        None \<Rightarrow> Inl (Bail ''missing filepath for PUT job'')
      | Some fp \<Rightarrow> Inr (Metadata (put_metadata j fp) #
          (case fs_read (absolute_path_for eng fp) f of
             None \<Rightarrow> []
           | Some bs \<Rightarrow> map Payload (file_chunks bs))))"

definition delete_request :: "outbox_job \<Rightarrow> (string \<times> string) res" where
  "delete_request j =
     (case (case oj_filepath_uuid j of Some p \<Rightarrow> Some p | None \<Rightarrow> oj_filepath j) of
        None \<Rightarrow> Inl (Bail ''missing filepath_uuid for DELETE'')
      | Some fp \<Rightarrow> Inr (fp, case oj_etag j of Some t \<Rightarrow> t | None \<Rightarrow> []))"

definition check_ack :: "string \<Rightarrow> status + replication_ack \<Rightarrow> unit res" where
  "check_ack what r =
     (case r of
        Inl _ \<Rightarrow> Inl (Bail ''rpc failed'')
      | Inr a \<Rightarrow> if ra_success a then Inr () else Inl (Bail (what @ ra_message a)))"

section \<open>The worker\<close>

text \<open>
  What the network does with a job: refuse the connection, lose the call before the peer sees it,
  lose the answer after the peer has acted, or deliver it.
\<close>

datatype delivery = Refused | LostRequest | LostReply | Delivered

definition rpc_reply :: "delivery \<Rightarrow> (status + replication_ack) \<times> node \<Rightarrow> node \<Rightarrow> (status + replication_ack) \<times> node" where
  "rpc_reply dl served peer =
     (case dl of
        Delivered \<Rightarrow> served
      | LostReply \<Rightarrow> (Inl (Transport ''broken''), snd served)
      | _ \<Rightarrow> (Inl (Transport ''broken''), peer))"

definition process_job ::
  "(hash_alg \<Rightarrow> string \<Rightarrow> string) \<Rightarrow> (nat \<Rightarrow> string \<Rightarrow> string) \<Rightarrow> (string \<Rightarrow> string) \<Rightarrow>
     delivery \<Rightarrow> time \<Rightarrow> storage_engine \<Rightarrow> fs \<Rightarrow> outbox_job \<Rightarrow> node \<Rightarrow> unit res \<times> node" where
  "process_job digest xof lower dl now eng f j peer =
     (if dl = Refused then (Inl (Bail (''connect gRPC '' @ grpc_uri (oj_wireguard_endpoint j))), peer)
      else if oj_operation j = ''PUT'' then
        (case put_request eng f j of
           Inl e \<Rightarrow> (Inl e, peer)
         | Inr cs \<Rightarrow>
             (case rpc_reply dl (replicate_object digest xof lower cs now peer) peer of
                (r, peer') \<Rightarrow> (check_ack ''replicate failed: '' r, peer')))
      else if oj_operation j = ''DELETE'' then
        (case delete_request j of
           Inl e \<Rightarrow> (Inl e, peer)
         | Inr (fp, tag) \<Rightarrow>
             (case rpc_reply dl (delete_object fp tag peer) peer of
                (r, peer') \<Rightarrow> (check_ack ''delete replicate failed: '' r, peer')))
      else (Inl (Bail (''unknown operation '' @ oj_operation j)), peer))"

text \<open>The peers a worker talks to, by id, and one job of its batch.\<close>

type_synonym cluster = "string \<Rightarrow> node"

definition work_job ::
  "(hash_alg \<Rightarrow> string \<Rightarrow> string) \<Rightarrow> (nat \<Rightarrow> string \<Rightarrow> string) \<Rightarrow> (string \<Rightarrow> string) \<Rightarrow>
     delivery \<Rightarrow> time \<Rightarrow> outbox_job \<Rightarrow> node \<times> cluster \<Rightarrow> node \<times> cluster" where
  "work_job digest xof lower dl now j s =
     (case s of (n, c) \<Rightarrow>
        (case process_job digest xof lower dl now (node_engine n) (node_fs n) j (c (oj_peer_id j)) of
           (Inr _, peer') \<Rightarrow>
             (n\<lparr>node_db := complete_outbox_job (oj_id j) (node_db n),
                node_events := node_events n @ [PeerConnected (oj_peer_id j)]\<rparr>, c(oj_peer_id j := peer'))
         | (Inl _, peer') \<Rightarrow>
             (n\<lparr>node_db := fail_outbox_job (oj_id j) now (node_db n)\<rparr>, c(oj_peer_id j := peer'))))"

definition worker_tick ::
  "(hash_alg \<Rightarrow> string \<Rightarrow> string) \<Rightarrow> (nat \<Rightarrow> string \<Rightarrow> string) \<Rightarrow> (string \<Rightarrow> string) \<Rightarrow>
     (int \<Rightarrow> delivery) \<Rightarrow> time \<Rightarrow> node \<times> cluster \<Rightarrow> node \<times> cluster" where
  "worker_tick digest xof lower net now s =
     (case s of (n, c) \<Rightarrow>
        (case claim_outbox_jobs 50 now (node_db n) of
           (js, d) \<Rightarrow> foldl (\<lambda>s j. work_job digest xof lower (net (oj_id j)) now j s)
                        (n\<lparr>node_db := d\<rparr>, c) js))"

section \<open>Anti-entropy\<close>

text \<open>One local entry against the digest of a peer: enqueue a PUT when it is missing or differs.\<close>

definition heal_entry :: "string \<Rightarrow> (string \<times> string) list \<Rightarrow> time \<Rightarrow> db \<Rightarrow> string \<times> string \<Rightarrow> db" where
  "heal_entry p remote now d entry =
     (case entry of (fp, tag) \<Rightarrow>
        let missing = (case map_of remote fp of None \<Rightarrow> True | Some t \<Rightarrow> t \<noteq> tag) in
        if \<not> missing then d
        else (case object_by_filepath fp d of
                None \<Rightarrow> d
              | Some ob \<Rightarrow>
                  if \<not> peer_should_receive_bucket p (obj_bucket_id ob) d then d
                  else snd (enqueue_put_for_peer p (obj_id ob) (filepath ob) (etag ob) now d)))"

definition anti_entropy_peer ::
  "string \<Rightarrow> (string \<times> string) list \<Rightarrow> (string \<Rightarrow> (string \<times> string) list option) \<Rightarrow> time \<Rightarrow> db \<Rightarrow> cluster_peer \<Rightarrow> db" where
  "anti_entropy_peer local_id local_digest remote now d p =
     (if peer_id p = local_id then d
      else (case remote (peer_id p) of
              None \<Rightarrow> d
            | Some dg \<Rightarrow> foldl (heal_entry (peer_id p) dg now) d local_digest))"

text \<open>\<open>remote\<close> is the digest a peer answers, \<open>None\<close> when it cannot be reached.\<close>

definition anti_entropy_round ::
  "string \<Rightarrow> (string \<Rightarrow> (string \<times> string) list option) \<Rightarrow> time \<Rightarrow> db \<Rightarrow> db" where
  "anti_entropy_round local_id remote now d =
     foldl (anti_entropy_peer local_id (digest_map [] d) remote now) d (list_active_peers d)"

end
