(* ===== verification/S3.thy ===== *)
theory S3
  imports Cluster Keys
begin

text \<open>
  The S3 routes of \<open>src/server/s3_routes.rs\<close>: listing, upload, download with ranges, and deletion of an
  object, as functions of the request and the node. A response is its status, the headers the code sets
  and its body. The HTTP and media-type crates, and the text of a date, are the fields of \<open>lib\<close>; header
  names are in lower case.
\<close>

section \<open>Requests, responses and the libraries\<close>

type_synonym headers = "(string \<times> string) list"

record response =
  rs_status :: int
  rs_headers :: headers
  rs_body :: string

record lib =
  lib_digest :: "hash_alg \<Rightarrow> string \<Rightarrow> string"
  lib_xof :: "nat \<Rightarrow> string \<Rightarrow> string"
  lib_lower :: "string \<Rightarrow> string"
  lib_mime :: "string \<Rightarrow> string"
  lib_rfc3339 :: "time \<Rightarrow> string"
  lib_to_str :: "string \<Rightarrow> string option"
  lib_header_value :: "string \<Rightarrow> string option"

definition header_get :: "string \<Rightarrow> headers \<Rightarrow> string option" where
  "header_get name hs = map_of hs name"

text \<open>\<open>(status, text).into_response()\<close>\<close>

definition text_response :: "int \<Rightarrow> string \<Rightarrow> response" where
  "text_response st msg = \<lparr>rs_status = st, rs_headers = [], rs_body = msg\<rparr>"

definition internal_error :: "string \<Rightarrow> response" where
  "internal_error msg = text_response 500 msg"

text \<open>\<open>HeaderValue::from_str(v).unwrap_or(HeaderValue::from_static(d))\<close>\<close>

definition header_or :: "lib \<Rightarrow> string \<Rightarrow> string \<Rightarrow> string" where
  "header_or L d v = (case lib_header_value L v of Some h \<Rightarrow> h | None \<Rightarrow> d)"

section \<open>Listing\<close>

definition xml_escape :: "string \<Rightarrow> string" where
  "xml_escape s = replace_char (CHR 0x22) ''&quot;'' (replace_char (CHR ''>'') ''&gt;''
     (replace_char (CHR ''<'') ''&lt;'' (replace_char (CHR ''&'') ''&amp;'' s)))"

abbreviation quote :: string where "quote \<equiv> [CHR 0x22]"
abbreviation newline :: string where "newline \<equiv> [CHR 0x0A]"

definition contents_entry :: "lib \<Rightarrow> object_record \<Rightarrow> string" where
  "contents_entry L r =
     ''<Contents><Key>'' @ xml_escape (original_filename r) @ ''</Key><Size>'' @ show_int (filesize_bytes r)
       @ ''</Size><ETag>&quot;'' @ xml_escape (etag r) @ ''&quot;</ETag><LastModified>''
       @ lib_rfc3339 L (date_modified r) @ ''</LastModified></Contents>''"

definition list_objects_xml :: "lib \<Rightarrow> node \<Rightarrow> response" where
  "list_objects_xml L n =
     \<lparr>rs_status = 200, rs_headers = [(''content-type'', ''application/xml'')],
      rs_body = ''<?xml version='' @ quote @ ''1.0'' @ quote @ '' encoding='' @ quote @ ''UTF-8'' @ quote @ ''?>'' @ newline
        @ ''<ListBucketResult xmlns='' @ quote @ ''http://s3.amazonaws.com/doc/2006-03-01/'' @ quote @ ''>'' @ newline
        @ ''  <Name>storage</Name>'' @ newline @ ''  <IsTruncated>false</IsTruncated>'' @ newline @ ''  ''
        @ concat (map (contents_entry L) (list_objects (node_db n))) @ newline @ ''</ListBucketResult>''\<rparr>"

section \<open>Uploading\<close>

definition resolve_etag_type :: "lib \<Rightarrow> headers \<Rightarrow> etag_type \<Rightarrow> etag_type" where
  "resolve_etag_type L hs dflt =
     (let v = (case header_get ''x-amz-meta-etag-type'' hs of Some v \<Rightarrow> Some v | None \<Rightarrow> header_get ''x-etag-type'' hs) in
      case Option.bind (Option.bind v (lib_to_str L)) etag_type_from_str of Some t \<Rightarrow> t | None \<Rightarrow> dflt)"

text \<open>The headers that name an etag, the algorithm's own only when it is not MD5.\<close>

definition custom_etag_headers :: "lib \<Rightarrow> string \<Rightarrow> etag_type \<Rightarrow> headers" where
  "custom_etag_headers L tag etype = (if etype = Md5 then []
     else [(''x-amz-meta-custom-etag'', header_or L [] tag),
           (''x-amz-meta-etag-type'', header_or L [] (etag_type_to_string etype))])"

definition etag_response :: "lib \<Rightarrow> int \<Rightarrow> string \<Rightarrow> etag_type \<Rightarrow> response" where
  "etag_response L st tag etype =
     \<lparr>rs_status = st, rs_headers = (''etag'', header_or L (quote @ quote) (quote @ tag @ quote))
        # custom_etag_headers L tag etype, rs_body = []\<rparr>"

text \<open>
  The upload of one object. The blob is written first, then the quota is checked, then the previous
  object of the key goes to the recycle bin, in a statement of its own; the new row and its jobs are
  one transaction.
\<close>

definition put_object_keyed_in_bucket ::
  "lib \<Rightarrow> string \<Rightarrow> string \<Rightarrow> headers \<Rightarrow> stream \<Rightarrow> int option \<Rightarrow> time \<Rightarrow> node \<Rightarrow> response \<times> node" where
  "put_object_keyed_in_bucket L uuid key hs body bucket now n =
     (let d = node_db n; eng = node_engine n in
      case (case bucket of Some b \<Rightarrow> Inr b | None \<Rightarrow> default_bucket_id d) of
        Inl e \<Rightarrow> (internal_error (err_msg e), n)
      | Inr b \<Rightarrow>
        (case bucket_etag_type_of b d of
           Inl e \<Rightarrow> (internal_error (err_msg e), n)
         | Inr dflt \<Rightarrow>
           (case put_chunks (lib_digest L) (lib_xof L) (lib_lower L) eng uuid body key
                   (resolve_etag_type L hs dflt) None None (node_fs n) of
              (Inl e, f) \<Rightarrow> (internal_error (err_msg e), n\<lparr>node_fs := f\<rparr>)
            | (Inr stored, f) \<Rightarrow>
                let previous_size = (case get_object_by_filename_in_bucket key b d of
                       Some r \<Rightarrow> filesize_bytes r | None \<Rightarrow> 0);
                    net_growth = saturating_sub (so_filesize_bytes stored) previous_size in
                (case check_hard_quota b net_growth d of
                   Inl e \<Rightarrow> (text_response (if err_has e ''quota exceeded'' then 413 else 500) (err_msg e),
                             n\<lparr>node_fs := unlink eng (so_filepath stored) f\<rparr>)
                 | Inr _ \<Rightarrow>
                     let d1 = snd (soft_delete_object_by_filename key (Some b) now d) in
                     (case insert_object_tx key (so_filepath stored) (so_file_format stored)
                             (so_filesize_bytes stored) (so_etag_type stored) (so_etag stored) b now d1 of
                        (Inl e, _) \<Rightarrow> (internal_error (err_msg e),
                          n\<lparr>node_db := d1, node_fs := unlink eng (so_filepath stored) f\<rparr>)
                      | (Inr i, d2) \<Rightarrow>
                          let d3 = snd (enqueue_put_for_active_peers i (so_filepath stored) (so_etag stored)
                                     (node_id n) now d2) in
                          (etag_response L 200 (so_etag stored) (so_etag_type stored),
                           n\<lparr>node_db := d3, node_fs := f,
                             node_events := node_events n @
                               [BytesUploaded (nat (so_filesize_bytes stored)),
                                ObjectCreated key (so_filesize_bytes stored)]\<rparr>))))))"

definition put_object_keyed ::
  "lib \<Rightarrow> string \<Rightarrow> string \<Rightarrow> headers \<Rightarrow> stream \<Rightarrow> time \<Rightarrow> node \<Rightarrow> response \<times> node" where
  "put_object_keyed L uuid key hs body now n = put_object_keyed_in_bucket L uuid key hs body None now n"

definition put_object ::
  "lib \<Rightarrow> string \<Rightarrow> string \<Rightarrow> headers \<Rightarrow> stream \<Rightarrow> time \<Rightarrow> node \<Rightarrow> response \<times> node" where
  "put_object L uuid raw_key hs body now n =
     (case normalize_object_key raw_key of
        Inl msg \<Rightarrow> (text_response 400 msg, n)
      | Inr key \<Rightarrow> put_object_keyed L uuid key hs body now n)"

section \<open>Downloading\<close>

definition parse_bytes_range :: "string \<Rightarrow> int \<Rightarrow> (int \<times> int) option" where
  "parse_bytes_range range_val file_len =
     (case strip_prefix (trim range_val) ''bytes='' of
        None \<Rightarrow> None
      | Some rest \<Rightarrow>
          let unit_s = trim (hd (split_on (CHR '','') (trim rest))) in
          if file_len = 0 then None
          else (case strip_prefix unit_s ''-'' of
                  Some suffix_s \<Rightarrow>
                    (case parse_u64 suffix_s of
                       None \<Rightarrow> None
                     | Some k \<Rightarrow> if k = 0 then None
                                 else Some (file_len - min k file_len, file_len - 1))
                | None \<Rightarrow>
                    (case split_once (CHR ''-'') unit_s of
                       None \<Rightarrow> None
                     | Some (start_s, end_s) \<Rightarrow>
                         (case parse_u64 start_s of
                            None \<Rightarrow> None
                          | Some start \<Rightarrow>
                              if start \<ge> file_len then None
                              else (case (if end_s = [] then Some (file_len - 1)
                                          else map_option (\<lambda>e. min e (file_len - 1)) (parse_u64 end_s)) of
                                      None \<Rightarrow> None
                                    | Some e \<Rightarrow> if e < start then None else Some (start, e))))))"

definition no_such_key :: response where
  "no_such_key = \<lparr>rs_status = 404, rs_headers = [(''content-type'', ''application/xml'')],
     rs_body = ''<?xml version='' @ quote @ ''1.0'' @ quote
       @ ''?><Error><Code>NoSuchKey</Code><Message>The specified key does not exist.</Message></Error>''\<rparr>"

definition object_headers :: "lib \<Rightarrow> object_record \<Rightarrow> headers" where
  "object_headers L r =
     [(''accept-ranges'', ''bytes''),
      (''etag'', header_or L (quote @ quote) (quote @ etag r @ quote)),
      (''content-type'', header_or L ''application/octet-stream'' (lib_mime L (original_filename r)))]
     @ custom_etag_headers L (etag r) (obj_etag_type r)"

definition get_object_keyed_with_headers ::
  "lib \<Rightarrow> string \<Rightarrow> headers \<Rightarrow> node \<Rightarrow> response \<times> node" where
  "get_object_keyed_with_headers L key hs n =
     (case get_object_by_filename key (node_db n) of
        None \<Rightarrow> (no_such_key, n)
      | Some r \<Rightarrow>
          let file_len = max (filesize_bytes r) 0;
              range_hdr = Option.bind (header_get ''range'' hs) (lib_to_str L);
              parsed = Option.bind range_hdr (\<lambda>v. parse_bytes_range v file_len) in
          if range_hdr \<noteq> None \<and> parsed = None \<and> file_len > 0
          then (\<lparr>rs_status = 416,
                 rs_headers = [(''accept-ranges'', ''bytes''),
                   (''content-range'', header_or L ''bytes */0'' (''bytes */'' @ show_int file_len))],
                 rs_body = []\<rparr>, n)
          else (case open_read (node_engine n) (filepath r) (node_fs n) of
                  Inl e \<Rightarrow> (internal_error (err_msg e), n)
                | Inr bs \<Rightarrow>
                    (case parsed of
                       Some (start, stop) \<Rightarrow>
                         let len = stop - start + 1 in
                         (\<lparr>rs_status = 206,
                           rs_headers = object_headers L r @ [(''content-length'', header_or L ''0'' (show_int len)),
                             (''content-range'', header_or L ''bytes 0-0/0''
                                (''bytes '' @ show_int start @ ''-'' @ show_int stop @ ''/'' @ show_int file_len))],
                           rs_body = take (nat len) (drop (nat start) bs)\<rparr>,
                          n\<lparr>node_events := node_events n @ [BytesDownloaded (nat len)]\<rparr>)
                     | None \<Rightarrow>
                         (\<lparr>rs_status = 200,
                           rs_headers = object_headers L r @
                             [(''content-length'', header_or L ''0'' (show_int file_len))],
                           rs_body = bs\<rparr>,
                          n\<lparr>node_events := node_events n @ [BytesDownloaded (nat file_len)]\<rparr>))))"

definition get_object_keyed :: "lib \<Rightarrow> string \<Rightarrow> node \<Rightarrow> response \<times> node" where
  "get_object_keyed L key n = get_object_keyed_with_headers L key [] n"

definition get_object :: "lib \<Rightarrow> string \<Rightarrow> node \<Rightarrow> response \<times> node" where
  "get_object L raw_key n =
     (case normalize_object_key raw_key of
        Inl msg \<Rightarrow> (text_response 400 msg, n)
      | Inr key \<Rightarrow> get_object_keyed L key n)"

section \<open>Deleting\<close>

definition delete_object_keyed_in_bucket :: "string \<Rightarrow> int option \<Rightarrow> time \<Rightarrow> node \<Rightarrow> response \<times> node" where
  "delete_object_keyed_in_bucket key bucket now n =
     (\<lparr>rs_status = 204, rs_headers = [], rs_body = []\<rparr>,
      n\<lparr>node_db := snd (soft_delete_object_by_filename key bucket now (node_db n))\<rparr>)"

definition delete_object_keyed :: "string \<Rightarrow> time \<Rightarrow> node \<Rightarrow> response \<times> node" where
  "delete_object_keyed key now n = delete_object_keyed_in_bucket key None now n"

definition delete_object_route :: "string \<Rightarrow> time \<Rightarrow> node \<Rightarrow> response \<times> node" where
  "delete_object_route raw_key now n =
     (case normalize_object_key raw_key of
        Inl msg \<Rightarrow> (text_response 400 msg, n)
      | Inr key \<Rightarrow> delete_object_keyed key now n)"
end
