(* ===== verification/Config.thy ===== *)
theory Config
  imports Models
begin

text \<open>
  The configuration of \<open>src/config.rs\<close>: the command line, the environment, the file that keeps the
  storage root, and the normal form of a storage path; what they promise follows the definitions.
\<close>

section \<open>The command line\<close>

record cli_overrides =
  cli_bind_addr :: "string option"
  cli_grpc_bind_addr :: "string option"
  cli_storage_root :: "string option"

definition cli_default :: cli_overrides where
  "cli_default = \<lparr>cli_bind_addr = None, cli_grpc_bind_addr = None, cli_storage_root = None\<rparr>"

text \<open>\<open>args.get(i)\<close>\<close>

definition arg_at :: "string list \<Rightarrow> nat \<Rightarrow> string option" where
  "arg_at args i = (if i < length args then Some (args ! i) else None)"

text \<open>
  The \<open>while\<close> loop over the index \<open>i\<close>: the value that not returning would have is \<open>None\<close>.
\<close>

partial_function (option) cli_loop :: "string list \<Rightarrow> nat \<Rightarrow> cli_overrides \<Rightarrow> cli_overrides option" where
  "cli_loop args i out =
     (if i < length args then
        let a = args ! i in
        if a = ''serve'' then cli_loop args (i + 1) out
        else if a = ''--bind'' \<or> a = ''-b'' then
          (case arg_at args (i + 1) of
             Some v \<Rightarrow> cli_loop args (i + 2) (out\<lparr>cli_bind_addr := Some v\<rparr>)
           | None \<Rightarrow> cli_loop args (i + 1) out)
        else if a = ''--storage'' \<or> a = ''--storage-root'' then
          (case arg_at args (i + 1) of
             Some v \<Rightarrow> cli_loop args (i + 2) (out\<lparr>cli_storage_root := Some v\<rparr>)
           | None \<Rightarrow> cli_loop args (i + 1) out)
        else if a = ''--grpc-bind'' then
          (case arg_at args (i + 1) of
             Some v \<Rightarrow> cli_loop args (i + 2) (out\<lparr>cli_grpc_bind_addr := Some v\<rparr>)
           | None \<Rightarrow> cli_loop args (i + 1) out)
        else if starts_with a ''--bind='' then
          cli_loop args (i + 1) (out\<lparr>cli_bind_addr := Some (drop (length ''--bind='') a)\<rparr>)
        else if starts_with a ''--storage='' then
          cli_loop args (i + 1) (out\<lparr>cli_storage_root := Some (drop (length ''--storage='') a)\<rparr>)
        else if starts_with a ''--storage-root='' then
          cli_loop args (i + 1) (out\<lparr>cli_storage_root := Some (drop (length ''--storage-root='') a)\<rparr>)
        else if starts_with a ''--grpc-bind='' then
          cli_loop args (i + 1) (out\<lparr>cli_grpc_bind_addr := Some (drop (length ''--grpc-bind='') a)\<rparr>)
        else cli_loop args (i + 1) out
      else Some out)"

definition parse_cli_overrides :: "string list \<Rightarrow> cli_overrides option" where
  "parse_cli_overrides args = cli_loop args 0 cli_default"

section \<open>Paths\<close>

text \<open>
  A \<open>Path\<close> is the list of its components, which is the equality the library gives it.
  \<open>components()\<close> drops empty segments and every \<open>.\<close> but a leading one.
\<close>

datatype path_comp = RootDir | CurDir | ParentDir | Normal string

type_synonym path = "path_comp list"

definition seg_comps :: "string \<Rightarrow> path" where
  "seg_comps seg = (if seg = [] \<or> seg = ''.'' then [] else if seg = ''..'' then [ParentDir] else [Normal seg])"

definition path_of :: "string \<Rightarrow> path" where
  "path_of s =
     (let segs = split_on (CHR ''/'') s in
      (if starts_with s ''/'' then [RootDir] else if hd segs = ''.'' then [CurDir] else [])
        @ concat (map seg_comps segs))"

fun comp_str :: "path_comp \<Rightarrow> string" where
  "comp_str RootDir = ''/''"
| "comp_str CurDir = ''.''"
| "comp_str ParentDir = ''..''"
| "comp_str (Normal s) = s"

definition path_display :: "path \<Rightarrow> string" where
  "path_display p = (case p of RootDir # q \<Rightarrow> CHR ''/'' # join ''/'' (map comp_str q)
     | _ \<Rightarrow> join ''/'' (map comp_str p))"

definition is_absolute :: "path \<Rightarrow> bool" where
  "is_absolute p \<longleftrightarrow> p \<noteq> [] \<and> hd p = RootDir"

text \<open>\<open>push\<close> and \<open>join\<close> of a relative path append, of an absolute one replace.\<close>

definition comps_join :: "path \<Rightarrow> path \<Rightarrow> path" where
  "comps_join p q = (if is_absolute q \<or> p = [] then q else p @ filter (\<lambda>c. c \<noteq> CurDir) q)"

definition path_push :: "path \<Rightarrow> path_comp \<Rightarrow> path" where
  "path_push p c = (if c = RootDir then [RootDir] else p @ [c])"

definition path_pop :: "path \<Rightarrow> path" where
  "path_pop p = (if p = [] \<or> last p = RootDir then p else butlast p)"

definition normalize_step :: "path \<Rightarrow> path_comp \<Rightarrow> path" where
  "normalize_step out c =
     (case c of ParentDir \<Rightarrow> path_pop out | CurDir \<Rightarrow> out | _ \<Rightarrow> path_push out c)"

definition normalize_path :: "path \<Rightarrow> path" where
  "normalize_path p = foldl normalize_step [] p"

text \<open>The current directory is \<open>None\<close> when the system does not give one.\<close>

definition resolve_storage_path :: "path option \<Rightarrow> string \<Rightarrow> string + path" where
  "resolve_storage_path cwd input =
     (let trimmed = trim input in
      if trimmed = [] then Inl ''storage path is required''
      else
        let p = path_of trimmed in
        if is_absolute p then Inr (normalize_path p)
        else (case cwd of
                None \<Rightarrow> Inl ''resolve current directory''
              | Some dir \<Rightarrow> Inr (normalize_path (comps_join dir p))))"

text \<open>
  The file that keeps the chosen root: its text, \<open>None\<close> when there is none. \<open>writable\<close> says whether
  the directory can be created and the file written.
\<close>

definition persist_storage_root ::
  "path option \<Rightarrow> bool \<times> bool \<Rightarrow> path \<Rightarrow> string option \<Rightarrow> (string + unit) \<times> string option" where
  "persist_storage_root cwd writable p override =
     (case (if is_absolute p then Inr (normalize_path p) else resolve_storage_path cwd (path_display p)) of
        Inl e \<Rightarrow> (Inl e, override)
      | Inr absolute \<Rightarrow>
          if \<not> fst writable then (Inl ''create .mys3 directory'', override)
          else if \<not> snd writable then (Inl ''write storage root override'', override)
          else (Inr (), Some (path_display absolute @ [CHR 0x0A])))"

definition read_persisted_storage_root :: "string option \<Rightarrow> string option" where
  "read_persisted_storage_root override =
     Option.bind override (\<lambda>raw. let trimmed = trim raw in if trimmed = [] then None else Some trimmed)"

section \<open>The configuration\<close>

record peer_seed =
  seed_id :: string
  seed_endpoint :: string

definition parse_cluster_peers :: "string \<Rightarrow> peer_seed list" where
  "parse_cluster_peers raw =
     List.map_filter (\<lambda>e. let entry = trim e in
       if entry = [] then None
       else map_option (\<lambda>(i, ep). \<lparr>seed_id = trim i, seed_endpoint = trim ep\<rparr>) (split_once (CHR ''='') entry))
     (split_on (CHR '','') raw)"

text \<open>
  Socket addresses are the library's: \<open>ho_parse_addr\<close> reads one, \<open>ho_ip\<close> prints its address and
  \<open>ho_loopback\<close> tests it. The rest of \<open>host\<close> is what the process finds: its arguments without the
  program's name, the environment, the text of the override file, and whether it writes to a terminal.
\<close>

record 'a host =
  ho_parse_addr :: "string \<Rightarrow> string + 'a"
  ho_ip :: "'a \<Rightarrow> string"
  ho_loopback :: "'a \<Rightarrow> bool"
  ho_args :: "string list"
  ho_env :: "string \<Rightarrow> string option"
  ho_override :: "string option"
  ho_terminal :: bool

record 'a config =
  cfg_storage_root :: path
  bind_addr :: 'a
  grpc_bind_addr :: 'a
  embed_wg :: bool
  cfg_node_id :: string
  aws_access_key_id :: string
  aws_secret_access_key :: string
  default_etag_type :: etag_type
  cluster_peers :: "peer_seed list"
  wg_private_key :: "string option"
  disable_tui :: bool

definition or_else :: "'b option \<Rightarrow> 'b option \<Rightarrow> 'b option" where
  "or_else a b = (case a of Some x \<Rightarrow> Some x | None \<Rightarrow> b)"

definition unwrap_or :: "'b option \<Rightarrow> 'b \<Rightarrow> 'b" where
  "unwrap_or a d = (case a of Some x \<Rightarrow> x | None \<Rightarrow> d)"

definition env_flag :: "string option \<Rightarrow> bool" where
  "env_flag v \<longleftrightarrow> v \<in> {Some ''1'', Some ''true'', Some ''TRUE'', Some ''yes'', Some ''YES''}"

definition config_of :: "'a host \<Rightarrow> cli_overrides \<Rightarrow> string + 'a config" where
  "config_of h cli =
     (let env = ho_env h;
          root = unwrap_or (or_else (cli_storage_root cli) (or_else (env ''STORAGE_ROOT'')
                   (read_persisted_storage_root (ho_override h)))) ''.data'' in
      case ho_parse_addr h (unwrap_or (or_else (cli_bind_addr cli) (env ''WIREGUARD_BIND_ADDR'')) ''10.0.0.1:9000'') of
        Inl e \<Rightarrow> Inl e
      | Inr bind \<Rightarrow>
        (case ho_parse_addr h (unwrap_or (or_else (cli_grpc_bind_addr cli) (env ''GRPC_BIND_ADDR''))
                (if ho_loopback h bind then ho_ip h bind @ '':50051'' else ''10.0.0.1:50051'')) of
           Inl e \<Rightarrow> Inl e
         | Inr grpc \<Rightarrow> Inr
             \<lparr>cfg_storage_root = path_of root, bind_addr = bind, grpc_bind_addr = grpc,
              embed_wg = env_flag (env ''EMBED_WG''),
              cfg_node_id = unwrap_or (env ''NODE_ID'') ''node-local-1'',
              aws_access_key_id = unwrap_or (env ''AWS_ACCESS_KEY_ID'') ''minioadmin'',
              aws_secret_access_key = unwrap_or (env ''AWS_SECRET_ACCESS_KEY'') ''minioadmin'',
              default_etag_type = unwrap_or (Option.bind (env ''DEFAULT_ETAG_TYPE'') etag_type_from_str) Md5,
              cluster_peers = parse_cluster_peers (unwrap_or (env ''CLUSTER_PEERS'') []),
              wg_private_key = env ''WG_PRIVATE_KEY'',
              disable_tui = env_flag (env ''DISABLE_TUI'') \<or> \<not> ho_terminal h\<rparr>))"

definition from_env :: "'a host \<Rightarrow> (string + 'a config) option" where
  "from_env h = map_option (config_of h) (parse_cli_overrides (ho_args h))"

definition config_objects_dir :: "'a config \<Rightarrow> path" where
  "config_objects_dir c = comps_join (cfg_storage_root c) [Normal ''objects'']"

definition metadata_db_path :: "'a config \<Rightarrow> path" where
  "metadata_db_path c = comps_join (cfg_storage_root c) [Normal ''metadata.db'']"


section \<open>What the command line means\<close>

datatype cli_field = BindField | GrpcField | StorageField

definition value_flag :: "string \<Rightarrow> cli_field option" where
  "value_flag a =
     (if a = ''--bind'' \<or> a = ''-b'' then Some BindField
      else if a = ''--storage'' \<or> a = ''--storage-root'' then Some StorageField
      else if a = ''--grpc-bind'' then Some GrpcField else None)"

definition inline_setting :: "string \<Rightarrow> (cli_field \<times> string) list" where
  "inline_setting a =
     (case strip_prefix a ''--bind='' of Some v \<Rightarrow> [(BindField, v)]
      | None \<Rightarrow> case strip_prefix a ''--storage='' of Some v \<Rightarrow> [(StorageField, v)]
      | None \<Rightarrow> case strip_prefix a ''--storage-root='' of Some v \<Rightarrow> [(StorageField, v)]
      | None \<Rightarrow> case strip_prefix a ''--grpc-bind='' of Some v \<Rightarrow> [(GrpcField, v)] | None \<Rightarrow> [])"

fun cli_settings :: "string list \<Rightarrow> (cli_field \<times> string) list" where
  "cli_settings [] = []"
| "cli_settings [a] = (if value_flag a = None then inline_setting a else [])"
| "cli_settings (a # v # as) =
     (case value_flag a of
        Some fld \<Rightarrow> (fld, v) # cli_settings as
      | None \<Rightarrow> inline_setting a @ cli_settings (v # as))"

definition last_value :: "cli_field \<Rightarrow> (cli_field \<times> string) list \<Rightarrow> string option" where
  "last_value fld ss = map_of (rev ss) fld"

definition apply_settings :: "(cli_field \<times> string) list \<Rightarrow> cli_overrides \<Rightarrow> cli_overrides" where
  "apply_settings ss out =
     \<lparr>cli_bind_addr = or_else (last_value BindField ss) (cli_bind_addr out),
      cli_grpc_bind_addr = or_else (last_value GrpcField ss) (cli_grpc_bind_addr out),
      cli_storage_root = or_else (last_value StorageField ss) (cli_storage_root out)\<rparr>"

lemma last_value_Nil: "last_value f [] = None"
  by (simp add: last_value_def)

lemma last_value_Cons: "last_value f ((g, v) # ss) = or_else (last_value f ss) (if f = g then Some v else None)"
  by (auto simp: last_value_def or_else_def map_add_def split: option.splits)

lemma or_else_simps: "or_else None b = b" "or_else (Some x) b = Some x" "or_else a None = a"
  "or_else (or_else a b) c = or_else a (or_else b c)"
  by (auto simp: or_else_def split: option.splits)

lemma apply_settings_Nil: "apply_settings [] out = out"
  by (simp add: apply_settings_def last_value_Nil or_else_simps)

lemma apply_settings_Cons:
  "apply_settings ((BindField, v) # ss) out = apply_settings ss (out\<lparr>cli_bind_addr := Some v\<rparr>)"
  "apply_settings ((GrpcField, v) # ss) out = apply_settings ss (out\<lparr>cli_grpc_bind_addr := Some v\<rparr>)"
  "apply_settings ((StorageField, v) # ss) out = apply_settings ss (out\<lparr>cli_storage_root := Some v\<rparr>)"
  by (simp_all add: apply_settings_def last_value_Cons or_else_simps)

lemmas apply_settings_simps = apply_settings_Nil apply_settings_Cons

lemma drop_Suc_nth: "i < length xs \<Longrightarrow> drop i xs = xs ! i # drop (Suc i) xs"
  by (simp add: Cons_nth_drop_Suc)

lemma cli_loop_settings:
  "cli_loop args i out = Some (apply_settings (cli_settings (drop i args)) out)"
proof (induction "length args - i" arbitrary: i out rule: less_induct)
  case less
  show ?case
  proof (cases "i < length args")
    case False
    then show ?thesis by (subst cli_loop.simps) (simp add: apply_settings_simps)
  next
    case True
    define a where "a = args ! i"
    have d: "drop i args = a # drop (Suc i) args" using True by (simp add: a_def drop_Suc_nth)
    have one: "cli_loop args (Suc i) o1 = Some (apply_settings (cli_settings (drop (Suc i) args)) o1)" for o1
      using less.hyps True by (simp add: diff_less_mono2)
    have inl: "cli_settings (drop i args) = inline_setting a @ cli_settings (drop (Suc i) args)"
      if "value_flag a = None"
      unfolding d using that by (cases "drop (Suc i) args") simp_all
    show ?thesis
    proof (cases "value_flag a")
      case None
      have "a \<noteq> ''--bind''" "a \<noteq> ''-b''" "a \<noteq> ''--storage''" "a \<noteq> ''--storage-root''" "a \<noteq> ''--grpc-bind''"
        using None by (auto simp: value_flag_def)
      note flags = this
      have serve: "inline_setting ''serve'' = []" by code_simp
      show ?thesis
      proof (cases "a = ''serve''")
        case a: True
        show ?thesis
          unfolding inl [OF None] using True flags
          by (subst cli_loop.simps) (simp add: Let_def a_def [symmetric] one a serve)
      next
        case False
        then show ?thesis
          unfolding inl [OF None] using True flags
          by (subst cli_loop.simps)
             (simp add: Let_def a_def [symmetric] one inline_setting_def strip_prefix_def apply_settings_simps)
      qed
    next
      case (Some fld)
      show ?thesis
      proof (cases "Suc i < length args")
        case True
        then have d2: "drop (Suc i) args = args ! Suc i # drop (Suc (Suc i)) args" by (rule drop_Suc_nth)
        have two: "cli_loop args (Suc (Suc i)) o1 = Some (apply_settings (cli_settings (drop (Suc (Suc i)) args)) o1)" for o1
          using less.hyps \<open>i < length args\<close> by simp
        have "cli_settings (drop i args) = (fld, args ! Suc i) # cli_settings (drop (Suc (Suc i)) args)"
          unfolding d d2 using Some by simp
        then show ?thesis using True \<open>i < length args\<close> Some two
          by (subst cli_loop.simps)
             (auto simp: Let_def a_def [symmetric] arg_at_def value_flag_def apply_settings_simps split: if_split_asm)
      next
        case False
        then have "cli_settings (drop i args) = []" unfolding d using Some by simp
        moreover have "drop (Suc i) args = []" using False by simp
        ultimately show ?thesis using \<open>i < length args\<close> False Some one
          by (subst cli_loop.simps)
             (auto simp: Let_def a_def [symmetric] arg_at_def value_flag_def apply_settings_simps split: if_split_asm)
      qed
    qed
  qed
qed

text \<open>C33: the argument loop always returns, and what it returns is the last value given for each of the
three settings, a flag without a value being ignored.\<close>

theorem parse_cli_overrides_returns:
  "parse_cli_overrides args =
     Some \<lparr>cli_bind_addr = last_value BindField (cli_settings args),
           cli_grpc_bind_addr = last_value GrpcField (cli_settings args),
           cli_storage_root = last_value StorageField (cli_settings args)\<rparr>"
  by (simp add: parse_cli_overrides_def cli_loop_settings apply_settings_def cli_default_def or_else_simps)


section \<open>Resolved and persisted paths\<close>

definition plain_comp :: "path_comp \<Rightarrow> bool" where
  "plain_comp c = (case c of Normal s \<Rightarrow> s \<noteq> [] \<and> s \<noteq> ''.'' \<and> s \<noteq> ''..'' \<and> CHR ''/'' \<notin> set s | _ \<Rightarrow> False)"

text \<open>An absolute path of names only.\<close>

definition abs_normal :: "path \<Rightarrow> bool" where
  "abs_normal p \<longleftrightarrow> p \<noteq> [] \<and> hd p = RootDir \<and> list_all plain_comp (tl p)"

lemma abs_normalE:
  assumes "abs_normal p" obtains q where "p = RootDir # q" "list_all plain_comp q"
  using assms by (cases p) (auto simp: abs_normal_def)

lemma normalize_fold_abs:
  "abs_normal out \<Longrightarrow> list_all (\<lambda>c. c = CurDir \<or> c = ParentDir \<or> plain_comp c) q
    \<Longrightarrow> abs_normal (foldl normalize_step out q)"
proof (induction q arbitrary: out)
  case (Cons c q)
  obtain o1 where o1: "out = RootDir # o1" "list_all plain_comp o1" using Cons.prems(1) by (rule abs_normalE)
  have "abs_normal (normalize_step out c)"
  proof (cases c)
    case ParentDir
    show ?thesis using o1 unfolding ParentDir
      by (cases o1 rule: rev_cases) (auto simp: normalize_step_def path_pop_def abs_normal_def plain_comp_def)
  qed (use Cons.prems o1 in \<open>auto simp: normalize_step_def path_push_def abs_normal_def plain_comp_def\<close>)
  then show ?case using Cons by simp
qed simp

lemma seg_comps_ok: "CHR ''/'' \<notin> set seg \<Longrightarrow> list_all (\<lambda>c. c = CurDir \<or> c = ParentDir \<or> plain_comp c) (seg_comps seg)"
  by (auto simp: seg_comps_def plain_comp_def)

lemma path_of_absolute: "is_absolute (path_of s) \<longleftrightarrow> starts_with s ''/''"
proof -
  have "\<not> is_absolute (concat (map seg_comps segs))" for segs
    by (induction segs) (auto simp: is_absolute_def seg_comps_def)
  then show ?thesis by (auto simp: path_of_def Let_def is_absolute_def)
qed

lemma path_of_comps:
  "list_all (\<lambda>c. c = CurDir \<or> c = ParentDir \<or> plain_comp c) (if starts_with s ''/'' then tl (path_of s) else path_of s)"
proof -
  have "list_all (\<lambda>c. c = CurDir \<or> c = ParentDir \<or> plain_comp c) (concat (map seg_comps (split_on (CHR ''/'') s)))"
    using split_on_no_sep [of _ "CHR ''/''" s] seg_comps_ok by (fastforce simp: list_all_iff)
  then show ?thesis by (simp add: path_of_def Let_def)
qed

lemma normalize_abs: "abs_normal (normalize_path (RootDir # q))"
  if "list_all (\<lambda>c. c = CurDir \<or> c = ParentDir \<or> plain_comp c) q"
  using normalize_fold_abs [OF _ that, of "[RootDir]"]
  by (simp add: normalize_path_def normalize_step_def path_push_def abs_normal_def)

lemma normalize_fold_id: "list_all plain_comp q \<Longrightarrow> foldl normalize_step out q = out @ q"
  by (induction q arbitrary: out) (auto simp: normalize_step_def path_push_def plain_comp_def split: path_comp.splits)

lemma normalize_id: "abs_normal p \<Longrightarrow> normalize_path p = p"
  by (erule abs_normalE) (simp add: normalize_path_def normalize_step_def path_push_def normalize_fold_id)

lemma list_all_weaken: "list_all plain_comp q \<Longrightarrow> list_all (\<lambda>c. c = CurDir \<or> c = ParentDir \<or> plain_comp c) q"
  by (auto simp: list_all_iff)

lemma resolve_abs:
  assumes "resolve_storage_path cwd input = Inr p" "list_all abs_normal (case cwd of None \<Rightarrow> [] | Some dir \<Rightarrow> [dir])"
  shows "abs_normal p"
proof (cases "starts_with (trim input) ''/''")
  case True
  then obtain q where q: "path_of (trim input) = RootDir # q" by (auto simp: path_of_def Let_def)
  then have "list_all (\<lambda>c. c = CurDir \<or> c = ParentDir \<or> plain_comp c) q" using path_of_comps [of "trim input"] True by simp
  moreover have "p = normalize_path (RootDir # q)"
    using assms(1) q by (auto simp: resolve_storage_path_def is_absolute_def Let_def split: if_split_asm)
  ultimately show ?thesis by (simp add: normalize_abs)
next
  case False
  then obtain dir where dir: "cwd = Some dir" "p = normalize_path (comps_join dir (path_of (trim input)))"
    using assms(1) by (auto simp: resolve_storage_path_def path_of_absolute Let_def split: if_split_asm option.splits)
  obtain q where q: "dir = RootDir # q" "list_all plain_comp q" using assms(2) dir(1) by (auto elim: abs_normalE)
  have "list_all (\<lambda>c. c = CurDir \<or> c = ParentDir \<or> plain_comp c) (filter (\<lambda>c. c \<noteq> CurDir) (path_of (trim input)))"
    using path_of_comps [of "trim input"] False by (auto simp: list_all_iff)
  then show ?thesis
    using dir(2) q False by (simp add: comps_join_def path_of_absolute normalize_abs list_all_weaken)
qed

lemma plain_comp_str: "plain_comp c \<Longrightarrow> CHR ''/'' \<notin> set (comp_str c) \<and> seg_comps (comp_str c) = [c]"
  by (cases c) (auto simp: plain_comp_def seg_comps_def)

lemma path_of_display:
  assumes "abs_normal p" shows "path_of (path_display p) = p"
proof -
  obtain q where q: "p = RootDir # q" "list_all plain_comp q" using assms by (rule abs_normalE)
  have "concat (map seg_comps (map comp_str q)) = q"
    using q(2) by (induction q) (auto simp: plain_comp_str)
  moreover have "split_on (CHR ''/'') (join ''/'' (map comp_str q)) = map comp_str q" if "q \<noteq> []"
    using that q(2) by (intro split_on_join) (auto simp: list_all_iff plain_comp_str)
  moreover have "starts_with (path_display p) ''/''" using q by (simp add: path_display_def starts_with_def)
  ultimately show ?thesis
    using q by (cases "q = []") (simp_all add: path_display_def path_of_def Let_def seg_comps_def)
qed

lemma display_starts: "abs_normal p \<Longrightarrow> \<exists>cs. path_display p = CHR ''/'' # cs"
  by (erule abs_normalE) (simp add: path_display_def)

text \<open>C34: a resolved storage path is an absolute path of names only: the current directory it was
resolved against, the dots and the double slashes are gone, and resolving it again, from any directory,
gives it back when its text does not end in white space.\<close>

theorem resolve_storage_path_canonical:
  assumes "list_all abs_normal (case cwd of None \<Rightarrow> [] | Some dir \<Rightarrow> [dir])"
    and "resolve_storage_path cwd input = Inr p"
  shows "abs_normal p \<and> path_of (path_display p) = p
    \<and> (trim (path_display p) = path_display p \<longrightarrow> resolve_storage_path cwd2 (path_display p) = Inr p)"
proof (intro conjI impI)
  show p: "abs_normal p" using resolve_abs assms by blast
  show "path_of (path_display p) = p" using p by (rule path_of_display)
  show "resolve_storage_path cwd2 (path_display p) = Inr p" if "trim (path_display p) = path_display p"
    using that display_starts [OF p] path_of_display [OF p] normalize_id [OF p] p
    by (auto simp: resolve_storage_path_def Let_def is_absolute_def abs_normal_def)
qed

theorem resolve_storage_path_canonical_witness:
  "abs_normal [RootDir, Normal ''srv'', Normal ''data''] \<and>
   resolve_storage_path None ''/srv/data'' = Inr [RootDir, Normal ''srv'', Normal ''data'']"
  using resolve_storage_path_canonical
    [of "Some [RootDir, Normal ''srv'', Normal ''mys3'']" "'' ../data/./x/.. ''" "[RootDir, Normal ''srv'', Normal ''data'']" None]
  by code_simp

lemma trim_rev_keeps: "xs \<noteq> [] \<Longrightarrow> plain_char (last xs) \<Longrightarrow> trim_rev xs \<noteq> []"
proof (induction xs rule: trim_rev.induct)
  case (1 x y z s)
  show ?case
  proof (cases "s = []")
    case True
    then have "\<not> ws1 z" "\<not> ws2 z y" "\<not> ws3 z y x" using 1(5) plain_not_ws [of z] by simp_all
    then show ?thesis using True 1 by simp
  next
    case False
    then show ?thesis using 1 by simp
  qed
next
  case (2 x y)
  then show ?case using plain_not_ws [of y] by simp
next
  case (3 x)
  then show ?case using plain_not_ws [of x] by simp
qed simp

text \<open>The text of an absolute path with a line break after it, trimmed.\<close>

lemma trim_snoc_newline:
  assumes "s = CHR ''/'' # cs"
  shows "trim (s @ [CHR 0x0A]) = trim s" "trim s \<noteq> []"
proof -
  have start: "trim_start (CHR ''/'' # x) = CHR ''/'' # x" for x
    by (rule trim_start_plain) (simp add: plain_char_def)
  have nl: "trim_rev (CHR 0x0A # x) = trim_rev x" for x
    by (cases "CHR 0x0A # x" rule: trim_rev.cases) (auto simp: ws1_def)
  show "trim (s @ [CHR 0x0A]) = trim s"
    using start nl by (simp add: assms trim_def trim_end_def)
  show "trim s \<noteq> []"
    using start trim_rev_keeps [of "rev cs @ [CHR ''/'']"] by (simp add: assms trim_def trim_end_def plain_char_def)
qed

lemma persist_reads_back:
  assumes p: "abs_normal p"
  shows "\<exists>s. persist_storage_root cwd (True, True) p old = (Inr (), s)
    \<and> read_persisted_storage_root s = Some (trim (path_display p))"
proof -
  have abs: "is_absolute p" using p by (simp add: is_absolute_def abs_normal_def)
  obtain cs where cs: "path_display p = CHR ''/'' # cs" using display_starts [OF p] by blast
  have "persist_storage_root cwd (True, True) p old = (Inr (), Some (path_display p @ [CHR 0x0A]))"
    using abs by (simp add: persist_storage_root_def normalize_id [OF p])
  moreover have "read_persisted_storage_root (Some (path_display p @ [CHR 0x0A])) = Some (trim (path_display p))"
    using trim_snoc_newline [OF cs] by (simp add: read_persisted_storage_root_def)
  ultimately show ?thesis by blast
qed

lemma config_root:
  assumes "config_of h cli = Inr c" "cli_storage_root cli = None" "ho_env h ''STORAGE_ROOT'' = None"
    and "read_persisted_storage_root (ho_override h) = Some root"
  shows "cfg_storage_root c = path_of root"
  using assms by (auto simp: config_of_def Let_def or_else_def unwrap_or_def split: sum.splits)

text \<open>The root chosen with the storage relocation survives a restart: after it is persisted, a start
without \<open>--storage\<close> and \<open>STORAGE_ROOT\<close> configures exactly that path.\<close>

theorem storage_root_survives_restart:
  assumes "list_all abs_normal (case cwd of None \<Rightarrow> [] | Some dir \<Rightarrow> [dir])"
    and "resolve_storage_path cwd input = Inr p" and "trim (path_display p) = path_display p"
    and "cli_storage_root cli = None" "ho_env h ''STORAGE_ROOT'' = None"
    and "ho_override h = snd (persist_storage_root cwd2 (True, True) p old)"
    and "config_of h cli = Inr c"
  shows "fst (persist_storage_root cwd2 (True, True) p old) = Inr () \<and> cfg_storage_root c = p"
proof -
  have p: "abs_normal p" using resolve_abs assms(1,2) by blast
  obtain s where s: "persist_storage_root cwd2 (True, True) p old = (Inr (), s)"
    "read_persisted_storage_root s = Some (path_display p)"
    using persist_reads_back [OF p, of cwd2 old] assms(3) by auto
  then have "cfg_storage_root c = path_of (path_display p)"
    using config_root [OF assms(7,4,5)] assms(6) by simp
  then show ?thesis using s path_of_display [OF p] by simp
qed

definition demo_host :: "string host" where
  "demo_host = \<lparr>ho_parse_addr = Inr, ho_ip = (\<lambda>a. ''127.0.0.1''), ho_loopback = (\<lambda>a. True), ho_args = [],
     ho_env = (\<lambda>v. None), ho_override = Some ''/srv/data
'', ho_terminal = False\<rparr>"

theorem storage_root_survives_restart_witness:
  "resolve_storage_path None ''/srv/data'' = Inr [RootDir, Normal ''srv'', Normal ''data''] \<and>
   (case config_of demo_host cli_default of Inl _ \<Rightarrow> False
    | Inr c \<Rightarrow> cfg_storage_root c = [RootDir, Normal ''srv'', Normal ''data''])"
proof -
  have r: "resolve_storage_path None ''/srv/data'' = Inr [RootDir, Normal ''srv'', Normal ''data'']" by code_simp
  obtain c where c: "config_of demo_host cli_default = Inr c"
    by (simp add: config_of_def demo_host_def Let_def)
  have "cfg_storage_root c = [RootDir, Normal ''srv'', Normal ''data'']"
    using storage_root_survives_restart [OF _ r _ _ _ _ c, of None None]
    by (rule conjunct2) code_simp+
  then show ?thesis using r c by simp
qed

end
