(* ===== verification/Media.thy ===== *)
theory Media
  imports Config Shares Keys "HOL-Library.Word"
begin

text \<open>
  The signed access tokens and the links of \<open>src/server/media_access.rs\<close>, and what they promise: a token
  is accepted for what it was made for until it ends, nothing unsigned is accepted, and a link decodes to
  the key it was made for.
\<close>

unbundle bit_operations_syntax

section \<open>Tokens\<close>

definition PERSONAL_TTL_SECS :: int where "PERSONAL_TTL_SECS = 24 * 3600"
definition SHARE_TOKEN_MAX_SECS :: int where "SHARE_TOKEN_MAX_SECS = 7 * 24 * 3600"

datatype media_grant =
  ShareGrant (grant_share_id: int) (grant_bucket_id: int) (exp_unix: int)
| PersonalGrant (grant_account_id: int) (grant_bucket_id: int) (grant_key: string) (exp_unix: int)

text \<open>
  The crates: HMAC-SHA256 of a payload under a key (or the text of its error), URL-safe base64, the UTF-8 test of \<open>String::from_utf8\<close>; and the environment's \<open>MEDIA_LINK_SECRET\<close>.
\<close>

record media_lib =
  ml_hmac :: "string \<Rightarrow> string \<Rightarrow> string + string"
  ml_b64_encode :: "string \<Rightarrow> string"
  ml_b64_decode :: "string \<Rightarrow> string option"
  ml_utf8 :: "string \<Rightarrow> bool"
  ml_secret_env :: "string option"

definition media_secret :: "media_lib \<Rightarrow> 'a config \<Rightarrow> string" where
  "media_secret M c = unwrap_or (ml_secret_env M) (''mys3-media-link:'' @ aws_secret_access_key c)"

definition now_unix :: "time \<Rightarrow> int" where
  "now_unix now = (if now < 0 then 0 else now)"

definition sign :: "media_lib \<Rightarrow> string \<Rightarrow> string \<Rightarrow> string + string" where
  "sign M secret payload =
     (case ml_hmac M secret payload of
        Inl e \<Rightarrow> Inl (''hmac key error: '' @ e) | Inr mac \<Rightarrow> Inr (hex_encode mac))"

text \<open>The comparison folds the differences of all the bytes into one.\<close>

definition byte_word :: "char \<Rightarrow> 8 word" where "byte_word c = of_nat (of_char c)"

definition xor_fold :: "string \<Rightarrow> string \<Rightarrow> 8 word" where
  "xor_fold as bs = foldl (\<lambda>acc (a, b). acc OR (byte_word a XOR byte_word b)) 0 (zip as bs)"

definition verify_sig :: "media_lib \<Rightarrow> string \<Rightarrow> string \<Rightarrow> string \<Rightarrow> bool" where
  "verify_sig M secret payload sig_hex =
     (case sign M secret payload of
        Inr expected \<Rightarrow> length expected = length sig_hex \<and> xor_fold expected sig_hex = 0
      | Inl _ \<Rightarrow> False)"

definition mint_share_token ::
  "media_lib \<Rightarrow> 'a config \<Rightarrow> share_link_record \<Rightarrow> time \<Rightarrow> string + (string \<times> time)" where
  "mint_share_token M c share now =
     (let max_exp = now + SHARE_TOKEN_MAX_SECS;
          exp = (case expires_at share of Some e \<Rightarrow> if e < max_exp then e else max_exp | None \<Rightarrow> max_exp) in
      if exp \<le> now then Inl ''share already expired''
      else
        let payload = ''v1.s.'' @ show_int (share_id share) @ ''.'' @ show_int (share_bucket_id share)
                        @ ''.'' @ show_int exp in
        (case sign M (media_secret M c) payload of
           Inl e \<Rightarrow> Inl e | Inr sig \<Rightarrow> Inr (payload @ ''.'' @ sig, exp)))"

definition mint_personal_token ::
  "media_lib \<Rightarrow> 'a config \<Rightarrow> int \<Rightarrow> int \<Rightarrow> string \<Rightarrow> time \<Rightarrow> string + (string \<times> time)" where
  "mint_personal_token M c account bucket key now =
     (let exp = now + PERSONAL_TTL_SECS;
          payload = ''v1.p.'' @ show_int account @ ''.'' @ show_int bucket @ ''.'' @ ml_b64_encode M key
                      @ ''.'' @ show_int exp in
      case sign M (media_secret M c) payload of
        Inl e \<Rightarrow> Inl e | Inr sig \<Rightarrow> Inr (payload @ ''.'' @ sig, exp))"

text \<open>\<open>s.parse().map_err(|_| msg)\<close>\<close>

definition parse_or :: "string \<Rightarrow> string \<Rightarrow> string + int" where
  "parse_or msg s = (case parse_i64 s of None \<Rightarrow> Inl msg | Some i \<Rightarrow> Inr i)"

definition res_bind :: "string + 'b \<Rightarrow> ('b \<Rightarrow> string + 'c) \<Rightarrow> string + 'c" where
  "res_bind r f = (case r of Inl e \<Rightarrow> Inl e | Inr x \<Rightarrow> f x)"

definition share_grant :: "string \<Rightarrow> string \<Rightarrow> string \<Rightarrow> time \<Rightarrow> string + media_grant" where
  "share_grant share_s bucket_s exp_s now =
     res_bind (parse_or ''bad share_id'' share_s) (\<lambda>share.
     res_bind (parse_or ''bad bucket_id'' bucket_s) (\<lambda>bucket.
     res_bind (parse_or ''bad exp'' exp_s) (\<lambda>exp.
       if exp < now_unix now then Inl ''access token expired'' else Inr (ShareGrant share bucket exp))))"

definition personal_grant ::
  "media_lib \<Rightarrow> string \<Rightarrow> string \<Rightarrow> string \<Rightarrow> string \<Rightarrow> time \<Rightarrow> string + media_grant" where
  "personal_grant M account_s bucket_s key_b64 exp_s now =
     res_bind (parse_or ''bad account_id'' account_s) (\<lambda>account.
     res_bind (parse_or ''bad bucket_id'' bucket_s) (\<lambda>bucket.
     res_bind (parse_or ''bad exp'' exp_s) (\<lambda>exp.
       if exp < now_unix now then Inl ''access token expired''
       else (case ml_b64_decode M key_b64 of
               None \<Rightarrow> Inl ''bad key encoding''
             | Some key_bytes \<Rightarrow>
                 if ml_utf8 M key_bytes then Inr (PersonalGrant account bucket key_bytes exp)
                 else Inl ''bad key utf8''))))"

definition payload_grant :: "media_lib \<Rightarrow> string \<Rightarrow> time \<Rightarrow> string + media_grant" where
  "payload_grant M payload now =
     (case split_on (CHR ''.'') payload of
        [v, k, a, b, x] \<Rightarrow>
          if v = ''v1'' \<and> k = ''s'' then share_grant a b x now else Inl ''unknown access token format''
      | [v, k, a, b, x, y] \<Rightarrow>
          if v = ''v1'' \<and> k = ''p'' then personal_grant M a b x y now else Inl ''unknown access token format''
      | _ \<Rightarrow> Inl ''unknown access token format'')"

definition verify_access_token :: "media_lib \<Rightarrow> 'a config \<Rightarrow> string \<Rightarrow> time \<Rightarrow> string + media_grant" where
  "verify_access_token M c raw now =
     (let tok = trim raw in
      if tok = [] then Inl ''empty access token''
      else (case rsplit_once (CHR ''.'') tok of
              None \<Rightarrow> Inl ''malformed access token''
            | Some (payload, sig) \<Rightarrow>
                if \<not> verify_sig M (media_secret M c) payload sig then Inl ''invalid access token signature''
                else payload_grant M payload now))"

definition share_needs_access_token :: "share_access_mode \<Rightarrow> bool" where
  "share_needs_access_token mode \<longleftrightarrow> mode \<noteq> Public"

section \<open>Links\<close>

definition hex_digit_upper :: "nat \<Rightarrow> char" where
  "hex_digit_upper d = (if d < 10 then byte (48 + d) else byte (55 + d))"

definition unreserved :: "char \<Rightarrow> bool" where
  "unreserved c \<longleftrightarrow> is_ascii_alphanumeric c \<or> c \<in> {CHR ''-'', CHR ''_'', CHR ''.'', CHR ''~''}"

definition encode_byte :: "char \<Rightarrow> string" where
  "encode_byte c = (if unreserved c then [c]
     else [CHR ''%'', hex_digit_upper (of_char c div 16), hex_digit_upper (of_char c mod 16)])"

definition urlencoding_encode :: "string \<Rightarrow> string" where
  "urlencoding_encode s = concat (map encode_byte s)"

definition encode_key_path :: "string \<Rightarrow> string" where
  "encode_key_path key = join ''/'' (map urlencoding_encode (split_on (CHR ''/'') key))"

definition share_content_path :: "share_link_record \<Rightarrow> string \<Rightarrow> string" where
  "share_content_path share key =
     (case short_code share of
        Some code \<Rightarrow> ''/api/v1/shares/by-code/'' @ code @ ''/content/'' @ encode_key_path key
      | None \<Rightarrow> ''/api/v1/shares/by-token/'' @ share_token share @ ''/content/'' @ encode_key_path key)"

definition share_page_path :: "share_link_record \<Rightarrow> string" where
  "share_page_path share = share_url_path share"

definition personal_content_path :: "string \<Rightarrow> string \<Rightarrow> string" where
  "personal_content_path bucket key =
     ''/api/v1/media/content/'' @ encode_key_path key @ ''?bucket='' @ urlencoding_encode bucket"

definition append_access_query :: "string \<Rightarrow> string \<Rightarrow> string" where
  "append_access_query path access =
     path @ (if CHR ''?'' \<in> set path then ''&'' else ''?'') @ ''access='' @ urlencoding_encode access"


section \<open>Signatures\<close>

lemma of_char_bound: "(of_char c :: nat) < 256"
proof -
  have "(of_char c :: nat) = of_char c mod 256" by (simp add: of_char_mod_256)
  then show ?thesis by (metis mod_less_divisor zero_less_numeral)
qed

lemma nibbles: "of_char c div 16 < (16 :: nat)" "of_char c mod 16 < (16 :: nat)"
  "16 * (of_char c div 16) + of_char c mod 16 = (of_char c :: nat)"
proof -
  have "(of_char c :: nat) < 16 * 16" using of_char_bound [of c] by simp
  then show "of_char c div 16 < (16 :: nat)" by (rule less_mult_imp_div_less)
qed simp_all

lemma byte_word_eq: "byte_word a = byte_word b \<longleftrightarrow> a = b"
proof
  assume eq: "byte_word a = byte_word b"
  have u: "unat (byte_word c) = of_char c" for c
    using of_char_bound [of c] by (simp add: byte_word_def unat_of_nat)
  from eq have "(of_char a :: nat) = of_char b" using u by metis
  then show "a = b" by (metis char_of_char)
qed simp

lemma xor_zero: "x XOR y = (0 :: 8 word) \<longleftrightarrow> x = y"
  by (metis xor_self_eq xor.left_commute xor.right_neutral)

lemma or_zero: "x OR y = (0 :: 8 word) \<longleftrightarrow> x = 0 \<and> y = 0"
  by (rule or_eq_0_iff)

lemma xor_fold_zero: "length as = length bs \<Longrightarrow> xor_fold as bs = 0 \<longleftrightarrow> as = bs"
proof -
  assume l: "length as = length bs"
  have "foldl (\<lambda>acc (a, b). acc OR (byte_word a XOR byte_word b)) acc (zip as bs) = 0 \<longleftrightarrow> acc = 0 \<and> as = bs" for acc
    using l
  proof (induction as bs arbitrary: acc rule: list_induct2)
    case (Cons x xs y ys)
    then show ?case by (auto simp: or_zero xor_zero byte_word_eq)
  qed simp
  then show ?thesis by (simp add: xor_fold_def)
qed

lemma verify_sig_iff: "verify_sig M secret payload sig \<longleftrightarrow> sign M secret payload = Inr sig"
  by (cases "sign M secret payload") (auto simp: verify_sig_def xor_fold_zero)

section \<open>What a token says\<close>

text \<open>The texts between the dots of a payload, and the grant they stand for.\<close>

definition payload_says :: "media_lib \<Rightarrow> string \<Rightarrow> media_grant \<Rightarrow> bool" where
  "payload_says M payload g =
     (case g of
        ShareGrant share bucket exp \<Rightarrow>
          (case split_on (CHR ''.'') payload of
             [v, k, a, b, x] \<Rightarrow> v = ''v1'' \<and> k = ''s'' \<and> parse_i64 a = Some share \<and> parse_i64 b = Some bucket
               \<and> parse_i64 x = Some exp
           | _ \<Rightarrow> False)
      | PersonalGrant account bucket key exp \<Rightarrow>
          (case split_on (CHR ''.'') payload of
             [v, k, a, b, x, y] \<Rightarrow> v = ''v1'' \<and> k = ''p'' \<and> parse_i64 a = Some account \<and> parse_i64 b = Some bucket
               \<and> ml_b64_decode M x = Some key \<and> ml_utf8 M key \<and> parse_i64 y = Some exp
           | _ \<Rightarrow> False))"

lemma res_bind_Inr: "res_bind r f = Inr y \<longleftrightarrow> (\<exists>x. r = Inr x \<and> f x = Inr y)"
  by (cases r) (auto simp: res_bind_def)

lemma parse_or_Inr: "parse_or msg s = Inr i \<longleftrightarrow> parse_i64 s = Some i"
  by (auto simp: parse_or_def split: option.splits)

lemma share_grant_Inr: "share_grant a b x now = Inr g \<longleftrightarrow>
    (\<exists>share bucket exp. g = ShareGrant share bucket exp \<and> parse_i64 a = Some share \<and> parse_i64 b = Some bucket
      \<and> parse_i64 x = Some exp \<and> now_unix now \<le> exp)"
  by (auto simp: share_grant_def res_bind_def parse_or_def split: option.splits if_splits)

lemma personal_grant_Inr: "personal_grant M a b x y now = Inr g \<longleftrightarrow>
    (\<exists>account bucket key exp. g = PersonalGrant account bucket key exp \<and> parse_i64 a = Some account
      \<and> parse_i64 b = Some bucket \<and> ml_b64_decode M x = Some key \<and> ml_utf8 M key
      \<and> parse_i64 y = Some exp \<and> now_unix now \<le> exp)"
  by (auto simp: personal_grant_def res_bind_def parse_or_def split: option.splits if_splits)

lemma payload_grant_Inr:
  "payload_grant M payload now = Inr g \<longleftrightarrow> payload_says M payload g \<and> now_unix now \<le> exp_unix g"
  unfolding payload_grant_def
  by (cases g) (auto simp: payload_says_def share_grant_Inr personal_grant_Inr split: list.splits if_split_asm)

lemma verify_access_token_iff:
  "verify_access_token M c raw now = Inr g \<longleftrightarrow>
     (\<exists>payload sig. trim raw = payload @ ''.'' @ sig \<and> CHR ''.'' \<notin> set sig
        \<and> sign M (media_secret M c) payload = Inr sig \<and> payload_says M payload g \<and> now_unix now \<le> exp_unix g)"
proof (cases "rsplit_once (CHR ''.'') (trim raw)")
  case None
  then have "CHR ''.'' \<notin> set (trim raw)" by (simp add: rsplit_once_def split_once_None)
  then show ?thesis using None by (auto simp: verify_access_token_def Let_def)
next
  case (Some ps)
  obtain payload sig where ps: "ps = (payload, sig)" by (cases ps)
  then have t: "trim raw = payload @ CHR ''.'' # sig" "CHR ''.'' \<notin> set sig"
    using Some by (auto simp: rsplit_once_Some)
  have uniq: "p2 = payload \<and> s2 = sig" if "trim raw = p2 @ ''.'' @ s2" "CHR ''.'' \<notin> set s2" for p2 s2
    using that Some ps rsplit_once_Some [of "CHR ''.''" "trim raw" p2 s2] by simp
  have ne: "trim raw \<noteq> []" using t by simp
  have "verify_access_token M c raw now = Inr g \<longleftrightarrow>
      sign M (media_secret M c) payload = Inr sig \<and> payload_says M payload g \<and> now_unix now \<le> exp_unix g"
    using Some ne by (simp add: verify_access_token_def Let_def ps verify_sig_iff payload_grant_Inr)
  moreover have "trim raw = payload @ ''.'' @ sig" using t(1) by simp
  ultimately show ?thesis using t(2) uniq by blast
qed


section \<open>What tokens promise\<close>

text \<open>What the crates document: HMAC takes keys of any length, and the URL-safe base64 alphabet has no dot and decodes to what was encoded.\<close>

definition hex_val :: "char \<Rightarrow> nat" where
  "hex_val c = (let n = of_char c in if n < 58 then n - 48 else if n < 71 then n - 55 else n - 87)"

definition hex_char :: "char \<Rightarrow> bool" where
  "hex_char c \<longleftrightarrow> c \<in> set ''0123456789abcdef''"

definition media_lib_ok :: "media_lib \<Rightarrow> bool" where
  "media_lib_ok M \<longleftrightarrow> (\<forall>k p. isl (ml_hmac M k p) = False)
     \<and> (\<forall>s. CHR ''.'' \<notin> set (ml_b64_encode M s) \<and> ml_b64_decode M (ml_b64_encode M s) = Some s)"

lemma hex_digit_val: "n < 16 \<Longrightarrow> hex_char (hex_digit n) \<and> hex_val (hex_digit n) = n"
proof -
  have "list_all (\<lambda>n. hex_char (hex_digit n) \<and> hex_val (hex_digit n) = n) [0..<16]" by code_simp
  then show "n < 16 \<Longrightarrow> ?thesis" by (simp add: list_all_iff)
qed

lemma hex_encode_chars: "list_all hex_char (hex_encode bs)"
  using hex_digit_val nibbles by (simp add: hex_encode_def list_all_iff)

lemma hex_char_plain: "hex_char c \<Longrightarrow> plain_char c \<and> c \<noteq> CHR ''.''"
  by (auto simp: hex_char_def plain_char_def)

lemma verify_signed:
  assumes M: "media_lib_ok M" and sig: "sign M (media_secret M c) payload = Inr sig" and p: "payload = CHR ''v'' # rest"
  shows "verify_access_token M c (payload @ ''.'' @ sig) now = payload_grant M payload now"
proof -
  obtain mac where "ml_hmac M (media_secret M c) payload = Inr mac" "sig = hex_encode mac"
    using sig by (auto simp: sign_def split: sum.splits)
  then have h: "list_all hex_char sig" by (simp add: hex_encode_chars)
  then have nodot: "CHR ''.'' \<notin> set sig" using hex_char_plain by (fastforce simp: list_all_iff)
  have "plain_char (last (payload @ ''.'' @ sig))"
    using h hex_char_plain by (cases sig rule: rev_cases) (auto simp: plain_char_def)
  then have "trim (payload @ ''.'' @ sig) = payload @ ''.'' @ sig"
    using p by (intro trim_plain) (simp add: plain_char_def)
  moreover have "rsplit_once (CHR ''.'') (payload @ ''.'' @ sig) = Some (payload, sig)"
    using nodot by (simp add: rsplit_once_Some)
  ultimately show ?thesis using sig p by (simp add: verify_access_token_def verify_sig_iff)
qed

lemma sign_total: "media_lib_ok M \<Longrightarrow> \<exists>sig. sign M k p = Inr sig"
  by (cases "ml_hmac M k p") (auto simp: sign_def media_lib_ok_def dest: spec2 [of _ k p])

lemma personal_payload_grant:
  assumes "media_lib_ok M" "in_i64 account" "in_i64 bucket" "in_i64 exp" "ml_utf8 M key"
  shows "payload_grant M (''v1.p.'' @ show_int account @ ''.'' @ show_int bucket @ ''.'' @ ml_b64_encode M key
      @ ''.'' @ show_int exp) now
    = (if exp < now_unix now then Inl ''access token expired'' else Inr (PersonalGrant account bucket key exp))"
  using assms show_int_no_dot
  by (simp add: payload_grant_def media_lib_ok_def split_on_append split_on_single personal_grant_def res_bind_def
      parse_or_def parse_i64_show_int)

lemma share_payload_grant:
  assumes "in_i64 share" "in_i64 bucket" "in_i64 exp"
  shows "payload_grant M (''v1.s.'' @ show_int share @ ''.'' @ show_int bucket @ ''.'' @ show_int exp) now
    = (if exp < now_unix now then Inl ''access token expired'' else Inr (ShareGrant share bucket exp))"
  using assms show_int_no_dot
  by (simp add: payload_grant_def split_on_append split_on_single share_grant_def res_bind_def
      parse_or_def parse_i64_show_int)

text \<open>A personal link's token is always made, is accepted for its account, bucket and key until a day
later, and not after.\<close>

theorem personal_token_roundtrip:
  assumes "media_lib_ok M" "in_i64 account" "in_i64 bucket" "in_i64 (now + PERSONAL_TTL_SECS)" "ml_utf8 M key"
  shows "case mint_personal_token M c account bucket key now of
      Inl _ \<Rightarrow> False
    | Inr (tok, exp) \<Rightarrow> exp = now + 86400 \<and>
        verify_access_token M c tok later = (if exp < now_unix later then Inl ''access token expired''
          else Inr (PersonalGrant account bucket key exp))"
proof -
  define payload where "payload = ''v1.p.'' @ show_int account @ ''.'' @ show_int bucket @ ''.'' @ ml_b64_encode M key
      @ ''.'' @ show_int (now + PERSONAL_TTL_SECS)"
  obtain sig where sig: "sign M (media_secret M c) payload = Inr sig" using sign_total assms(1) by blast
  have "payload = CHR ''v'' # tl payload" by (simp add: payload_def)
  note v = verify_signed [OF assms(1) sig this]
  have mint: "mint_personal_token M c account bucket key now = Inr (payload @ ''.'' @ sig, now + PERSONAL_TTL_SECS)"
    using sig unfolding mint_personal_token_def Let_def payload_def [symmetric] by simp
  show ?thesis
    unfolding mint using v personal_payload_grant [OF assms] by (simp add: payload_def PERSONAL_TTL_SECS_def)
qed

text \<open>A share's token is refused only for a share that is over; it never outlives the share nor seven
days, and it is accepted for that share and bucket until it ends.\<close>

theorem share_token_roundtrip:
  assumes "media_lib_ok M" "in_i64 (share_id share)" "in_i64 (share_bucket_id share)"
    and "list_all in_i64 ((now + SHARE_TOKEN_MAX_SECS) # (case expires_at share of None \<Rightarrow> [] | Some x \<Rightarrow> [x]))"
  shows "case mint_share_token M c share now of
      Inl e \<Rightarrow> e = ''share already expired'' \<and> (case expires_at share of None \<Rightarrow> False | Some x \<Rightarrow> x \<le> now)
    | Inr (tok, exp) \<Rightarrow>
        exp = min (now + 604800) (case expires_at share of None \<Rightarrow> now + 604800 | Some x \<Rightarrow> x) \<and> now < exp \<and>
        verify_access_token M c tok later = (if exp < now_unix later then Inl ''access token expired''
          else Inr (ShareGrant (share_id share) (share_bucket_id share) exp))"
proof -
  define exp where "exp = (case expires_at share of Some e \<Rightarrow> if e < now + SHARE_TOKEN_MAX_SECS then e
      else now + SHARE_TOKEN_MAX_SECS | None \<Rightarrow> now + SHARE_TOKEN_MAX_SECS)"
  have exp: "exp = min (now + 604800) (case expires_at share of None \<Rightarrow> now + 604800 | Some x \<Rightarrow> x)"
    by (auto simp: exp_def SHARE_TOKEN_MAX_SECS_def split: option.split)
  have i: "in_i64 exp" using assms(4) by (auto simp: exp_def split: option.splits)
  define payload where "payload = ''v1.s.'' @ show_int (share_id share) @ ''.'' @ show_int (share_bucket_id share)
      @ ''.'' @ show_int exp"
  obtain sig where sig: "sign M (media_secret M c) payload = Inr sig" using sign_total assms(1) by blast
  have "payload = CHR ''v'' # tl payload" by (simp add: payload_def)
  note v = verify_signed [OF assms(1) sig this]
  have mint: "mint_share_token M c share now = (if exp \<le> now then Inl ''share already expired''
      else Inr (payload @ ''.'' @ sig, exp))"
    using sig unfolding mint_share_token_def Let_def exp_def [symmetric] payload_def [symmetric] by simp
  have over: "exp \<le> now \<longleftrightarrow> (case expires_at share of None \<Rightarrow> False | Some x \<Rightarrow> x \<le> now)"
    by (auto simp: exp split: option.split)
  show ?thesis
  proof (cases "exp \<le> now")
    case True
    then show ?thesis using over by (simp add: mint)
  next
    case False
    have "verify_access_token M c (payload @ ''.'' @ sig) later = (if exp < now_unix later
        then Inl ''access token expired'' else Inr (ShareGrant (share_id share) (share_bucket_id share) exp))"
      using v share_payload_grant [OF assms(2,3) i] by (simp add: payload_def)
    with False exp show ?thesis by (simp only: mint if_False sum.case prod.case) simp
  qed
qed

text \<open>Whatever text is presented, what is accepted carries a signature of its payload under the node's
secret, its payload spells the grant, and the grant has not run out.\<close>

theorem verify_access_token_signed:
  "verify_access_token M c raw now = Inr g \<longleftrightarrow>
     (\<exists>payload sig. trim raw = payload @ ''.'' @ sig \<and> CHR ''.'' \<notin> set sig
        \<and> sign M (media_secret M c) payload = Inr sig \<and> payload_says M payload g \<and> now_unix now \<le> exp_unix g)"
  by (rule verify_access_token_iff)


text \<open>A library that does what is documented: its code is the hexadecimal one.\<close>

fun demo_decode :: "string \<Rightarrow> string option" where
  "demo_decode (a # b # s) = map_option ((#) (byte (16 * hex_val a + hex_val b))) (demo_decode s)"
| "demo_decode s = Some []"

definition demo_media :: media_lib where
  "demo_media = \<lparr>ml_hmac = (\<lambda>k p. Inr (take 4 (CHR ''m'' # k @ p))), ml_b64_encode = hex_encode,
     ml_b64_decode = demo_decode, ml_utf8 = (\<lambda>s. True), ml_secret_env = Some ''secret''\<rparr>"

lemma demo_decode_encode: "demo_decode (hex_encode s) = Some s"
proof (induction s)
  case (Cons c s)
  have "16 * hex_val (hex_digit (of_char c div 16)) + hex_val (hex_digit (of_char c mod 16)) = of_char c"
    by (simp add: hex_digit_val nibbles)
  then show ?case using Cons by (simp add: hex_encode_def)
qed (simp add: hex_encode_def)

lemma demo_media_ok: "media_lib_ok demo_media"
  using hex_encode_chars hex_char_plain demo_decode_encode
  by (fastforce simp: media_lib_ok_def demo_media_def list_all_iff)

lemma demo_media_utf8: "ml_utf8 demo_media s"
  by (simp add: demo_media_def)

definition demo_config :: "string config" where
  "demo_config = \<lparr>cfg_storage_root = [], bind_addr = [], grpc_bind_addr = [], embed_wg = False,
     cfg_node_id = ''n1'', aws_access_key_id = ''k'', aws_secret_access_key = ''s'', default_etag_type = Md5,
     cluster_peers = [], wg_private_key = None, disable_tui = True\<rparr>"

theorem personal_token_roundtrip_witness:
  "case mint_personal_token demo_media demo_config 1 2 ''a/b.mp4'' 0 of
      Inl _ \<Rightarrow> False
    | Inr (tok, exp) \<Rightarrow> exp = 86400 \<and>
        verify_access_token demo_media demo_config tok 86400 = Inr (PersonalGrant 1 2 ''a/b.mp4'' exp)"
  using personal_token_roundtrip [OF demo_media_ok, of 1 2 0 "''a/b.mp4''" demo_config 86400]
  by (auto simp: in_i64_def I64_MAX_def I64_MIN_def PERSONAL_TTL_SECS_def demo_media_utf8 now_unix_def
      split: sum.splits prod.splits)

definition demo_link :: "time option \<Rightarrow> share_link_record" where
  "demo_link ends = \<lparr>share_id = 9, share_token = ''t'', short_code = None, share_bucket_id = 3,
     target_key = ''f/'', target_kind = Folder, access_mode = BucketReaders, expires_at = ends,
     share_created_by = 1, share_created_at = 0, revoked_at = None\<rparr>"

theorem share_token_roundtrip_witness:
  "case mint_share_token demo_media demo_config (demo_link (Some 50)) 7 of
      Inl _ \<Rightarrow> False
    | Inr (tok, exp) \<Rightarrow> exp = 50 \<and> verify_access_token demo_media demo_config tok 50 = Inr (ShareGrant 9 3 50)"
  using share_token_roundtrip [OF demo_media_ok, of "demo_link (Some 50)" 7 demo_config 50]
  by (auto simp: in_i64_def I64_MAX_def I64_MIN_def SHARE_TOKEN_MAX_SECS_def demo_link_def now_unix_def
      split: sum.splits prod.splits)

section \<open>What encoded links mean\<close>

fun percent_decode :: "string \<Rightarrow> string" where
  "percent_decode (c # a # b # s) =
     (if c = CHR ''%'' then byte (16 * hex_val a + hex_val b) # percent_decode s else c # percent_decode (a # b # s))"
| "percent_decode s = s"

lemma hex_digit_upper_val: "n < 16 \<Longrightarrow> is_ascii_alphanumeric (hex_digit_upper n) \<and> hex_val (hex_digit_upper n) = n"
  by (auto simp: hex_val_def hex_digit_upper_def is_ascii_alphanumeric_def is_ascii_digit_def is_ascii_alpha_def)

lemma percent_decode_plain: "c \<noteq> CHR ''%'' \<Longrightarrow> percent_decode (c # s) = c # percent_decode s"
  by (cases "c # s" rule: percent_decode.cases) auto

lemma percent_not_unreserved: "\<not> unreserved (CHR ''%'')"
  by code_simp

lemma decode_encode_byte: "percent_decode (encode_byte c @ s) = c # percent_decode s"
proof (cases "unreserved c")
  case True
  then have "c \<noteq> CHR ''%''" using percent_not_unreserved by blast
  then show ?thesis using True by (simp add: encode_byte_def percent_decode_plain)
next
  case False
  then show ?thesis by (simp add: encode_byte_def hex_digit_upper_val nibbles)
qed

lemma decode_encode: "percent_decode (urlencoding_encode s @ t) = s @ percent_decode t"
  by (induction s) (simp_all add: urlencoding_encode_def decode_encode_byte)

lemma decode_join: "percent_decode (join ''/'' (map urlencoding_encode ws)) = join ''/'' ws"
proof (induction ws rule: induct_list012)
  case (2 w)
  then show ?case using decode_encode [of w "[]"] by simp
next
  case (3 w v ws)
  then show ?case by (simp add: decode_encode percent_decode_plain)
qed simp

lemma encode_byte_chars: "list_all (\<lambda>x. unreserved x \<or> x = CHR ''%'') (encode_byte c)"
  using hex_digit_upper_val nibbles by (simp add: encode_byte_def unreserved_def)

lemma encode_chars: "list_all (\<lambda>x. unreserved x \<or> x = CHR ''%'') (urlencoding_encode s)"
  using encode_byte_chars by (auto simp: urlencoding_encode_def list_all_iff)

lemma slash_not_unreserved: "\<not> unreserved (CHR ''/'')"
  by code_simp

text \<open>The path of a link decodes to the object's key, segment by segment: it has the key's segments,
each decodes to the key's own, and every character is unreserved, a percent sign or a slash.\<close>

theorem encode_key_path_roundtrip:
  "percent_decode (encode_key_path key) = key
   \<and> map percent_decode (split_on (CHR ''/'') (encode_key_path key)) = split_on (CHR ''/'') key
   \<and> list_all (\<lambda>c. unreserved c \<or> c \<in> {CHR ''%'', CHR ''/''}) (encode_key_path key)"
proof (intro conjI)
  have no: "CHR ''/'' \<notin> set (urlencoding_encode w)" for w
    using encode_chars [of w] slash_not_unreserved by (auto simp: list_all_iff)
  have split: "split_on (CHR ''/'') (encode_key_path key) = map urlencoding_encode (split_on (CHR ''/'') key)"
    unfolding encode_key_path_def by (rule split_on_join) (auto simp: no)
  show "percent_decode (encode_key_path key) = key"
    by (simp add: encode_key_path_def decode_join join_split_on)
  show "map percent_decode (split_on (CHR ''/'') (encode_key_path key)) = split_on (CHR ''/'') key"
    using decode_encode [of _ "[]"] by (simp add: split map_idI)
  have "list_all (\<lambda>c. unreserved c \<or> c \<in> {CHR ''%'', CHR ''/''}) (join ''/'' (map urlencoding_encode ws))" for ws
  proof (induction ws rule: induct_list012)
    case (2 w)
    then show ?case using encode_chars [of w] by (auto simp: list_all_iff)
  next
    case (3 w v ws)
    then show ?case using encode_chars [of w] by (auto simp: list_all_iff)
  qed simp
  then show "list_all (\<lambda>c. unreserved c \<or> c \<in> {CHR ''%'', CHR ''/''}) (encode_key_path key)"
    by (simp add: encode_key_path_def)
qed

end
