(* ===== verification/Auth.thy ===== *)
theory Auth
  imports S3 Media
begin

text \<open>
  Who may call: the session extractors of \<open>src/server/session_auth.rs\<close> and the SigV4 middleware of
  \<open>src/server/auth_sigv4.rs\<close> with the client that signs for it.
\<close>

section \<open>Sessions\<close>

definition SESSION_COOKIE :: string where "SESSION_COOKIE = ''mys3_session''"

text \<open>\<open>Some(t)\<close> of a trimmed text that is not empty.\<close>

definition some_nonempty :: "string \<Rightarrow> string option" where
  "some_nonempty s = (if s = [] then None else Some s)"

definition bearer_token :: "string \<Rightarrow> string option" where
  "bearer_token s = Option.bind (strip_prefix (trim s) ''Bearer '') (\<lambda>rest. some_nonempty (trim rest))"

fun cookie_token :: "string list \<Rightarrow> string option" where
  "cookie_token [] = None"
| "cookie_token (part # parts) =
     (case strip_prefix (trim part) (SESSION_COOKIE @ ''='') of
        Some v \<Rightarrow> if trim v = [] then cookie_token parts else Some (trim v)
      | None \<Rightarrow> cookie_token parts)"

definition extract_token_from_headers :: "lib \<Rightarrow> headers \<Rightarrow> string option" where
  "extract_token_from_headers L hs =
     (case Option.bind (Option.bind (header_get ''authorization'' hs) (lib_to_str L)) bearer_token of
        Some t \<Rightarrow> Some t
      | None \<Rightarrow>
          (case Option.bind (header_get ''cookie'' hs) (lib_to_str L) of
             Some s \<Rightarrow> cookie_token (split_on (CHR '';'') s)
           | None \<Rightarrow> None))"

text \<open>The extractors: the request is refused with a response, or goes on with the account.\<close>

definition auth_account :: "lib \<Rightarrow> headers \<Rightarrow> time \<Rightarrow> db \<Rightarrow> (response + account_record) \<times> db" where
  "auth_account L hs now d =
     (case extract_token_from_headers L hs of
        None \<Rightarrow> (Inl (text_response 401 ''authentication required''), d)
      | Some tok \<Rightarrow>
          (case resolve_session tok now d of
             (Some account, d') \<Rightarrow> (Inr account, d')
           | (None, d') \<Rightarrow> (Inl (text_response 401 ''invalid or expired session''), d')))"

definition optional_auth :: "lib \<Rightarrow> headers \<Rightarrow> time \<Rightarrow> db \<Rightarrow> account_record option \<times> db" where
  "optional_auth L hs now d =
     (case extract_token_from_headers L hs of
        None \<Rightarrow> (None, d)
      | Some tok \<Rightarrow> resolve_session tok now d)"

definition require_owner :: "int \<Rightarrow> db \<Rightarrow> response + unit" where
  "require_owner account d =
     (if account_is_owner account d then Inr () else Inl (text_response 403 ''owner role required''))"

definition require_bucket_perm :: "int \<Rightarrow> int \<Rightarrow> crud_action \<Rightarrow> db \<Rightarrow> response + unit" where
  "require_bucket_perm account bucket action d =
     (if check_perm account bucket action d then Inr () else Inl (text_response 403 ''insufficient permissions''))"

definition resolve_bucket_id :: "string option \<Rightarrow> db \<Rightarrow> response + (int \<times> string)" where
  "resolve_bucket_id name_opt d =
     (let name = unwrap_or (nonempty_trimmed name_opt) ''storage'' in
      case get_bucket_by_name name d of
        Some b \<Rightarrow> Inr (bucket_id b, bucket_name b)
      | None \<Rightarrow> Inl (text_response 404 (''bucket '' @ [CHR 0x27] @ name @ [CHR 0x27] @ '' not found'')))"

section \<open>Request signatures\<close>

record request =
  rq_method :: string
  rq_path :: string
  rq_query :: "string option"
  rq_headers :: headers

record auth_parts =
  ap_access_key :: string
  ap_region :: string
  ap_service :: string
  ap_signed_headers :: string
  ap_signature :: string

text \<open>One part of the header, in the order of the tests: the credential, the header names, the signature.\<close>

definition seg_or :: "string \<Rightarrow> nat \<Rightarrow> string list \<Rightarrow> string" where
  "seg_or dflt i segs = (if i < length segs then segs ! i else dflt)"

definition parse_auth_part :: "auth_parts \<Rightarrow> string \<Rightarrow> auth_parts" where
  "parse_auth_part p raw =
     (let part = trim raw in
      case strip_prefix part ''Credential='' of
        Some cred \<Rightarrow>
          (let segs = split_on (CHR ''/'') cred in
           p\<lparr>ap_access_key := seg_or [] 0 segs, ap_region := seg_or ''us-east-1'' 2 segs,
             ap_service := seg_or ''s3'' 3 segs\<rparr>)
      | None \<Rightarrow> (case strip_prefix part ''SignedHeaders='' of
            Some sh \<Rightarrow> p\<lparr>ap_signed_headers := sh\<rparr>
          | None \<Rightarrow> (case strip_prefix part ''Signature='' of
                Some sig \<Rightarrow> p\<lparr>ap_signature := sig\<rparr>
              | None \<Rightarrow> p)))"

definition parse_authorization :: "string \<Rightarrow> string + auth_parts" where
  "parse_authorization authorization =
     (case strip_prefix authorization ''AWS4-HMAC-SHA256 '' of
        None \<Rightarrow> Inl ''Invalid Authorization algorithm''
      | Some rest \<Rightarrow>
          let p = foldl parse_auth_part
                \<lparr>ap_access_key = [], ap_region = ''us-east-1'', ap_service = ''s3'',
                 ap_signed_headers = [], ap_signature = []\<rparr> (split_on (CHR '','') rest) in
          if ap_access_key p = [] \<or> ap_signed_headers p = [] \<or> ap_signature p = []
          then Inl ''Malformed Authorization header'' else Inr p)"

definition header_str :: "lib \<Rightarrow> headers \<Rightarrow> string \<Rightarrow> string option" where
  "header_str L hs name = Option.bind (header_get name hs) (lib_to_str L)"

text \<open>\<open>str::split_whitespace\<close>: \<open>ws_len\<close> is the length of the white-space character a text starts with.\<close>

fun ws_len :: "string \<Rightarrow> nat" where
  "ws_len (a # b # c # s) = (if ws1 a then 1 else if ws2 a b then 2 else if ws3 a b c then 3 else 0)"
| "ws_len [a, b] = (if ws1 a then 1 else if ws2 a b then 2 else 0)"
| "ws_len [a] = (if ws1 a then 1 else 0)"
| "ws_len [] = 0"

function words_from :: "string \<Rightarrow> string \<Rightarrow> string list" where
  "words_from acc [] = (if acc = [] then [] else [acc])"
| "words_from acc (c # cs) =
     (if ws_len (c # cs) = 0 then words_from (acc @ [c]) cs
      else (if acc = [] then [] else [acc]) @ words_from [] (drop (ws_len (c # cs)) (c # cs)))"
  by pat_completeness auto
termination by (relation "measure (length \<circ> snd)") auto

definition split_whitespace :: "string \<Rightarrow> string list" where
  "split_whitespace s = words_from [] s"

definition canonical_header :: "lib \<Rightarrow> headers \<Rightarrow> string \<Rightarrow> string" where
  "canonical_header L hs name =
     (let key = ascii_lower (trim name);
          v = unwrap_or (header_str L hs key) [] in
      key @ '':'' @ join '' '' (split_whitespace v) @ [CHR 0x0A])"

definition build_canonical_headers :: "lib \<Rightarrow> headers \<Rightarrow> string \<Rightarrow> string" where
  "build_canonical_headers L hs names = concat (map (canonical_header L hs) (split_on (CHR '';'') names))"

definition derive_signing_key :: "media_lib \<Rightarrow> string \<Rightarrow> string \<Rightarrow> string \<Rightarrow> string \<Rightarrow> string + string" where
  "derive_signing_key M secret date region service =
     res_bind (ml_hmac M (''AWS4'' @ secret) date) (\<lambda>k_date.
     res_bind (ml_hmac M k_date region) (\<lambda>k_region.
     res_bind (ml_hmac M k_region service) (\<lambda>k_service.
       ml_hmac M k_service ''aws4_request'')))"

definition constant_time_eq :: "string \<Rightarrow> string \<Rightarrow> bool" where
  "constant_time_eq a b \<longleftrightarrow> (if length a \<noteq> length b then False else xor_fold a b = 0)"

definition bad_signature :: string where
  "bad_signature = ''The request signature we calculated does not match the signature you provided.''"

definition canonical_request :: "lib \<Rightarrow> request \<Rightarrow> string \<Rightarrow> string" where
  "canonical_request L rq names =
     rq_method rq @ newline @ rq_path rq @ newline @ unwrap_or (rq_query rq) [] @ newline
       @ build_canonical_headers L (rq_headers rq) names @ newline @ names @ newline
       @ unwrap_or (header_str L (rq_headers rq) ''x-amz-content-sha256'') ''UNSIGNED-PAYLOAD''"

definition string_to_sign :: "lib \<Rightarrow> request \<Rightarrow> string \<Rightarrow> auth_parts \<Rightarrow> string" where
  "string_to_sign L rq amz_date p =
     ''AWS4-HMAC-SHA256'' @ newline @ amz_date @ newline
       @ take 8 amz_date @ ''/'' @ ap_region p @ ''/'' @ ap_service p @ ''/aws4_request'' @ newline
       @ hex_encode (lib_digest L Alg_Sha256 (canonical_request L rq (ap_signed_headers p)))"

definition validate_sigv4 ::
  "lib \<Rightarrow> media_lib \<Rightarrow> 'a config \<Rightarrow> request \<Rightarrow> string \<Rightarrow> string + unit" where
  "validate_sigv4 L M c rq authorization =
     (if \<not> starts_with authorization ''AWS4-HMAC-SHA256 '' then Inl bad_signature
      else res_bind (parse_authorization authorization) (\<lambda>p.
        if ap_access_key p \<noteq> aws_access_key_id c then Inl bad_signature
        else (case header_str L (rq_headers rq) ''x-amz-date'' of
                None \<Rightarrow> Inl ''Missing x-amz-date header''
              | Some amz_date \<Rightarrow>
                  res_bind (derive_signing_key M (aws_secret_access_key c) (take 8 amz_date) (ap_region p) (ap_service p))
                    (\<lambda>signing_key. res_bind (ml_hmac M signing_key (string_to_sign L rq amz_date p)) (\<lambda>mac.
                      if \<not> constant_time_eq (hex_encode mac) (ap_signature p) then Inl bad_signature
                      else Inr ())))))"

definition xml_sig_error :: "string \<Rightarrow> string \<Rightarrow> response" where
  "xml_sig_error code message =
     \<lparr>rs_status = 403, rs_headers = [(''content-type'', ''application/xml'')],
      rs_body = ''<?xml version='' @ quote @ ''1.0'' @ quote @ '' encoding='' @ quote @ ''UTF-8'' @ quote @ ''?>'' @ newline
        @ ''<Error>'' @ newline @ ''  <Code>'' @ code @ ''</Code>'' @ newline
        @ ''  <Message>'' @ message @ ''</Message>'' @ newline @ ''</Error>''\<rparr>"

text \<open>
  The middleware: \<open>st\<close> is the configuration found in the request's extensions, \<open>optional\<close> the value of
  \<open>S3_AUTH_OPTIONAL\<close>, \<open>run\<close> the handler behind it.
\<close>

definition require_sigv4 ::
  "lib \<Rightarrow> media_lib \<Rightarrow> 'a config option \<Rightarrow> string option \<Rightarrow> request \<Rightarrow>
     (node \<Rightarrow> response \<times> node) \<Rightarrow> node \<Rightarrow> response \<times> node" where
  "require_sigv4 L M st optional rq run n =
     (case st of
        None \<Rightarrow> (xml_sig_error ''InternalError'' ''Missing application state'', n)
      | Some c \<Rightarrow>
          if optional = Some ''1'' then run n
          else
            let auth = unwrap_or (header_str L (rq_headers rq) ''authorization'') [] in
            if auth = []
            then (xml_sig_error ''AccessDenied'' ''Authorization header missing; SigV4 required'', n)
            else (case validate_sigv4 L M c rq auth of
                    Inr _ \<Rightarrow> run n
                  | Inl msg \<Rightarrow> (xml_sig_error ''SignatureDoesNotMatch'' msg, n)))"

definition auth_sigv4_mw ::
  "lib \<Rightarrow> media_lib \<Rightarrow> 'a config \<Rightarrow> string option \<Rightarrow> request \<Rightarrow>
     (node \<Rightarrow> response \<times> node) \<Rightarrow> node \<Rightarrow> response \<times> node" where
  "auth_sigv4_mw L M c optional rq run n = require_sigv4 L M (Some c) optional rq run n"


section \<open>What a signature guards\<close>

lemma constant_time_eq_iff: "constant_time_eq a b \<longleftrightarrow> a = b"
  by (auto simp: constant_time_eq_def xor_fold_zero)

text \<open>The signature the node computes for a request with the header's parts and date.\<close>

definition expected_signature ::
  "lib \<Rightarrow> media_lib \<Rightarrow> 'a config \<Rightarrow> request \<Rightarrow> string \<Rightarrow> auth_parts \<Rightarrow> string + string" where
  "expected_signature L M c rq amz_date p =
     res_bind (derive_signing_key M (aws_secret_access_key c) (take 8 amz_date) (ap_region p) (ap_service p))
       (\<lambda>signing_key. res_bind (ml_hmac M signing_key (string_to_sign L rq amz_date p)) (\<lambda>mac. Inr (hex_encode mac)))"

definition well_signed :: "lib \<Rightarrow> media_lib \<Rightarrow> 'a config \<Rightarrow> request \<Rightarrow> bool" where
  "well_signed L M c rq \<longleftrightarrow>
     (\<exists>auth p amz_date. header_str L (rq_headers rq) ''authorization'' = Some auth
        \<and> parse_authorization auth = Inr p \<and> ap_access_key p = aws_access_key_id c
        \<and> header_str L (rq_headers rq) ''x-amz-date'' = Some amz_date
        \<and> expected_signature L M c rq amz_date p = Inr (ap_signature p))"

lemma parse_authorization_prefix:
  "parse_authorization auth = Inr p \<Longrightarrow> starts_with auth ''AWS4-HMAC-SHA256 '' \<and> auth \<noteq> []"
  by (auto simp: parse_authorization_def strip_prefix_def starts_with_def split: if_split_asm)

lemma validate_sigv4_iff:
  "validate_sigv4 L M c rq auth = Inr () \<longleftrightarrow>
     (\<exists>p amz_date. parse_authorization auth = Inr p \<and> ap_access_key p = aws_access_key_id c
        \<and> header_str L (rq_headers rq) ''x-amz-date'' = Some amz_date
        \<and> expected_signature L M c rq amz_date p = Inr (ap_signature p))"
  (is "?l \<longleftrightarrow> ?r")
proof
  assume ?l
  then show ?r
    by (auto simp: validate_sigv4_def res_bind_Inr expected_signature_def constant_time_eq_iff
        split: if_split_asm option.splits)
next
  assume ?r
  then show ?l
    using parse_authorization_prefix
    by (auto simp: validate_sigv4_def res_bind_Inr expected_signature_def constant_time_eq_iff)
qed

lemma sigv4_runs:
  "auth_sigv4_mw L M c optional rq run n =
     (if optional = Some ''1'' \<or> well_signed L M c rq then run n
      else (xml_sig_error (case header_str L (rq_headers rq) ''authorization'' of
              None \<Rightarrow> ''AccessDenied'' | Some a \<Rightarrow> if a = [] then ''AccessDenied'' else ''SignatureDoesNotMatch'')
            (case header_str L (rq_headers rq) ''authorization'' of
              None \<Rightarrow> ''Authorization header missing; SigV4 required''
            | Some a \<Rightarrow> if a = [] then ''Authorization header missing; SigV4 required''
                else projl (validate_sigv4 L M c rq a)), n))"
proof (cases "header_str L (rq_headers rq) ''authorization''")
  case None
  then show ?thesis by (simp add: auth_sigv4_mw_def require_sigv4_def unwrap_or_def well_signed_def)
next
  case (Some a)
  show ?thesis
  proof (cases "a = []")
    case True
    then have "\<not> well_signed L M c rq"
      using Some parse_authorization_prefix by (auto simp: well_signed_def)
    then show ?thesis using Some True by (simp add: auth_sigv4_mw_def require_sigv4_def unwrap_or_def)
  next
    case False
    have "well_signed L M c rq \<longleftrightarrow> validate_sigv4 L M c rq a = Inr ()"
      using Some unfolding validate_sigv4_iff by (simp add: well_signed_def)
    then show ?thesis
      using Some False by (auto simp: auth_sigv4_mw_def require_sigv4_def unwrap_or_def split: sum.splits)
  qed
qed

text \<open>C9: behind the middleware a handler runs exactly for the requests that are well signed under the
node's key, or for all when signatures are made optional; any other is answered 403 and changes nothing.\<close>

theorem sigv4_guards:
  "auth_sigv4_mw L M c optional rq run n =
     (if optional = Some ''1'' \<or> well_signed L M c rq then run n
      else (xml_sig_error (case header_str L (rq_headers rq) ''authorization'' of
              None \<Rightarrow> ''AccessDenied'' | Some a \<Rightarrow> if a = [] then ''AccessDenied'' else ''SignatureDoesNotMatch'')
            (case header_str L (rq_headers rq) ''authorization'' of
              None \<Rightarrow> ''Authorization header missing; SigV4 required''
            | Some a \<Rightarrow> if a = [] then ''Authorization header missing; SigV4 required''
                else projl (validate_sigv4 L M c rq a)), n))"
  by (rule sigv4_runs)

text \<open>The header a client sends that signs with the credential scope of the documentation.\<close>

definition client_authorization :: "string \<Rightarrow> string \<Rightarrow> string \<Rightarrow> string \<Rightarrow> string \<Rightarrow> string \<Rightarrow> string" where
  "client_authorization access date region service names sig =
     ''AWS4-HMAC-SHA256 Credential='' @ access @ ''/'' @ date @ ''/'' @ region @ ''/'' @ service
       @ ''/aws4_request, SignedHeaders='' @ names @ '', Signature='' @ sig"

text \<open>A word of visible ASCII characters other than the two that delimit the header.\<close>

definition scope_word :: "string \<Rightarrow> bool" where
  "scope_word s \<longleftrightarrow> s \<noteq> [] \<and> list_all (\<lambda>c. plain_char c \<and> c \<noteq> CHR '','' \<and> c \<noteq> CHR ''/'') s"

lemma trim_start_space: "trim_start (CHR '' '' # s) = trim_start s"
  by (cases "CHR '' '' # s" rule: trim_start.cases) (auto simp: ws1_def)

lemma scope_word_last: "scope_word s \<Longrightarrow> plain_char (last s)"
  by (auto simp: scope_word_def list_all_iff)

lemma trim_space_plain: "plain_char a \<Longrightarrow> plain_char (last (a # s)) \<Longrightarrow> trim (CHR '' '' # a # s) = a # s"
  using trim_plain [of "a # s"] by (simp add: trim_def trim_start_space)

lemma parse_client_authorization:
  assumes "list_all scope_word [access, date, region, service, names, sig]"
  shows "parse_authorization (client_authorization access date region service names sig)
    = Inr \<lparr>ap_access_key = access, ap_region = region, ap_service = service,
           ap_signed_headers = names, ap_signature = sig\<rparr>"
proof -
  have ws: "scope_word access" "scope_word date" "scope_word region" "scope_word service" "scope_word names"
    "scope_word sig" using assms by simp_all
  have comma: "CHR '','' \<notin> set w" and slash: "CHR ''/'' \<notin> set w" and ne: "w \<noteq> []" if "scope_word w" for w
    using that by (auto simp: scope_word_def list_all_iff)
  define cred where "cred = access @ ''/'' @ date @ ''/'' @ region @ ''/'' @ service @ ''/aws4_request''"
  have "split_on (CHR ''/'') cred = [access, date, region, service, ''aws4_request'']"
    using ws by (simp add: cred_def split_on_append split_on_single slash)
  note segs = this
  have split: "split_on (CHR '','') (''Credential='' @ cred @ '', SignedHeaders='' @ names @ '', Signature='' @ sig)
      = [''Credential='' @ cred, '' SignedHeaders='' @ names, '' Signature='' @ sig]"
  proof -
    have "CHR '','' \<notin> set (''Credential='' @ cred)" using ws by (simp add: cred_def comma)
    moreover have "CHR '','' \<notin> set ('' SignedHeaders='' @ names)" "CHR '','' \<notin> set ('' Signature='' @ sig)"
      using ws by (simp_all add: comma)
    ultimately show ?thesis
      using split_on_append [of "CHR '',''" "''Credential='' @ cred" "'' SignedHeaders='' @ names @ '', Signature='' @ sig"]
        split_on_append [of "CHR '',''" "'' SignedHeaders='' @ names" "'' Signature='' @ sig"]
        split_on_single [of "CHR '',''" "'' Signature='' @ sig"] by simp
  qed
  have t: "trim (''Credential='' @ cred) = ''Credential='' @ cred"
    by (rule trim_plain) (simp add: cred_def plain_char_def)
  have t2: "trim ('' SignedHeaders='' @ names) = ''SignedHeaders='' @ names"
    "trim ('' Signature='' @ sig) = ''Signature='' @ sig"
    using trim_space_plain [of "CHR ''S''" "''ignedHeaders='' @ names"] trim_space_plain [of "CHR ''S''" "''ignature='' @ sig"]
      ws scope_word_last ne by (simp_all add: plain_char_def)
  have no: "strip_prefix (''SignedHeaders='' @ names) ''Credential='' = None"
    "strip_prefix (''Signature='' @ sig) ''Credential='' = None"
    "strip_prefix (''Signature='' @ sig) ''SignedHeaders='' = None"
    by (simp_all add: strip_prefix_def starts_with_def)
  have form: "client_authorization access date region service names sig
      = ''AWS4-HMAC-SHA256 '' @ (''Credential='' @ cred @ '', SignedHeaders='' @ names @ '', Signature='' @ sig)"
    by (simp add: client_authorization_def cred_def)
  show ?thesis
    unfolding parse_authorization_def form strip_prefix_append option.case split
    using ne ws by (simp add: parse_auth_part_def t t2 no strip_prefix_append segs seg_or_def Let_def del: append_Cons append_Nil)
qed


text \<open>
  The signature of the AWS documentation, written out: of a request with this method, path, query string, signed headers
  (each a name with the words of its value) and payload hash, by a key with this secret on this date for this
  region and service. HMAC is total: it takes keys of every length.
\<close>

definition aws_canonical :: "string \<Rightarrow> string \<Rightarrow> string \<Rightarrow> (string \<times> string list) list \<Rightarrow> string \<Rightarrow> string" where
  "aws_canonical method path query hs payload =
     method @ newline @ path @ newline @ query @ newline
       @ concat (map (\<lambda>(name, ws). name @ '':'' @ join '' '' ws @ newline) hs) @ newline
       @ join '';'' (map fst hs) @ newline @ payload"

definition aws_signature ::
  "(string \<Rightarrow> string \<Rightarrow> string) \<Rightarrow> (string \<Rightarrow> string) \<Rightarrow> string \<Rightarrow> string \<Rightarrow> string \<Rightarrow> string \<Rightarrow> string \<Rightarrow> string" where
  "aws_signature hmac sha256 secret date region service canonical =
     (let day = take 8 date;
          signing_key = hmac (hmac (hmac (hmac (''AWS4'' @ secret) day) region) service) ''aws4_request'' in
      hex_encode (hmac signing_key (''AWS4-HMAC-SHA256'' @ newline @ date @ newline
        @ day @ ''/'' @ region @ ''/'' @ service @ ''/aws4_request'' @ newline @ hex_encode (sha256 canonical))))"

text \<open>A header name as HTTP writes it, in lower case.\<close>

definition header_name :: "string \<Rightarrow> bool" where
  "header_name s \<longleftrightarrow> s \<noteq> [] \<and> list_all (\<lambda>c. plain_char c \<and> c \<noteq> CHR '';'') s \<and> ascii_lower s = s"

lemma unwrap_case: "unwrap_or x y = (case x of Some z \<Rightarrow> z | None \<Rightarrow> y)"
  by (simp add: unwrap_or_def split: option.split)

lemma canonical_headers_words:
  assumes "hs \<noteq> []" "list_all (\<lambda>(name, ws). header_name name \<and>
      (\<exists>v. header_str L hdrs name = Some v \<and> split_whitespace v = ws)) hs"
  shows "build_canonical_headers L hdrs (join '';'' (map fst hs))
    = concat (map (\<lambda>(name, ws). name @ '':'' @ join '' '' ws @ newline) hs)"
proof -
  have names: "split_on (CHR '';'') (join '';'' (map fst hs)) = map fst hs"
  proof (rule split_on_join)
    show "map fst hs \<noteq> []" using assms(1) by simp
    show "CHR '';'' \<notin> set w" if w: "w \<in> set (map fst hs)" for w
    proof -
      obtain ws where "(w, ws) \<in> set hs" using w by auto
      then have "header_name w" using assms(2) unfolding list_all_iff by blast
      then show ?thesis unfolding header_name_def list_all_iff by blast
    qed
  qed
  have "canonical_header L hdrs name = name @ '':'' @ join '' '' ws @ newline" if "(name, ws) \<in> set hs" for name ws
  proof -
    obtain v where v: "header_name name" "header_str L hdrs name = Some v" "split_whitespace v = ws"
      using assms(2) \<open>(name, ws) \<in> set hs\<close> by (auto simp: list_all_iff)
    then have "trim name = name" by (intro trim_all_plain) (auto simp: header_name_def list_all_iff)
    then show ?thesis using v by (simp add: canonical_header_def header_name_def unwrap_or_def)
  qed
  then have "map (canonical_header L hdrs \<circ> fst) hs = map (\<lambda>(name, ws). name @ '':'' @ join '' '' ws @ newline) hs"
    by (intro map_cong refl) auto
  then show ?thesis unfolding build_canonical_headers_def names list.map_comp by (rule arg_cong [where f = concat])
qed


definition ascii_lib :: lib where
  "ascii_lib = \<lparr>lib_digest = (\<lambda>a s. take 4 s), lib_xof = (\<lambda>k s. take k s), lib_lower = ascii_lower,
     lib_mime = (\<lambda>s. ''text/plain''), lib_rfc3339 = show_int, lib_to_str = Some, lib_header_value = Some\<rparr>"

definition demo_request :: request where
  "demo_request = \<lparr>rq_method = ''GET'', rq_path = ''/storage/objects/a'', rq_query = None,
     rq_headers = [(''host'', ''h:1''), (''x-amz-date'', ''20260101T000000Z'')]\<rparr>"

text \<open>A client's request, signed with short stand-ins for the hash functions.\<close>

definition plain_hmac :: "string \<Rightarrow> string \<Rightarrow> string" where
  "plain_hmac k x = take 4 k @ drop (length x - 8) x"

definition plain_media :: media_lib where
  "plain_media = demo_media\<lparr>ml_hmac := (\<lambda>k x. Inr (plain_hmac k x))\<rparr>"

definition plain_signature :: string where
  "plain_signature = aws_signature plain_hmac (take 4) ''s'' ''20260101T000000Z'' ''eu'' ''s3''
     (aws_canonical ''GET'' ''/storage/objects/a'' [] [(''host'', [''h:1'']), (''x-note'', [''two'', ''words''])] ''UNSIGNED-PAYLOAD'')"

definition plain_request :: "string \<Rightarrow> request" where
  "plain_request method = \<lparr>rq_method = method, rq_path = ''/storage/objects/a'', rq_query = None,
     rq_headers = [(''host'', ''h:1''), (''x-amz-date'', ''20260101T000000Z''), (''x-note'', ''two   words''),
       (''authorization'', client_authorization ''k'' ''20260101'' ''eu'' ''s3'' ''host;x-note'' plain_signature)]\<rparr>"



section \<open>Session tokens in headers\<close>

text \<open>The cookie a browser sends back, after cookies of other names, is the token.\<close>

lemma cookie_token_own:
  assumes "tok \<noteq> []" "plain_char (hd tok)" "plain_char (last tok)"
  shows "cookie_token [SESSION_COOKIE @ ''='' @ tok] = Some tok"
proof -
  have "trim (SESSION_COOKIE @ ''='' @ tok) = SESSION_COOKIE @ ''='' @ tok"
    using assms by (intro trim_plain) (simp add: SESSION_COOKIE_def plain_char_def)
  moreover have "trim tok = tok" using assms by (intro trim_plain) simp
  ultimately show ?thesis
    using strip_prefix_append [of "SESSION_COOKIE @ ''=''" tok] assms(1) by simp
qed

lemma extract_session_cookie:
  assumes "tok \<noteq> []" "list_all (\<lambda>c. plain_char c \<and> c \<noteq> CHR '';'') tok"
    and "header_get ''authorization'' hs = None"
    and "header_get ''cookie'' hs = Some (SESSION_COOKIE @ ''='' @ tok)"
    and "lib_to_str L (SESSION_COOKIE @ ''='' @ tok) = Some (SESSION_COOKIE @ ''='' @ tok)"
  shows "extract_token_from_headers L hs = Some tok"
proof -
  have t: "plain_char (hd tok)" "plain_char (last tok)" using assms(1,2) by (auto simp: list_all_iff)
  have "CHR '';'' \<notin> set (SESSION_COOKIE @ ''='' @ tok)" using assms(2) by (auto simp: SESSION_COOKIE_def list_all_iff)
  then show ?thesis
    using assms(3-5) cookie_token_own [OF assms(1) t] by (simp add: extract_token_from_headers_def split_on_single)
qed

end
