(* ===== verification/Handlers.thy ===== *)
theory Handlers
  imports Auth
begin

text \<open>
  What the JSON routes share: replies, the libraries and the configuration a handler is given, and the
  extractors in front of a handler.
\<close>

section \<open>Replies\<close>

text \<open>
  A handler answers with a response (a text, an empty body, the bytes of an object) or with a status and a
  value that is serialized as JSON; a handler that panics gives no reply.
\<close>

datatype 'a reply = Raw response | Json int 'a | Panicked

definition text_reply :: "int \<Rightarrow> string \<Rightarrow> 'a reply" where
  "text_reply st msg = Raw (text_response st msg)"

definition status_reply :: "int \<Rightarrow> 'a reply" where
  "status_reply st = Raw \<lparr>rs_status = st, rs_headers = [], rs_body = []\<rparr>"

definition error_reply :: "error \<Rightarrow> 'a reply" where
  "error_reply e = text_reply 500 (err_msg e)"

fun reply_status :: "'a reply \<Rightarrow> int" where
  "reply_status (Raw r) = rs_status r"
| "reply_status (Json st _) = st"
| "reply_status Panicked = 0"

text \<open>What the handlers share: the libraries and the configuration.\<close>

record 'a app =
  app_lib :: lib
  app_media :: media_lib
  app_config :: "'a config"

text \<open>Handlers with an \<open>AuthAccount\<close> argument, behind the extractor, and with an \<open>OptionalAuth\<close> one.\<close>

definition with_account ::
  "'a app \<Rightarrow> headers \<Rightarrow> time \<Rightarrow> (account_record \<Rightarrow> node \<Rightarrow> 'r reply \<times> node) \<Rightarrow> node \<Rightarrow> 'r reply \<times> node" where
  "with_account A hs now handler n =
     (case auth_account (app_lib A) hs now (node_db n) of
        (Inl r, d) \<Rightarrow> (Raw r, n\<lparr>node_db := d\<rparr>)
      | (Inr account, d) \<Rightarrow> handler account (n\<lparr>node_db := d\<rparr>))"

definition with_optional_account ::
  "'a app \<Rightarrow> headers \<Rightarrow> time \<Rightarrow> (account_record option \<Rightarrow> node \<Rightarrow> 'r reply \<times> node) \<Rightarrow> node \<Rightarrow> 'r reply \<times> node" where
  "with_optional_account A hs now handler n =
     (case optional_auth (app_lib A) hs now (node_db n) of
        (account, d) \<Rightarrow> handler account (n\<lparr>node_db := d\<rparr>))"

end
