(* ===== verification/Account_Routes.thy ===== *)
theory Account_Routes
  imports Handlers Nodes
begin

text \<open>
  The first half of \<open>src/server/settings_routes.rs\<close>: signing in and out, accounts, roles and buckets; then
  what a login and the first start promise.
\<close>

section \<open>Signing in and out\<close>

record account_view =
  av_id :: int
  av_username_hex :: string
  av_display_name :: string
  av_is_disabled :: bool
  av_role_ids :: "int list"
  av_created_utc :: time
  av_created_by :: "int option"

definition account_view :: "db \<Rightarrow> account_record \<Rightarrow> account_view" where
  "account_view d a =
     \<lparr>av_id = account_id a, av_username_hex = username_hex a, av_display_name = display_name a,
      av_is_disabled = is_disabled a, av_role_ids = list_account_role_ids (account_id a) d,
      av_created_utc = account_created_utc a, av_created_by = created_by_account_id a\<rparr>"

record auth_status_response =
  as_needs_bootstrap :: bool
  as_authenticated :: bool
  as_account :: "account_view option"
  as_is_owner :: bool

definition auth_status :: "lib \<Rightarrow> headers \<Rightarrow> time \<Rightarrow> db \<Rightarrow> auth_status_response reply \<times> db" where
  "auth_status L hs now d =
     (let needs = (account_count d = 0) in
      case (case extract_token_from_headers L hs of Some t \<Rightarrow> resolve_session t now d | None \<Rightarrow> (None, d)) of
        (Some a, d1) \<Rightarrow> (Json 200 \<lparr>as_needs_bootstrap = needs, as_authenticated = True,
            as_account = Some (account_view d1 a), as_is_owner = account_is_owner (account_id a) d1\<rparr>, d1)
      | (None, d1) \<Rightarrow> (Json 200 \<lparr>as_needs_bootstrap = needs, as_authenticated = False, as_account = None,
            as_is_owner = False\<rparr>, d1))"

definition SESSION_DAYS :: int where "SESSION_DAYS = 7 * 24 * 3600"

definition session_cookie :: "string \<Rightarrow> time \<Rightarrow> time \<Rightarrow> string" where
  "session_cookie tok expires now =
     SESSION_COOKIE @ ''='' @ tok @ ''; Path=/; HttpOnly; SameSite=Lax; Max-Age='' @ show_int (max (expires - now) 0)"

text \<open>The reply to a sign-in: the cookie it sets, the account, the credentials when they are new, the token.\<close>

record login_reply =
  lr_set_cookie :: string
  lr_account_id :: int
  lr_credentials :: "(string \<times> string) option"
  lr_session_token :: string

text \<open>
  \<open>argon\<close>, \<open>phc\<close> and \<open>argon_verify\<close> are the password hash; \<open>salt\<close> and the \<open>r\<close>s are the random bytes a
  handler draws.
\<close>

definition auth_bootstrap ::
  "(string \<Rightarrow> string \<Rightarrow> string + string) \<Rightarrow> string \<Rightarrow> string \<Rightarrow> string \<Rightarrow> string \<Rightarrow> string option \<Rightarrow> time \<Rightarrow> db
     \<Rightarrow> login_reply reply \<times> db" where
  "auth_bootstrap argon salt r16 r32 session_bytes dname now d =
     (if account_count d \<noteq> 0 then (text_reply 409 ''bootstrap already completed'', d)
      else
        (case generate_credentials r16 r32 of (username, password) \<Rightarrow>
          (case create_account argon salt username password (unwrap_or dname ''Owner'') None now d of
             (Inl e, d1) \<Rightarrow> (error_reply e, d1)
           | (Inr account, d1) \<Rightarrow>
               (case get_owner_role d1 of
                  None \<Rightarrow> (text_reply 500 ''Owner role missing'', d1)
                | Some owner \<Rightarrow>
                    (case assign_role (account_id account) (role_id owner) d1 of
                       (Inl e, d2) \<Rightarrow> (error_reply e, d2)
                     | (Inr _, d2) \<Rightarrow>
                         (case claim_unowned_buckets (account_id account) d2 of
                            (Inl e, d3) \<Rightarrow> (error_reply e, d3)
                          | (Inr _, d3) \<Rightarrow>
                              (case create_session session_bytes (account_id account) SESSION_DAYS now d3 of
                                 (Inl e, d4) \<Rightarrow> (error_reply e, d4)
                               | (Inr (tok, expires), d4) \<Rightarrow>
                                   (Json 201 \<lparr>lr_set_cookie = session_cookie tok expires now,
                                      lr_account_id = account_id account,
                                      lr_credentials = Some (username, password), lr_session_token = tok\<rparr>, d4))))))))"

definition auth_login ::
  "(string \<Rightarrow> string + 'h) \<Rightarrow> (string \<Rightarrow> 'h \<Rightarrow> bool) \<Rightarrow> string \<Rightarrow> string \<Rightarrow> string \<Rightarrow> time \<Rightarrow> db
     \<Rightarrow> login_reply reply \<times> db" where
  "auth_login phc argon_verify session_bytes username password now d =
     (case get_account_by_username (trim username) d of
        None \<Rightarrow> (text_reply 401 ''invalid credentials'', d)
      | Some account \<Rightarrow>
          if is_disabled account then (text_reply 403 ''account disabled'', d)
          else (case verify_password phc argon_verify (trim password) (password_hash account) of
                  Inl e \<Rightarrow> (error_reply e, d)
                | Inr False \<Rightarrow> (text_reply 401 ''invalid credentials'', d)
                | Inr True \<Rightarrow>
                    (case create_session session_bytes (account_id account) SESSION_DAYS now d of
                       (Inl e, d1) \<Rightarrow> (error_reply e, d1)
                     | (Inr (tok, expires), d1) \<Rightarrow>
                         (Json 200 \<lparr>lr_set_cookie = session_cookie tok expires now,
                            lr_account_id = account_id account, lr_credentials = None, lr_session_token = tok\<rparr>, d1))))"

definition auth_logout :: "lib \<Rightarrow> headers \<Rightarrow> db \<Rightarrow> response \<times> db" where
  "auth_logout L hs d =
     (\<lparr>rs_status = 204,
       rs_headers = [(''set-cookie'', SESSION_COOKIE @ ''=; Path=/; HttpOnly; SameSite=Lax; Max-Age=0'')], rs_body = []\<rparr>,
      case extract_token_from_headers L hs of Some tok \<Rightarrow> delete_session tok d | None \<Rightarrow> d)"

section \<open>Accounts\<close>

text \<open>The routes for owners: \<open>owner_only\<close> refuses the others, before anything else.\<close>

definition owner_only :: "account_record \<Rightarrow> (db \<Rightarrow> 'r reply \<times> db) \<Rightarrow> db \<Rightarrow> 'r reply \<times> db" where
  "owner_only auth handler d =
     (case require_owner (account_id auth) d of Inl r \<Rightarrow> (Raw r, d) | Inr _ \<Rightarrow> handler d)"

definition list_account_directory_route :: "account_record \<Rightarrow> db \<Rightarrow> (int \<times> string) list reply \<times> db" where
  "list_account_directory_route auth d = (Json 200 (list_account_directory d), d)"

definition list_accounts_route :: "account_record \<Rightarrow> db \<Rightarrow> account_view list reply \<times> db" where
  "list_accounts_route auth = owner_only auth (\<lambda>d. (Json 200 (map (account_view d) (list_accounts d)), d))"

record created_account =
  ca_account :: account_record
  ca_credentials :: "string \<times> string"

text \<open>When the roles cannot be set the account stays.\<close>

definition create_account_route ::
  "(string \<Rightarrow> string \<Rightarrow> string + string) \<Rightarrow> string \<Rightarrow> string \<Rightarrow> string \<Rightarrow> account_record \<Rightarrow> string option \<Rightarrow>
     int list option \<Rightarrow> time \<Rightarrow> db \<Rightarrow> created_account reply \<times> db" where
  "create_account_route argon salt r16 r32 auth dname role_ids now = owner_only auth (\<lambda>d.
     (case generate_credentials r16 r32 of (username, password) \<Rightarrow>
       (case create_account argon salt username password (unwrap_or dname []) (Some (account_id auth)) now d of
          (Inl e, d1) \<Rightarrow> (error_reply e, d1)
        | (Inr account, d1) \<Rightarrow>
            let reply = Json 201 \<lparr>ca_account = account, ca_credentials = (username, password)\<rparr> in
            (case role_ids of
               None \<Rightarrow> (reply, d1)
             | Some rs \<Rightarrow>
                 (case set_account_roles (account_id account) rs d1 of
                    (Inl e, d2) \<Rightarrow> (error_reply e, d2)
                  | (Inr _, d2) \<Rightarrow> (reply, d2))))))"

definition patch_account_route ::
  "account_record \<Rightarrow> int \<Rightarrow> string option \<Rightarrow> bool option \<Rightarrow> time \<Rightarrow> db \<Rightarrow> unit reply \<times> db" where
  "patch_account_route auth i dname disabled now = owner_only auth (\<lambda>d.
     (case (case dname of Some name \<Rightarrow> update_account_display_name i name now d | None \<Rightarrow> (Inr (), d)) of
        (Inl e, d1) \<Rightarrow> (text_reply 400 (err_msg e), d1)
      | (Inr _, d1) \<Rightarrow>
          (case disabled of
             None \<Rightarrow> (status_reply 204, d1)
           | Some dis \<Rightarrow>
               if dis \<and> i = account_id auth then (text_reply 400 ''cannot disable your own account'', d1)
               else (case set_account_disabled i dis now d1 of
                       (Inl e, d2) \<Rightarrow> (text_reply 400 (err_msg e), d2)
                     | (Inr _, d2) \<Rightarrow> (status_reply 204, if dis then delete_sessions_for_account i d2 else d2)))))"

definition delete_account_route :: "account_record \<Rightarrow> int \<Rightarrow> db \<Rightarrow> unit reply \<times> db" where
  "delete_account_route auth i d =
     (if i = account_id auth then (text_reply 400 ''cannot delete your own account'', d)
      else if \<not> account_created_by i (account_id auth) d
      then (text_reply 403 ''only the creator of an account can delete it'', d)
      else (case delete_account i d of
              (Inr True, d1) \<Rightarrow> (status_reply 204, d1)
            | (Inr False, d1) \<Rightarrow> (text_reply 404 ''account not found'', d1)
            | (Inl e, d1) \<Rightarrow> (error_reply e, d1)))"

text \<open>The reply is the username and the new password.\<close>

definition regenerate_password_route ::
  "(string \<Rightarrow> string \<Rightarrow> string + string) \<Rightarrow> string \<Rightarrow> string \<Rightarrow> account_record \<Rightarrow> int \<Rightarrow> time \<Rightarrow> db
     \<Rightarrow> (string \<times> string) reply \<times> db" where
  "regenerate_password_route argon salt r32 auth i now = owner_only auth (\<lambda>d.
     (case get_account_by_id i d of
        None \<Rightarrow> (text_reply 404 ''account not found'', d)
      | Some account \<Rightarrow>
          let password = random_hex r32 in
          (case set_account_password argon salt i password now d of
             (Inl e, d1) \<Rightarrow> (error_reply e, d1)
           | (Inr _, d1) \<Rightarrow> (Json 200 (username_hex account, password), delete_sessions_for_account i d1))))"

definition set_roles_route :: "account_record \<Rightarrow> int \<Rightarrow> int list \<Rightarrow> db \<Rightarrow> unit reply \<times> db" where
  "set_roles_route auth i rs = owner_only auth (\<lambda>d.
     (if get_account_by_id i d = None then (text_reply 404 ''account not found'', d)
      else (case set_account_roles i rs d of
              (Inr _, d1) \<Rightarrow> (status_reply 204, d1) | (Inl e, d1) \<Rightarrow> (error_reply e, d1))))"

section \<open>Roles\<close>

definition list_roles_route :: "account_record \<Rightarrow> db \<Rightarrow> role_record list reply \<times> db" where
  "list_roles_route auth = owner_only auth (\<lambda>d. (Json 200 (list_roles d), d))"

definition create_role_route :: "account_record \<Rightarrow> string \<Rightarrow> int option \<Rightarrow> db \<Rightarrow> role_record reply \<times> db" where
  "create_role_route auth raw_name pos = owner_only auth (\<lambda>d.
     (let name = trim raw_name in
      if name = [] then (text_reply 400 ''name required'', d)
      else (case create_role name (unwrap_or pos 0) d of
              (Inr r, d1) \<Rightarrow> (Json 201 r, d1)
            | (Inl e, d1) \<Rightarrow>
                (if err_has e ''UNIQUE'' then text_reply 409 ''role already exists'' else error_reply e, d1))))"

definition patch_role_route ::
  "account_record \<Rightarrow> int \<Rightarrow> string option \<Rightarrow> int option \<Rightarrow> db \<Rightarrow> unit reply \<times> db" where
  "patch_role_route auth i name pos = owner_only auth (\<lambda>d.
     (case update_role i (map_option trim name) pos d of
        (Inr _, d1) \<Rightarrow> (status_reply 204, d1) | (Inl e, d1) \<Rightarrow> (text_reply 400 (err_msg e), d1)))"

definition delete_role_route :: "account_record \<Rightarrow> int \<Rightarrow> db \<Rightarrow> unit reply \<times> db" where
  "delete_role_route auth i = owner_only auth (\<lambda>d.
     (case delete_role i d of
        (Inr _, d1) \<Rightarrow> (status_reply 204, d1)
      | (Inl e, d1) \<Rightarrow>
          (if err_has e ''cannot delete'' \<or> err_has e ''not found'' then text_reply 400 (err_msg e) else error_reply e, d1)))"

definition get_role_permissions_route :: "account_record \<Rightarrow> int \<Rightarrow> db \<Rightarrow> role_bucket_permission list reply \<times> db" where
  "get_role_permissions_route auth i = owner_only auth (\<lambda>d. (Json 200 (list_role_permissions i d), d))"

definition put_role_permissions_route ::
  "account_record \<Rightarrow> int \<Rightarrow> (int \<times> crud_perms) list \<Rightarrow> db \<Rightarrow> unit reply \<times> db" where
  "put_role_permissions_route auth i perms = owner_only auth (\<lambda>d.
     (case get_role i d of
        None \<Rightarrow> (text_reply 404 ''role not found'', d)
      | Some role \<Rightarrow>
          (case replace_role_permissions i perms d of
             (Inr _, d1) \<Rightarrow> (status_reply 204, d1) | (Inl e, d1) \<Rightarrow> (error_reply e, d1))))"

section \<open>Buckets\<close>

record bucket_list_item =
  bli_bucket :: bucket_record
  bli_can_edit_replication :: bool

definition list_buckets_route :: "account_record \<Rightarrow> db \<Rightarrow> bucket_list_item list reply \<times> db" where
  "list_buckets_route auth d =
     (Json 200 (map (\<lambda>b. \<lparr>bli_bucket = b,
          bli_can_edit_replication = can_edit_bucket_replication (account_id auth) (bucket_id b) d\<rparr>)
        (filter (\<lambda>b. check_perm (account_id auth) (bucket_id b) Read d) (list_buckets d))), d)"

definition bucket_name_char :: "char \<Rightarrow> bool" where
  "bucket_name_char c \<longleftrightarrow> is_ascii_alphanumeric c \<or> c = CHR ''-'' \<or> c = CHR ''_'' \<or> c = CHR ''.''"

definition validate_bucket_name :: "string \<Rightarrow> string + string" where
  "validate_bucket_name raw =
     (let name = trim raw in
      if name = [] \<or> length name > 128 then Inl ''invalid bucket name''
      else if \<not> list_all bucket_name_char name then Inl ''bucket name may only contain alphanumeric, -, _, .''
      else Inr name)"

definition create_bucket_route :: "'a config \<Rightarrow> account_record \<Rightarrow> string \<Rightarrow> time \<Rightarrow> db \<Rightarrow> bucket_record reply \<times> db" where
  "create_bucket_route c auth raw_name now = owner_only auth (\<lambda>d.
     (case validate_bucket_name raw_name of
        Inl msg \<Rightarrow> (text_reply 400 msg, d)
      | Inr name \<Rightarrow>
          (case create_bucket name (account_id auth) (default_etag_type c) now d of
             (Inr b, d1) \<Rightarrow>
               (case assign_bucket_node (bucket_id b) (cfg_node_id c) DEFAULT_NODE_ALLOCATED_BYTES Soft d1 of
                  (Inl e, d2) \<Rightarrow> (error_reply e, d2)
                | (Inr _, d2) \<Rightarrow> (Json 201 b, d2))
           | (Inl e, d1) \<Rightarrow>
               (if err_has e ''UNIQUE'' then text_reply 409 ''bucket already exists'' else error_reply e, d1))))"

definition rename_status :: "error \<Rightarrow> 'r reply" where
  "rename_status e =
     (if err_has e ''UNIQUE'' then text_reply 409 ''bucket already exists''
      else if err_has e ''cannot rename'' \<or> err_has e ''reserved'' then text_reply 409 (err_msg e)
      else if err_has e ''not found'' then text_reply 404 (err_msg e) else error_reply e)"

definition transfer_status :: "error \<Rightarrow> 'r reply" where
  "transfer_status e =
     (if err_has e ''account not found'' then text_reply 404 (err_msg e)
      else if err_has e ''disabled'' then text_reply 409 (err_msg e)
      else if err_has e ''bucket not found'' then text_reply 404 (err_msg e) else error_reply e)"

text \<open>The new name is kept when the transfer that follows fails.\<close>

definition patch_bucket_route ::
  "account_record \<Rightarrow> int \<Rightarrow> string option \<Rightarrow> int option \<Rightarrow> db \<Rightarrow> bucket_record reply \<times> db" where
  "patch_bucket_route auth i name new_owner d =
     (if name = None \<and> new_owner = None then (text_reply 400 ''no fields to update'', d)
      else if \<not> account_owns_bucket (account_id auth) i d
      then (text_reply 403 ''only the bucket owner can rename or transfer this bucket'', d)
      else (case get_bucket_by_id i d of
              None \<Rightarrow> (text_reply 404 ''bucket not found'', d)
            | Some bucket \<Rightarrow>
                (case (case name of
                         None \<Rightarrow> (Inr bucket, d)
                       | Some raw \<Rightarrow> (case validate_bucket_name raw of
                             Inl msg \<Rightarrow> (Inl (text_reply 400 msg), d)
                           | Inr nm \<Rightarrow> (case rename_bucket i nm d of
                                 (Inl e, d1) \<Rightarrow> (Inl (rename_status e), d1)
                               | (Inr b, d1) \<Rightarrow> (Inr b, d1)))) of
                   (Inl r, d1) \<Rightarrow> (r, d1)
                 | (Inr bucket, d1) \<Rightarrow>
                     (case new_owner of
                        None \<Rightarrow> (Json 200 bucket, d1)
                      | Some new_id \<Rightarrow> (case set_bucket_owner i new_id d1 of
                            (Inl e, d2) \<Rightarrow> (transfer_status e, d2)
                          | (Inr b, d2) \<Rightarrow> (Json 200 b, d2))))))"


section \<open>Signing in\<close>

lemma row_by_snoc: "k \<notin> key ` set rows \<Longrightarrow> key r = k \<Longrightarrow> row_by key k (rows @ [r]) = Some r"
  by (induction rows) (auto simp: row_by_def select_one_def)

lemma account_row: "keyed_ok account_id (accounts d) m \<Longrightarrow> a \<in> set (accounts d) \<Longrightarrow> get_account_by_id (account_id a) d = Some a"
  unfolding get_account_by_id_def keyed_ok_def by (blast intro: acc_tbl.row_of_mem)

lemma new_session_authenticates:
  assumes "create_session bytes (account_id a) ttl now d = (Inr (tok, expires), d1)"
    and "get_account_by_id (account_id a) d = Some a" "\<not> is_disabled a" "bytes \<noteq> []"
    and "header_get ''authorization'' hs = None" "header_get ''cookie'' hs = Some (SESSION_COOKIE @ ''='' @ tok)"
    and "lib_to_str L (SESSION_COOKIE @ ''='' @ tok) = Some (SESSION_COOKIE @ ''='' @ tok)"
    and "later \<le> expires"
  shows "auth_account L hs later d1 = (Inr a, d1)"
proof -
  define s where "s = \<lparr>token = tok, session_account_id = account_id a, expires_utc = expires\<rparr>"
  have new: "tok \<notin> token ` set (sessions d)" and d1: "d1 = sessions_update (\<lambda>rows. rows @ [s]) d"
    and tok: "tok = hex_encode bytes"
    using assms(1) by (auto simp: create_session_def Let_def s_def generate_session_token_def random_hex_def split: if_split_asm)
  have "row_by token tok (sessions d1) = Some s" using new by (simp add: d1 row_by_snoc s_def)
  moreover have "get_account_by_id (account_id a) d1 = Some a" using assms(2) by (simp add: d1 get_account_by_id_def)
  ultimately have "resolve_session tok later d1 = (Some a, d1)"
    using assms(3,8) by (simp add: resolve_session_def s_def)
  moreover have "extract_token_from_headers L hs = Some tok"
  proof (rule extract_session_cookie [OF _ _ assms(5-7)])
    show "tok \<noteq> []" using assms(4) unfolding tok by (cases bytes) (simp_all add: hex_encode_def)
    show "list_all (\<lambda>c. plain_char c \<and> c \<noteq> CHR '';'') tok"
      using hex_encode_chars [of bytes] unfolding tok
      by (rule list.pred_mono_strong) (auto simp: hex_char_def plain_char_def)
  qed
  ultimately show ?thesis by (simp add: auth_account_def)
qed

text \<open>C7: a login is answered 200 exactly for the username and password of an enabled account (when the random
token is new), and then the cookie it sets authenticates that very account for the seven days it lasts.\<close>

theorem login_authenticates:
  assumes ok: "db_ok d" and bytes: "bytes \<noteq> []" "generate_session_token bytes \<notin> token ` set (sessions d)"
    and run: "auth_login phc argon_verify bytes username password now d = (r, d1)"
    and hs: "header_get ''authorization'' hs = None"
      "header_get ''cookie'' hs = Some (SESSION_COOKIE @ ''='' @ generate_session_token bytes)"
      "lib_to_str L (SESSION_COOKIE @ ''='' @ generate_session_token bytes) = Some (SESSION_COOKIE @ ''='' @ generate_session_token bytes)"
  shows "(reply_status r = 200 \<longleftrightarrow> (\<exists>a. get_account_by_username (trim username) d = Some a \<and> \<not> is_disabled a
        \<and> verify_password phc argon_verify (trim password) (password_hash a) = Inr True))
    \<and> (case r of
         Json st lr \<Rightarrow> lr_session_token lr = generate_session_token bytes
           \<and> starts_with (lr_set_cookie lr) (SESSION_COOKIE @ ''='' @ generate_session_token bytes @ '';'')
           \<and> (\<forall>later. later \<le> now + 604800 \<longrightarrow> (\<exists>a. account_id a = lr_account_id lr
                \<and> get_account_by_username (trim username) d = Some a \<and> auth_account L hs later d1 = (Inr a, d1)))
       | _ \<Rightarrow> d1 = d)"
proof (cases "\<exists>a. get_account_by_username (trim username) d = Some a \<and> \<not> is_disabled a
        \<and> verify_password phc argon_verify (trim password) (password_hash a) = Inr True")
  case False
  then have "reply_status r \<noteq> 200 \<and> d1 = d \<and> (\<exists>x. r = Raw x)"
    using run by (auto simp: auth_login_def text_reply_def text_response_def error_reply_def
        split: option.splits if_split_asm sum.splits bool.splits)
  then show ?thesis using False by auto
next
  case True
  then obtain a where a: "get_account_by_username (trim username) d = Some a" "\<not> is_disabled a"
    "verify_password phc argon_verify (trim password) (password_hash a) = Inr True" by blast
  have mem: "a \<in> set (accounts d)" using a(1) unfolding get_account_by_username_def row_by_def by (blast dest: select_one_Some)
  have row: "get_account_by_id (account_id a) d = Some a"
    using ok mem account_row unfolding db_ok_def keys_ok_def by blast
  define tok where "tok = generate_session_token bytes"
  define d2 where "d2 = sessions_update (\<lambda>rows. rows @ [\<lparr>token = tok, session_account_id = account_id a,
      expires_utc = now + SESSION_DAYS\<rparr>]) d"
  have ses: "create_session bytes (account_id a) SESSION_DAYS now d = (Inr (tok, now + SESSION_DAYS), d2)"
    using bytes(2) mem by (auto simp: create_session_def Let_def tok_def d2_def)
  have r: "r = Json 200 \<lparr>lr_set_cookie = session_cookie tok (now + SESSION_DAYS) now, lr_account_id = account_id a,
      lr_credentials = None, lr_session_token = tok\<rparr>" and d1: "d1 = d2"
    using run a ses by (simp_all add: auth_login_def)
  have "auth_account L hs later d1 = (Inr a, d1)" if "later \<le> now + 604800" for later
    unfolding d1 using new_session_authenticates [OF ses row a(2) bytes(1) hs [folded tok_def]] that
    by (simp add: SESSION_DAYS_def)
  moreover have "starts_with (session_cookie tok e now) (SESSION_COOKIE @ ''='' @ tok @ '';'')" for e
  proof -
    have "session_cookie tok e now = (SESSION_COOKIE @ ''='' @ tok @ '';'')
        @ '' Path=/; HttpOnly; SameSite=Lax; Max-Age='' @ show_int (max (e - now) 0)"
      by (simp add: session_cookie_def)
    then show ?thesis by (metis starts_with_append)
  qed
  ultimately show ?thesis using True a(1) unfolding r by (auto simp: tok_def [symmetric])
qed


definition login_db :: db where
  "login_db = (initial_db 0)\<lparr>accounts := [\<lparr>account_id = 4, username_hex = ''ab'', password_hash = ''pw'',
     display_name = [], is_disabled = False, account_created_utc = 0, account_updated_utc = 0,
     created_by_account_id = None\<rparr>], next_account_id := 5\<rparr>"

theorem login_authenticates_witness:
  "let (r, d1) = auth_login Inr (=) ''x'' '' ab'' ''pw'' 10 login_db in
   reply_status r = 200 \<and>
   (case r of Json st lr \<Rightarrow> lr_account_id lr = 4 \<and>
      (case auth_account ascii_lib [(''cookie'', ''mys3_session=78'')] 604810 d1 of
         (Inr a, d2) \<Rightarrow> account_id a = 4 \<and> d2 = d1 | _ \<Rightarrow> False)
    | _ \<Rightarrow> False)"
proof -
  obtain r d1 where run: "auth_login Inr (=) ''x'' '' ab'' ''pw'' 10 login_db = (r, d1)" by force
  have ok: "db_ok login_db" by code_simp
  have tok: "generate_session_token ''x'' = ''78''" by code_simp
  have h: "''x'' \<noteq> []" "generate_session_token ''x'' \<notin> token ` set (sessions login_db)"
    "header_get ''authorization'' [(''cookie'', ''mys3_session=78'')] = None"
    "header_get ''cookie'' [(''cookie'', ''mys3_session=78'')] = Some (SESSION_COOKIE @ ''='' @ generate_session_token ''x'')"
    "lib_to_str ascii_lib (SESSION_COOKIE @ ''='' @ generate_session_token ''x'')
      = Some (SESSION_COOKIE @ ''='' @ generate_session_token ''x'')" by code_simp+
  have acc: "(case get_account_by_username (trim '' ab'') login_db of None \<Rightarrow> False
      | Some a \<Rightarrow> account_id a = 4 \<and> \<not> is_disabled a
          \<and> verify_password Inr (=) (trim ''pw'') (password_hash a) = Inr True)" by code_simp
  note f = login_authenticates [OF ok h(1,2) run h(3-5)]
  have st: "reply_status r = 200" using f acc by (auto split: option.splits)
  have "\<exists>st lr. r = Json st lr" using st run
    by (auto simp: auth_login_def text_reply_def text_response_def error_reply_def
        split: option.splits if_split_asm sum.splits bool.splits prod.splits)
  then obtain s lr where r: "r = Json s lr" by blast
  then obtain a where "account_id a = lr_account_id lr" "get_account_by_username (trim '' ab'') login_db = Some a"
    "auth_account ascii_lib [(''cookie'', ''mys3_session=78'')] 604810 d1 = (Inr a, d1)"
    using f by fastforce
  then show ?thesis using acc st by (simp add: run r)
qed

text \<open>The first account can be made exactly once: while there is an account the bootstrap changes nothing and is
answered 409, and otherwise (when the password hash works) it makes one account, which holds the owner role and
owns every bucket.\<close>

theorem bootstrap_once:
  assumes ok: "db_ok d" and hash: "argon salt (random_hex r32) = Inr h"
    and run: "auth_bootstrap argon salt r16 r32 bytes dname now d = (r, d1)"
  shows "if account_count d \<noteq> 0 then reply_status r = 409 \<and> d1 = d
    else account_count d1 = 1 \<and> (case r of
        Json st lr \<Rightarrow> st = 201 \<and> account_is_owner (lr_account_id lr) d1
          \<and> list_all (\<lambda>b. owner_account_id b = Some (lr_account_id lr)) (buckets d1)
      | _ \<Rightarrow> False)"
proof (cases "account_count d = 0")
  case False
  then show ?thesis using run by (auto simp: auth_bootstrap_def text_reply_def text_response_def)
next
  case True
  have acc: "accounts d = []" using True by (simp add: account_count_def count_where_def)
  have parts: "rbac_refs_ok d" "seed_ok d" "keys_ok d" using ok by (simp_all add: db_ok_def)
  have none: "account_roles d = []" "sessions d = []" "\<forall>b \<in> set (buckets d). owner_account_id b = None"
    using parts(1) acc
    by (cases "account_roles d"; cases "sessions d"; auto simp: rbac_refs_ok_def fk_def fk_opt_def split: option.splits)+
  obtain ow where ow: "get_owner_role d = Some ow" "ow \<in> set (roles d)" "is_owner ow"
  proof -
    obtain x where "x \<in> set (sort_key role_id (roles d))" "is_owner x" using parts(2) by (auto simp: seed_ok_def)
    then obtain y where y: "select_one is_owner (sort_key role_id (roles d)) = Some y" using select_one_ex by metis
    from select_one_Some [OF y] have "y \<in> set (roles d)" "is_owner y" by simp_all
    with y show ?thesis by (intro that) (simp_all add: get_owner_role_def)
  qed
  have role: "get_role (role_id ow) d = Some ow"
    using parts(3) ow(2) unfolding get_role_def keys_ok_def keyed_ok_def by (blast intro: role_tbl.row_of_mem)
  define i where "i = next_account_id d"
  define a where "a = \<lparr>account_id = i, username_hex = random_hex r16, password_hash = h,
      display_name = unwrap_or dname ''Owner'', is_disabled = False, account_created_utc = now,
      account_updated_utc = now, created_by_account_id = None\<rparr>"
  define d2 where "d2 = accounts_update (\<lambda>rows. rows @ [a]) (next_account_id_update (\<lambda>n. n + 1) d)"
  have mk: "create_account argon salt (random_hex r16) (random_hex r32) (unwrap_or dname ''Owner'') None now d = (Inr a, d2)"
    using hash acc by (simp add: create_account_def hash_password_def Let_def i_def a_def d2_def get_account_by_id_def
        row_by_def select_one_def)
  define d3 where "d3 = account_roles_update (\<lambda>rows. rows @ [(i, role_id ow)]) d2"
  have as: "assign_role i (role_id ow) d2 = (Inr (), d3)"
    using none(1) ow(2) by (auto simp: assign_role_def insert_account_role_def d2_def d3_def a_def)
  define d4 where "d4 = buckets_update (update_where (\<lambda>b. owner_account_id b = None) (\<lambda>b. b\<lparr>owner_account_id := Some i\<rparr>)) d3"
  have cl: "\<exists>m. claim_unowned_buckets i d3 = (Inr m, d4)"
    by (auto simp: claim_unowned_buckets_def Let_def d4_def d3_def d2_def a_def)
  have ses: "\<exists>tok e d5. create_session bytes i SESSION_DAYS now d4 = (Inr (tok, e), d5) \<and> accounts d5 = accounts d4
      \<and> account_roles d5 = account_roles d4 \<and> roles d5 = roles d4 \<and> buckets d5 = buckets d4"
    using none(2) by (auto simp: create_session_def Let_def d4_def d3_def d2_def a_def)
  obtain m where cl: "claim_unowned_buckets i d3 = (Inr m, d4)" using cl by blast
  obtain tok e d5 where ses: "create_session bytes i SESSION_DAYS now d4 = (Inr (tok, e), d5)"
    and d5: "accounts d5 = accounts d4" "account_roles d5 = account_roles d4" "roles d5 = roles d4" "buckets d5 = buckets d4"
    using ses by blast
  have ow2: "get_owner_role d2 = Some ow" using ow(1) by (simp add: get_owner_role_def d2_def)
  have res: "r = Json 201 \<lparr>lr_set_cookie = session_cookie tok e now, lr_account_id = i,
      lr_credentials = Some (random_hex r16, random_hex r32), lr_session_token = tok\<rparr>" "d1 = d5"
    using run True mk ow2 as cl ses by (simp_all add: auth_bootstrap_def generate_credentials_def a_def)
  have "account_is_owner i d5"
    using role ow(3) d5 by (auto simp: account_is_owner_def count_where_pos d4_def d3_def d2_def get_role_def)
  moreover have "list_all (\<lambda>b. owner_account_id b = Some i) (buckets d5)"
    using none(3) by (auto simp: d5 d4_def d3_def d2_def update_where_def list_all_iff)
  moreover have "account_count d5 = 1" by (simp add: account_count_def count_where_def d5 d4_def d3_def d2_def acc)
  ultimately show ?thesis using True by (simp add: res)
qed

theorem bootstrap_once_witness:
  "let (r, d1) = auth_bootstrap (\<lambda>s p. Inr p) ''s'' ''u'' ''p'' ''t'' None 5 (initial_db 0) in
   account_count d1 = 1 \<and> (case r of Json st lr \<Rightarrow> account_is_owner (lr_account_id lr) d1 | _ \<Rightarrow> False)"
proof -
  obtain r d1 where run: "auth_bootstrap (\<lambda>s p. Inr p) ''s'' ''u'' ''p'' ''t'' None 5 (initial_db 0) = (r, d1)" by force
  have c: "account_count (initial_db 0) = 0" by code_simp
  show ?thesis using bootstrap_once [OF initial_db_ok refl run] c by (auto simp: run split: reply.splits)
qed

text \<open>Nothing keeps the last owner: an only owner that sets its own roles to none is obeyed, after which no
account is an owner and the bootstrap is refused for ever, there being accounts.\<close>

theorem last_owner_can_leave:
  assumes "account_is_owner (account_id a) d" "get_account_by_id (account_id a) d \<noteq> None"
    and "\<forall>x. account_is_owner x d \<longrightarrow> x = account_id a"
    and run: "set_roles_route a (account_id a) [] d = (r, d1)"
  shows "reply_status r = 204 \<and> (\<forall>x. \<not> account_is_owner x d1)
    \<and> auth_bootstrap argon salt r16 r32 bytes dname now d1 = (text_reply 409 ''bootstrap already completed'', d1)"
proof -
  have d1: "d1 = account_roles_update (delete_where (\<lambda>(x, r). x = account_id a)) d" "r = status_reply 204"
    using run assms(1,2) by (auto simp: set_roles_route_def owner_only_def require_owner_def set_account_roles_def)
  have "\<not> account_is_owner x d1" for x
  proof
    assume o1: "account_is_owner x d1"
    then have "x \<noteq> account_id a" by (auto simp: account_is_owner_def count_where_pos d1 delete_where_def)
    moreover have "account_is_owner x d"
      using o1 by (auto simp: account_is_owner_def count_where_pos d1 delete_where_def get_role_def)
    ultimately show False using assms(3) by blast
  qed
  moreover have "accounts d \<noteq> []" using assms(2) by (auto simp: get_account_by_id_def row_by_def select_one_def)
  ultimately show ?thesis
    by (simp add: d1 status_reply_def auth_bootstrap_def account_count_def count_where_def)
qed


theorem last_owner_can_leave_witness:
  "let d = login_db\<lparr>account_roles := [(4, 1)]\<rparr>; (r, d1) = set_roles_route (hd (accounts login_db)) 4 [] d in
   reply_status r = 204 \<and> \<not> account_is_owner 4 d1"
proof -
  let ?d = "login_db\<lparr>account_roles := [(4, 1)]\<rparr>" and ?a = "hd (accounts login_db)"
  obtain r d1 where run: "set_roles_route ?a 4 [] ?d = (r, d1)" by force
  have i: "account_id ?a = 4" by code_simp
  have h: "account_is_owner (account_id ?a) ?d" "get_account_by_id (account_id ?a) ?d \<noteq> None" by code_simp+
  have only: "\<forall>x. account_is_owner x ?d \<longrightarrow> x = account_id ?a"
    by (auto simp: account_is_owner_def count_where_pos i)
  have run2: "set_roles_route ?a (account_id ?a) [] ?d = (r, d1)" using run i by simp
  from last_owner_can_leave [OF h only run2] show ?thesis by (simp add: run)
qed

end
