(* ===== verification/Relocate.thy ===== *)
theory Relocate
  imports Config "HOL-Library.AList"
begin

text \<open>
  Moving the storage root: \<open>src/storage/relocate.rs\<close>, on a disk with directories. There are no symbolic links and
  no errors of the device; what a rename answers is the parameter \<open>rename_error\<close>. Then: everything arrives.
\<close>

section \<open>Directories\<close>

text \<open>A disk by the absolute paths of its files and directories.\<close>

datatype entry = FileE string | DirE

type_synonym disk = "(path \<times> entry) list"

definition entry_at :: "path \<Rightarrow> disk \<Rightarrow> entry option" where
  "entry_at p t = map_of t p"

definition set_entry :: "path \<Rightarrow> entry \<Rightarrow> disk \<Rightarrow> disk" where
  "set_entry p e t = AList.update p e t"

definition child_name :: "path \<Rightarrow> path \<Rightarrow> string option" where
  "child_name p q = (if q \<noteq> [] \<and> butlast q = p then (case last q of Normal n \<Rightarrow> Some n | _ \<Rightarrow> None) else None)"

text \<open>\<open>read_dir\<close>\<close>

definition dir_names :: "path \<Rightarrow> disk \<Rightarrow> string list" where
  "dir_names p t = remdups (List.map_filter (\<lambda>(q, e). child_name p q) t)"

text \<open>\<open>create_dir_all\<close>: the missing ancestors first.\<close>

fun make_dirs :: "path \<Rightarrow> path \<Rightarrow> disk \<Rightarrow> string + disk" where
  "make_dirs made [] t = Inr t"
| "make_dirs made (c # cs) t =
     (let p = made @ [c] in
      case entry_at p t of
        Some DirE \<Rightarrow> make_dirs p cs t
      | Some (FileE _) \<Rightarrow> Inl (''create '' @ path_display p)
      | None \<Rightarrow> make_dirs p cs (set_entry p DirE t))"

definition create_dir_all :: "path \<Rightarrow> disk \<Rightarrow> string + disk" where
  "create_dir_all p t = make_dirs [] p t"

definition within :: "path \<Rightarrow> path \<Rightarrow> bool" where
  "within p q \<longleftrightarrow> take (length p) q = p"

definition remove_dir_all :: "path \<Rightarrow> disk \<Rightarrow> disk" where
  "remove_dir_all p t = filter (\<lambda>(q, e). \<not> within p q) t"

text \<open>A rename that succeeds moves everything under the directory.\<close>

definition rename_dir :: "path \<Rightarrow> path \<Rightarrow> disk \<Rightarrow> disk" where
  "rename_dir src dest t = map (\<lambda>(q, e). (if within src q then dest @ drop (length src) q else q, e)) t"

definition file_copy :: "path \<Rightarrow> path \<Rightarrow> disk \<Rightarrow> string + disk" where
  "file_copy from to t =
     (case (entry_at from t, entry_at to t) of
        (Some (FileE bs), Some DirE) \<Rightarrow> Inl (''copy file '' @ path_display from)
      | (Some (FileE bs), _) \<Rightarrow> Inr (set_entry to (FileE bs) t)
      | _ \<Rightarrow> Inl (''copy file '' @ path_display from))"

section \<open>Moving the storage root\<close>

definition dir_nonempty :: "path \<Rightarrow> disk \<Rightarrow> string + bool" where
  "dir_nonempty p t =
     (case entry_at p t of
        None \<Rightarrow> Inr False
      | Some (FileE _) \<Rightarrow> Inl (path_display p @ '' exists and is not a directory'')
      | Some DirE \<Rightarrow> Inr (dir_names p t \<noteq> []))"

definition ensure_storage_layout :: "path \<Rightarrow> disk \<Rightarrow> string + disk" where
  "ensure_storage_layout root t = create_dir_all (root @ [Normal ''objects'']) t"

text \<open>Linux and macOS name a rename across devices 18, Windows 17.\<close>

definition is_exdev :: "int \<Rightarrow> bool" where
  "is_exdev code \<longleftrightarrow> code = 18 \<or> code = 17"

text \<open>
  The loop over the entries of a directory, with \<open>copy_dir_recursive\<close> at each directory. Copying a directory
  into itself does not end: that is \<open>None\<close>.
\<close>

partial_function (option) copy_entries ::
  "path \<Rightarrow> path \<Rightarrow> string list \<Rightarrow> disk \<Rightarrow> ((string + unit) \<times> disk) option" where
  "copy_entries src dest names t =
     (case names of
        [] \<Rightarrow> Some (Inr (), t)
      | n # ns \<Rightarrow>
          let from = src @ [Normal n]; to = dest @ [Normal n] in
          (case entry_at from t of
             None \<Rightarrow> Some (Inl (''read '' @ path_display src), t)
           | Some DirE \<Rightarrow>
               (case create_dir_all to t of
                  Inl e \<Rightarrow> Some (Inl e, t)
                | Inr t1 \<Rightarrow> Option.bind (copy_entries from to (dir_names from t1) t1) (\<lambda>r.
                    case r of (Inl e, t2) \<Rightarrow> Some (Inl e, t2) | (Inr _, t2) \<Rightarrow> copy_entries src dest ns t2))
           | Some (FileE bs) \<Rightarrow>
               (case file_copy from to t of
                  Inl e \<Rightarrow> Some (Inl e, t)
                | Inr t1 \<Rightarrow> copy_entries src dest ns t1)))"

definition copy_dir_recursive :: "path \<Rightarrow> path \<Rightarrow> disk \<Rightarrow> ((string + unit) \<times> disk) option" where
  "copy_dir_recursive src dest t =
     (case create_dir_all dest t of
        Inl e \<Rightarrow> Some (Inl e, t)
      | Inr t1 \<Rightarrow> copy_entries src dest (dir_names src t1) t1)"

text \<open>
  The operating system's answer to the rename is the parameter \<open>rename_error\<close>: the number of its error, or
  \<open>None\<close> when it renames.
\<close>

definition move_dir ::
  "(path \<Rightarrow> path \<Rightarrow> int option) \<Rightarrow> path \<Rightarrow> path \<Rightarrow> disk \<Rightarrow> ((string + unit) \<times> disk) option" where
  "move_dir rename_error src dest t =
     (case rename_error src dest of
        None \<Rightarrow>
          let t1 = rename_dir src dest t in
          (case ensure_storage_layout dest t1 of Inl e \<Rightarrow> Some (Inl e, t1) | Inr t2 \<Rightarrow> Some (Inr (), t2))
      | Some code \<Rightarrow>
          if \<not> is_exdev code then Some (Inl (''rename '' @ path_display src @ '' -> '' @ path_display dest), t)
          else Option.bind (copy_dir_recursive src dest t) (\<lambda>r.
            case r of
              (Inl e, t1) \<Rightarrow> Some (Inl (''copy '' @ path_display src @ '' -> '' @ path_display dest), t1)
            | (Inr _, t1) \<Rightarrow>
                (case ensure_storage_layout dest t1 of
                   Inl e \<Rightarrow> Some (Inl e, t1)
                 | Inr t2 \<Rightarrow> Some (Inr (), remove_dir_all src t2))))"

definition relocate_storage_root ::
  "(path \<Rightarrow> path \<Rightarrow> int option) \<Rightarrow> path \<Rightarrow> path \<Rightarrow> disk \<Rightarrow> ((string + unit) \<times> disk) option" where
  "relocate_storage_root rename_error src dest t =
     (if src = dest then Some (Inr (), t)
      else if entry_at src t = None
      then Some (Inl (''current storage root '' @ path_display src @ '' does not exist''), t)
      else
        (case (if entry_at dest t = None then Inr t
               else (case dir_nonempty dest t of
                       Inl e \<Rightarrow> Inl e
                     | Inr True \<Rightarrow> Inl (''destination '' @ path_display dest @ '' already exists and is not empty'')
                     | Inr False \<Rightarrow> Inr (filter (\<lambda>(q, e). q \<noteq> dest) t))) of
           Inl e \<Rightarrow> Some (Inl e, t)
         | Inr t1 \<Rightarrow>
             (case (if length dest \<le> 1 then Inr t1 else create_dir_all (butlast dest) t1) of
                Inl e \<Rightarrow> Some (Inl e, t1)
              | Inr t2 \<Rightarrow> move_dir rename_error src dest t2)))"

text \<open>The path to show for the current root.\<close>

definition absolute_display :: "path option \<Rightarrow> path \<Rightarrow> path" where
  "absolute_display cwd p =
     (if is_absolute p then p else (case cwd of Some dir \<Rightarrow> comps_join dir p | None \<Rightarrow> p))"

section \<open>Facts about disks\<close>

lemma entry_at_set [simp]: "entry_at q (set_entry p e t) = (if q = p then Some e else entry_at q t)"
  by (simp add: entry_at_def set_entry_def update_conv')

lemma child_name_Some: "child_name p q = Some n \<longleftrightarrow> q = p @ [Normal n]"
  by (cases q rule: rev_cases) (auto simp: child_name_def split: path_comp.splits)

lemma set_dir_names: "n \<in> set (dir_names p t) \<longleftrightarrow> entry_at (p @ [Normal n]) t \<noteq> None"
proof -
  have "n \<in> set (dir_names p t) \<longleftrightarrow> (\<exists>(q, e) \<in> set t. child_name p q = Some n)"
    unfolding dir_names_def set_remdups mem_map_filter by (rule bex_cong) auto
  also have "\<dots> \<longleftrightarrow> p @ [Normal n] \<in> fst ` set t" by (force simp: child_name_Some)
  finally show ?thesis by (simp add: entry_at_def map_of_eq_None_iff)
qed

lemma distinct_dir_names [simp]: "distinct (dir_names p t)"
  by (simp add: dir_names_def)

lemma within_iff: "within p q \<longleftrightarrow> (\<exists>r. q = p @ r)"
  by (metis append_eq_conv_conj append_take_drop_id within_def)

text \<open>The ancestors of a path, itself included, are directories.\<close>

definition dirs_to :: "path \<Rightarrow> disk \<Rightarrow> bool" where
  "dirs_to p t \<longleftrightarrow> (\<forall>q. q \<noteq> [] \<and> within q p \<longrightarrow> entry_at q t = Some DirE)"

lemma make_dirs_spec:
  assumes "\<forall>q r. cs = q @ r \<and> q \<noteq> [] \<longrightarrow> (\<forall>bs. entry_at (made @ q) t \<noteq> Some (FileE bs))"
  shows "\<exists>t'. make_dirs made cs t = Inr t' \<and>
    (\<forall>p. entry_at p t' = (if entry_at p t = None \<and> (\<exists>q r. cs = q @ r \<and> q \<noteq> [] \<and> p = made @ q) then Some DirE else entry_at p t))"
  using assms
proof (induction cs arbitrary: made t)
  case (Cons c cs)
  let ?p = "made @ [c]"
  define t1 where "t1 = (if entry_at ?p t = None then set_entry ?p DirE t else t)"
  have nf: "entry_at ?p t \<noteq> Some (FileE bs)" for bs using Cons.prems by (metis append_Cons append_Nil list.distinct(1))
  have run: "make_dirs made (c # cs) t = make_dirs ?p cs t1"
    using nf by (cases "entry_at ?p t") (auto simp: t1_def Let_def split: entry.split)
  have "\<forall>q r. cs = q @ r \<and> q \<noteq> [] \<longrightarrow> (\<forall>bs. entry_at (?p @ q) t1 \<noteq> Some (FileE bs))"
  proof (intro allI impI)
    fix q r bs assume qr: "cs = q @ r \<and> q \<noteq> []"
    then have "c # cs = (c # q) @ r" by simp
    then have "entry_at (made @ c # q) t \<noteq> Some (FileE bs)" using Cons.prems by blast
    then show "entry_at (?p @ q) t1 \<noteq> Some (FileE bs)" by (simp add: t1_def)
  qed
  from Cons.IH [OF this] obtain t' where t': "make_dirs ?p cs t1 = Inr t'"
    "\<And>p. entry_at p t' = (if entry_at p t1 = None \<and> (\<exists>q r. cs = q @ r \<and> q \<noteq> [] \<and> p = ?p @ q) then Some DirE else entry_at p t1)"
    by blast
  have eq: "(\<exists>q r. c # cs = q @ r \<and> q \<noteq> [] \<and> p = made @ q) \<longleftrightarrow> p = ?p \<or> (\<exists>q r. cs = q @ r \<and> q \<noteq> [] \<and> p = ?p @ q)" for p
  proof
    assume "\<exists>q r. c # cs = q @ r \<and> q \<noteq> [] \<and> p = made @ q"
    then obtain q r where q: "c # cs = q @ r" "q \<noteq> []" "p = made @ q" by blast
    then obtain q' where "q = c # q'" "cs = q' @ r" by (cases q) auto
    then show "p = ?p \<or> (\<exists>q r. cs = q @ r \<and> q \<noteq> [] \<and> p = ?p @ q)" using q(3) by (cases "q' = []") auto
  next
    assume "p = ?p \<or> (\<exists>q r. cs = q @ r \<and> q \<noteq> [] \<and> p = ?p @ q)"
    then show "\<exists>q r. c # cs = q @ r \<and> q \<noteq> [] \<and> p = made @ q"
    proof
      assume "p = ?p"
      then show ?thesis by (intro exI [of _ "[c]"] exI [of _ cs]) simp
    next
      assume "\<exists>q r. cs = q @ r \<and> q \<noteq> [] \<and> p = ?p @ q"
      then obtain q r where "cs = q @ r" "p = ?p @ q" by blast
      then show ?thesis by (intro exI [of _ "c # q"] exI [of _ r]) simp
    qed
  qed
  define E where "E p \<longleftrightarrow> (\<exists>q r. cs = q @ r \<and> q \<noteq> [] \<and> p = ?p @ q)" for p
  have "entry_at p t' = (if entry_at p t = None \<and> (p = ?p \<or> E p) then Some DirE else entry_at p t)" for p
    unfolding t'(2) E_def [symmetric] by (simp add: t1_def)
  then show ?case unfolding eq E_def using run t'(1) by auto
qed simp

lemma create_dir_all_spec:
  assumes "\<forall>q. within q p \<and> q \<noteq> [] \<longrightarrow> (\<forall>bs. entry_at q t \<noteq> Some (FileE bs))"
  shows "\<exists>t'. create_dir_all p t = Inr t' \<and>
    (\<forall>q. entry_at q t' = (if entry_at q t = None \<and> within q p \<and> q \<noteq> [] then Some DirE else entry_at q t))"
  using make_dirs_spec [of p "[]" t] assms unfolding create_dir_all_def within_iff
  by (metis append_Nil)

section \<open>Copying a directory\<close>

text \<open>Below a directory every entry has a directory above it and a plain name.\<close>

definition disk_tree :: "path \<Rightarrow> disk \<Rightarrow> bool" where
  "disk_tree p t \<longleftrightarrow> (\<forall>q c. entry_at (p @ q @ [c]) t \<noteq> None \<longrightarrow> entry_at (p @ q) t = Some DirE \<and> (\<exists>n. c = Normal n))"

lemma disk_treeD: "disk_tree p t \<Longrightarrow> entry_at (p @ q @ [c]) t \<noteq> None \<Longrightarrow> entry_at (p @ q) t = Some DirE \<and> (\<exists>n. c = Normal n)"
  unfolding disk_tree_def by blast

lemma disk_tree_dir: "disk_tree p t \<Longrightarrow> r \<noteq> [] \<Longrightarrow> entry_at (p @ q @ r) t \<noteq> None \<Longrightarrow> entry_at (p @ q) t = Some DirE"
proof (induction r rule: rev_induct)
  case (snoc c r)
  have "entry_at (p @ (q @ r) @ [c]) t \<noteq> None" using snoc.prems by simp
  then have "entry_at (p @ q @ r) t = Some DirE" using disk_treeD snoc.prems(1) by (metis append.assoc)
  then show ?case using snoc by (cases "r = []") auto
qed simp

lemma disk_tree_name: "disk_tree p t \<Longrightarrow> entry_at (p @ c # q) t \<noteq> None \<Longrightarrow> entry_at (p @ [c]) t \<noteq> None \<and> (\<exists>n. c = Normal n)"
proof -
  assume a: "disk_tree p t" "entry_at (p @ c # q) t \<noteq> None"
  have e: "entry_at (p @ [c]) t \<noteq> None"
    using disk_tree_dir [OF a(1), of q "[c]"] a(2) by (cases "q = []") auto
  then show ?thesis using disk_treeD [OF a(1), of "[]" c] by simp
qed

lemma disk_tree_sub: "disk_tree p t \<Longrightarrow> disk_tree (p @ q) t"
  unfolding disk_tree_def by (metis append.assoc)

lemma disk_tree_cong: "\<forall>q. entry_at (p @ q) t' = entry_at (p @ q) t \<Longrightarrow> disk_tree p t' = disk_tree p t"
  unfolding disk_tree_def by simp

definition below :: "path \<Rightarrow> string list \<Rightarrow> disk \<Rightarrow> path set" where
  "below src ns t = {p. entry_at p t \<noteq> None \<and> (\<exists>n \<in> set ns. within (src @ [Normal n]) p)}"

lemma finite_below: "finite (below src ns t)"
  by (rule finite_subset [OF _ finite_dom_map_of [of t]]) (auto simp: below_def entry_at_def dom_def)

definition apart :: "path \<Rightarrow> path \<Rightarrow> bool" where
  "apart p q \<longleftrightarrow> \<not> within p q \<and> \<not> within q p"

lemma apart_extend: "apart p q \<Longrightarrow> p @ r \<noteq> q @ s"
  unfolding apart_def within_iff by (metis append_eq_append_conv2)

lemma apart_sub: "apart p q \<Longrightarrow> apart (p @ r) (q @ s)"
  unfolding apart_def within_iff by (metis append.assoc append_eq_append_conv2)

lemma below_less:
  assumes "p \<in> below src ns t" "p \<notin> below src' ns' t'" "below src' ns' t' \<subseteq> below src ns t"
  shows "card (below src' ns' t') < card (below src ns t)"
  using assms finite_below by (intro psubset_card_mono) blast+

text \<open>
  The names \<open>ns\<close> of \<open>src\<close> can be copied to \<open>dest\<close>; and they have been, by a step from \<open>t\<close> to \<open>t'\<close> that changed nothing
  else.
\<close>

definition copyable :: "path \<Rightarrow> path \<Rightarrow> string list \<Rightarrow> disk \<Rightarrow> bool" where
  "copyable src dest ns t \<longleftrightarrow> apart src dest \<and> dirs_to dest t \<and> disk_tree src t \<and> distinct ns
     \<and> (\<forall>n \<in> set ns. entry_at (src @ [Normal n]) t \<noteq> None)
     \<and> (\<forall>n \<in> set ns. \<forall>q. entry_at (dest @ Normal n # q) t = None)"

definition copied :: "path \<Rightarrow> path \<Rightarrow> string list \<Rightarrow> disk \<Rightarrow> disk \<Rightarrow> bool" where
  "copied src dest ns t t' \<longleftrightarrow> (\<forall>p. (\<forall>n \<in> set ns. \<forall>q. p \<noteq> dest @ Normal n # q) \<longrightarrow> entry_at p t' = entry_at p t)
     \<and> (\<forall>n \<in> set ns. \<forall>q. entry_at (dest @ Normal n # q) t' = entry_at (src @ Normal n # q) t)"

lemma copied_Nil: "copied src dest [] t t"
  by (simp add: copied_def)

lemma copied_src: "copied src dest ns t t' \<Longrightarrow> apart src dest \<Longrightarrow> entry_at (src @ q) t' = entry_at (src @ q) t"
  using apart_extend [of src dest q] by (simp add: copied_def)

lemma copied_Cons:
  assumes "apart src dest" "n \<notin> set ms" "copied src dest [n] t t1" "copied src dest ms t1 t2"
  shows "copied src dest (n # ms) t t2"
proof -
  have other: "dest @ Normal n # q \<noteq> dest @ Normal m # r" if "m \<in> set ms" for m q r
    using that assms(2) by auto
  have "entry_at (dest @ Normal n # q) t2 = entry_at (src @ Normal n # q) t" for q
  proof -
    have "entry_at (dest @ Normal n # q) t2 = entry_at (dest @ Normal n # q) t1"
      using assms(4) other unfolding copied_def by blast
    then show ?thesis using assms(3) by (simp add: copied_def)
  qed
  moreover have "entry_at (dest @ Normal m # q) t2 = entry_at (src @ Normal m # q) t" if "m \<in> set ms" for m q
    using that assms(4) copied_src [OF assms(3,1)] by (simp add: copied_def)
  ultimately show ?thesis using assms(3,4) by (simp add: copied_def)
qed

text \<open>After one name the others can still be copied, and fewer entries are left.\<close>

lemma copyable_rest:
  assumes "copyable src dest (n # ms) t" "copied src dest [n] t t1"
  shows "copyable src dest ms t1" "card (below src ms t1) < card (below src (n # ms) t)"
proof -
  have ap: "apart src dest" and ms: "distinct ms" "n \<notin> set ms" using assms(1) by (simp_all add: copyable_def)
  have src: "entry_at (src @ q) t1 = entry_at (src @ q) t" for q using copied_src [OF assms(2) ap] .
  have out: "entry_at p t1 = entry_at p t" if "\<And>q. p \<noteq> dest @ Normal n # q" for p
    using that assms(2) by (simp add: copied_def)
  have "dirs_to dest t1"
  proof -
    have "q \<noteq> dest @ Normal n # r" if "within q dest" for q r using that by (auto simp: within_iff append_eq_append_conv2)
    then show ?thesis using assms(1) out unfolding dirs_to_def copyable_def by simp
  qed
  moreover have "disk_tree src t1" using assms(1) disk_tree_cong src unfolding copyable_def by blast
  moreover have "entry_at (dest @ Normal m # q) t1 = None" if m: "m \<in> set ms" for m q
  proof -
    have "dest @ Normal m # q \<noteq> dest @ Normal n # r" for r using m ms(2) by auto
    then show ?thesis using out assms(1) m by (simp add: copyable_def)
  qed
  ultimately show "copyable src dest ms t1" using assms(1) ms src by (simp add: copyable_def)
  have "below src ms t1 \<subseteq> below src (n # ms) t" using src by (auto simp: below_def within_iff)
  moreover have "src @ [Normal n] \<notin> below src ms t1" using ms(2) by (auto simp: below_def within_iff)
  moreover have "src @ [Normal n] \<in> below src (n # ms) t" using assms(1) by (auto simp: below_def within_iff copyable_def)
  ultimately show "card (below src ms t1) < card (below src (n # ms) t)" by (intro below_less)
qed

text \<open>A file of the source is a leaf of the tree.\<close>

lemma copy_file_one:
  assumes "copyable src dest (n # ms) t" "entry_at (src @ [Normal n]) t = Some (FileE bs)"
  shows "copied src dest [n] t (set_entry (dest @ [Normal n]) (FileE bs) t)"
proof -
  have "entry_at (src @ Normal n # q) t = None" if "q \<noteq> []" for q
    using disk_tree_dir [of src t q "[Normal n]"] that assms by (force simp: copyable_def)
  then show ?thesis using assms by (auto simp: copied_def copyable_def Cons_eq_append_conv)
qed

text \<open>When the target is a new directory and all that the source holds has been copied, the whole tree is there.\<close>

lemma copied_tree:
  assumes tree: "disk_tree src t" "entry_at src t = Some DirE" and ap: "apart src dest"
    and t1: "\<And>q. entry_at q t1 = (if q = dest then Some DirE else entry_at q t)"
    and fresh: "\<And>q. entry_at (dest @ q) t = None" and all: "copied src dest (dir_names src t1) t1 t2"
  shows "entry_at (dest @ q) t2 = entry_at (src @ q) t" "\<not> within dest p \<Longrightarrow> entry_at p t2 = entry_at p t"
proof -
  have same: "entry_at (src @ q) t1 = entry_at (src @ q) t" for q using t1 apart_extend [OF ap, of q "[]"] by simp
  show "entry_at (dest @ q) t2 = entry_at (src @ q) t"
  proof (cases "\<exists>n r. q = Normal n # r \<and> n \<in> set (dir_names src t1)")
    case True
    then show ?thesis using all same by (auto simp: copied_def)
  next
    case False
    have "entry_at (src @ c # r) t = None" if "q = c # r" for c r
      using False that disk_tree_name [OF tree(1), of c r] set_dir_names same by (metis (no_types))
    moreover have "\<forall>n \<in> set (dir_names src t1). \<forall>r. dest @ q \<noteq> dest @ Normal n # r" using False by auto
    then have "entry_at (dest @ q) t2 = entry_at (dest @ q) t1" using all unfolding copied_def by blast
    ultimately show ?thesis using t1 fresh tree(2) by (cases q) simp_all
  qed
  show "entry_at p t2 = entry_at p t" if "\<not> within dest p"
    using that all t1 unfolding within_iff copied_def by (metis append_Nil2)
qed

lemma create_new_dir:
  assumes "\<forall>q. within q dest \<and> q \<noteq> [] \<and> q \<noteq> dest \<longrightarrow> entry_at q t = Some DirE" "entry_at dest t = None" "dest \<noteq> []"
  shows "\<exists>t1. create_dir_all dest t = Inr t1 \<and> (\<forall>q. entry_at q t1 = (if q = dest then Some DirE else entry_at q t))"
proof -
  have "\<forall>q. within q dest \<and> q \<noteq> [] \<longrightarrow> (\<forall>bs. entry_at q t \<noteq> Some (FileE bs))"
    using assms(1,2) by (metis entry.distinct(1) option.distinct(1) option.inject)
  from create_dir_all_spec [OF this] show ?thesis using assms by (metis append_Nil2 option.distinct(1) within_iff)
qed

lemma copy_dir_one:
  assumes "copyable src dest (n # ms) t" "entry_at (src @ [Normal n]) t = Some DirE"
  defines "fr \<equiv> src @ [Normal n]" and "to \<equiv> dest @ [Normal n]"
  obtains t1 where "create_dir_all to t = Inr t1" "copyable fr to (dir_names fr t1) t1"
    "card (below fr (dir_names fr t1) t1) < card (below src (n # ms) t)"
    "\<And>t2. copied fr to (dir_names fr t1) t1 t2 \<Longrightarrow> copied src dest [n] t t2"
proof -
  have ap: "apart src dest" and fresh: "entry_at (dest @ Normal n # q) t = None" for q
    using assms(1) by (simp_all add: copyable_def)
  have ap1: "apart fr to" unfolding fr_def to_def by (rule apart_sub [OF ap])
  have pre: "within q to \<longleftrightarrow> q = to \<or> within q dest" for q
    unfolding within_iff to_def by (metis append.right_neutral append_assoc butlast_append butlast_snoc)
  have dirs: "\<forall>q. within q dest \<and> q \<noteq> [] \<longrightarrow> entry_at q t = Some DirE" using assms(1) by (simp add: copyable_def dirs_to_def)
  have fresh_to: "entry_at (to @ q) t = None" for q using fresh by (simp add: to_def)
  obtain t1 where t1: "create_dir_all to t = Inr t1" "\<And>q. entry_at q t1 = (if q = to then Some DirE else entry_at q t)"
    using create_new_dir [of to t] dirs pre fresh_to [of "[]"] by (auto simp: to_def)
  let ?ks = "dir_names fr t1"
  have same: "entry_at (fr @ q) t1 = entry_at (fr @ q) t" for q using t1(2) apart_extend [OF ap1, of q "[]"] by simp
  have tree: "disk_tree fr t" unfolding fr_def using disk_tree_sub assms(1) by (auto simp: copyable_def)
  have cp: "copyable fr to ?ks t1"
    using ap1 dirs pre t1(2) disk_tree_cong [of fr t1 t] same tree set_dir_names [of _ fr t1] fresh_to
    by (simp add: copyable_def dirs_to_def)
  have "below fr ?ks t1 \<subseteq> below src (n # ms) t"
  proof
    fix p assume "p \<in> below fr ?ks t1"
    then obtain k r where "entry_at p t1 \<noteq> None" "p = fr @ Normal k # r" by (auto simp: below_def within_iff)
    then show "p \<in> below src (n # ms) t" using same [of "Normal k # r"] by (auto simp: below_def within_iff fr_def)
  qed
  moreover have "fr \<notin> below fr ?ks t1" by (auto simp: below_def within_iff)
  moreover have "fr \<in> below src (n # ms) t" using assms(2) by (auto simp: below_def within_iff fr_def)
  ultimately have less: "card (below fr ?ks t1) < card (below src (n # ms) t)" by (intro below_less)
  have "copied src dest [n] t t2" if "copied fr to ?ks t1 t2" for t2
    using copied_tree [OF tree _ ap1 t1(2) fresh_to that] assms(2)
    by (auto simp: copied_def fr_def to_def within_iff)
  then show thesis using that t1(1) cp less by blast
qed

lemma copy_entries_exact:
  "copyable src dest ns t \<Longrightarrow> \<exists>t'. copy_entries src dest ns t = Some (Inr (), t') \<and> copied src dest ns t t'"
proof (induction "card (below src ns t)" arbitrary: src dest ns t rule: less_induct)
  case less
  show ?case
  proof (cases ns)
    case Nil
    then show ?thesis by (subst copy_entries.simps) (simp add: copied_Nil)
  next
    case (Cons n ms)
    let ?from = "src @ [Normal n]" and ?to = "dest @ [Normal n]"
    have cp: "copyable src dest (n # ms) t" using less.prems Cons by simp
    then have ap: "apart src dest" and n: "n \<notin> set ms" by (simp_all add: copyable_def)
    have finish: ?thesis if "copy_entries src dest ns t = copy_entries src dest ms t1" "copied src dest [n] t t1" for t1
      using less.hyps [OF _ copyable_rest(1) [OF cp that(2)]] copyable_rest(2) [OF cp that(2)]
        copied_Cons [OF ap n that(2)] that(1) Cons by auto
    from cp consider (leaf) bs where "entry_at ?from t = Some (FileE bs)" | (tree) "entry_at ?from t = Some DirE"
      by (cases "entry_at ?from t"; cases "the (entry_at ?from t)") (auto simp: copyable_def)
    then show ?thesis
    proof cases
      case leaf
      have "file_copy ?from ?to t = Inr (set_entry ?to (FileE bs) t)"
        using leaf cp by (simp add: file_copy_def copyable_def)
      then have "copy_entries src dest ns t = copy_entries src dest ms (set_entry ?to (FileE bs) t)"
        using leaf Cons by (subst copy_entries.simps) (simp add: Let_def)
      from finish [OF this copy_file_one [OF cp leaf]] show ?thesis .
    next
      case tree
      obtain t1 where t1: "create_dir_all ?to t = Inr t1" "copyable ?from ?to (dir_names ?from t1) t1"
        "card (below ?from (dir_names ?from t1) t1) < card (below src ns t)"
        "\<And>t2. copied ?from ?to (dir_names ?from t1) t1 t2 \<Longrightarrow> copied src dest [n] t t2"
        using copy_dir_one [OF cp tree] Cons by blast
      obtain t2 where t2: "copy_entries ?from ?to (dir_names ?from t1) t1 = Some (Inr (), t2)"
        "copied ?from ?to (dir_names ?from t1) t1 t2" using less.hyps [OF t1(3,2)] by blast
      have "copy_entries src dest ns t = copy_entries src dest ms t2"
        using tree Cons t1(1) t2(1) by (subst copy_entries.simps) (simp add: Let_def)
      from finish [OF this t1(4) [OF t2(2)]] show ?thesis .
    qed
  qed
qed

section \<open>A storage root arrives whole\<close>

lemma entry_at_filter: "entry_at q (filter (\<lambda>(p, e). P p) t) = (if P q then entry_at q t else None)"
  unfolding entry_at_def by (induction t) auto

lemma map_of_rename:
  assumes "\<forall>k \<in> fst ` set t. f k = p \<longleftrightarrow> k = q"
  shows "map_of (map (\<lambda>(k, e). (f k, e)) t) p = map_of t q"
  using assms by (induction t) auto

lemma entry_at_rename:
  assumes "apart src dest" "\<forall>q. entry_at (dest @ q) t = None"
  shows "entry_at p (rename_dir src dest t) =
    (if within dest p then entry_at (src @ drop (length dest) p) t else if within src p then None else entry_at p t)"
proof -
  define f where "f q = (if within src q then dest @ drop (length src) q else q)" for q
  have run: "rename_dir src dest t = map (\<lambda>(k, e). (f k, e)) t" by (simp add: rename_dir_def f_def)
  have new: "\<not> within dest k" if "k \<in> fst ` set t" for k
    using that assms(2) unfolding within_iff entry_at_def map_of_eq_None_iff by blast
  show ?thesis
  proof (cases "within dest p")
    case True
    then obtain r where r: "p = dest @ r" unfolding within_iff by blast
    have "\<forall>k \<in> fst ` set t. f k = p \<longleftrightarrow> k = src @ r"
    proof
      fix k assume k: "k \<in> fst ` set t"
      show "f k = p \<longleftrightarrow> k = src @ r"
        using new [OF k] unfolding f_def r within_iff by (auto simp: within_iff)
    qed
    then show ?thesis unfolding run entry_at_def using map_of_rename True r by simp
  next
    case False
    show ?thesis
    proof (cases "within src p")
      case True
      have "f k \<noteq> p" for k using True False unfolding f_def by (metis within_iff)
      then have "p \<notin> fst ` set (map (\<lambda>(k, e). (f k, e)) t)" by force
      then have "map_of (map (\<lambda>(k, e). (f k, e)) t) p = None" by (simp only: map_of_eq_None_iff not_False_eq_True)
      then show ?thesis using True False by (simp add: run entry_at_def)
    next
      case out: False
      have "f k = p \<longleftrightarrow> k = p" for k using False out unfolding f_def by (auto simp: within_iff)
      then show ?thesis unfolding run entry_at_def using map_of_rename [of t f p p] False out by simp
    qed
  qed
qed

lemma create_dir_all_there: "dirs_to p t \<Longrightarrow> \<exists>t'. create_dir_all p t = Inr t' \<and> (\<forall>q. entry_at q t' = entry_at q t)"
  using create_dir_all_spec [of p t] unfolding dirs_to_def by fastforce

text \<open>\<open>arrived src dest t t'\<close>: the tree at \<open>src\<close> is at \<open>dest\<close>, and nothing else changed but the ancestors of \<open>dest\<close>.\<close>

definition arrived :: "path \<Rightarrow> path \<Rightarrow> disk \<Rightarrow> disk \<Rightarrow> bool" where
  "arrived src dest t t' \<longleftrightarrow> (\<forall>q. entry_at (dest @ q) t' = entry_at (src @ q) t) \<and> (\<forall>q. entry_at (src @ q) t' = None)
     \<and> (\<forall>p. \<not> within src p \<and> \<not> within dest p \<and> \<not> within p dest \<longrightarrow> entry_at p t' = entry_at p t)"

lemma copy_dir_exact:
  assumes ap: "apart src dest" and tree: "disk_tree src t" and src: "entry_at src t = Some DirE"
    and up: "\<forall>q. within q dest \<and> q \<noteq> [] \<and> q \<noteq> dest \<longrightarrow> entry_at q t = Some DirE"
    and fresh: "\<forall>q. entry_at (dest @ q) t = None"
  shows "\<exists>t'. copy_dir_recursive src dest t = Some (Inr (), t')
    \<and> (\<forall>q. entry_at (dest @ q) t' = entry_at (src @ q) t) \<and> (\<forall>p. \<not> within dest p \<longrightarrow> entry_at p t' = entry_at p t)"
proof -
  have ne: "dest \<noteq> []" using ap by (auto simp: apart_def within_def)
  have new: "entry_at dest t = None" using fresh by (metis append_Nil2)
  obtain t1 where t1: "create_dir_all dest t = Inr t1"
    "\<And>q. entry_at q t1 = (if q = dest then Some DirE else entry_at q t)" using create_new_dir [OF up new ne] by blast
  have same: "entry_at (src @ q) t1 = entry_at (src @ q) t" for q
    using t1(2) apart_extend [OF ap, of q "[]"] by simp
  have "copyable src dest (dir_names src t1) t1"
    using ap up t1(2) disk_tree_cong [of src t1 t] same tree set_dir_names [of _ src t1] fresh
    by (simp add: copyable_def dirs_to_def)
  from copy_entries_exact [OF this] obtain t2 where t2: "copy_entries src dest (dir_names src t1) t1 = Some (Inr (), t2)"
    "copied src dest (dir_names src t1) t1 t2" by blast
  then show ?thesis using t1(1) copied_tree [OF tree src ap t1(2) _ t2(2)] fresh by (simp add: copy_dir_recursive_def)
qed

text \<open>Moving whole trees keeps the directory of the objects, so the layout is there without a further write.\<close>

lemma layout_there:
  assumes ap: "apart src dest" and src: "entry_at src t = Some DirE" and objs: "entry_at (src @ [Normal ''objects'']) t = Some DirE"
    and up: "\<forall>q. within q dest \<and> q \<noteq> [] \<and> q \<noteq> dest \<longrightarrow> entry_at q t = Some DirE"
    and dst: "\<forall>q. entry_at (dest @ q) t1 = entry_at (src @ q) t"
    and out: "\<forall>p. \<not> within dest p \<longrightarrow> \<not> within src p \<longrightarrow> entry_at p t1 = entry_at p t"
  shows "\<exists>t'. ensure_storage_layout dest t1 = Inr t' \<and> (\<forall>q. entry_at q t' = entry_at q t1)"
proof -
  have "entry_at q t1 = Some DirE" if "within q (dest @ [Normal ''objects''])" "q \<noteq> []" for q
  proof -
    from that(1) consider "q = dest @ [Normal ''objects'']" | "q = dest" | "within q dest" "q \<noteq> dest"
      unfolding within_iff by (metis append_Nil2 butlast_append butlast_snoc append.assoc)
    then show ?thesis
    proof cases
      case 3
      then have "\<not> within dest q" "\<not> within src q" using ap unfolding apart_def within_iff by auto
      then show ?thesis using 3 up \<open>q \<noteq> []\<close> out by simp
    qed (use dst src objs in \<open>metis append_Nil2\<close>)+
  qed
  then show ?thesis unfolding ensure_storage_layout_def by (intro create_dir_all_there) (simp add: dirs_to_def)
qed

lemma move_dir_arrives:
  assumes ap: "apart src dest" and tree: "disk_tree src t" and src: "entry_at src t = Some DirE"
    and up: "\<forall>q. within q dest \<and> q \<noteq> [] \<and> q \<noteq> dest \<longrightarrow> entry_at q t = Some DirE"
    and fresh: "\<forall>q. entry_at (dest @ q) t = None" and objs: "entry_at (src @ [Normal ''objects'']) t = Some DirE"
    and os: "case rename_error src dest of None \<Rightarrow> True | Some code \<Rightarrow> is_exdev code"
  shows "\<exists>t'. move_dir rename_error src dest t = Some (Inr (), t') \<and> arrived src dest t t'"
proof (cases "rename_error src dest")
  case None
  let ?t1 = "rename_dir src dest t"
  note at = entry_at_rename [OF ap fresh]
  have dst: "\<forall>q. entry_at (dest @ q) ?t1 = entry_at (src @ q) t" by (simp add: at within_iff)
  moreover have out: "\<forall>p. \<not> within dest p \<longrightarrow> \<not> within src p \<longrightarrow> entry_at p ?t1 = entry_at p t" by (simp add: at)
  ultimately obtain t2 where t2: "ensure_storage_layout dest ?t1 = Inr t2" "\<forall>q. entry_at q t2 = entry_at q ?t1"
    using layout_there [OF ap src objs up] by blast
  have "entry_at (src @ q) ?t1 = None" for q
    using ap apart_extend [OF ap] by (auto simp: at within_iff)
  then have "arrived src dest t t2" using t2(2) dst out by (simp add: arrived_def)
  then show ?thesis using None t2(1) by (simp add: move_dir_def Let_def)
next
  case (Some code)
  obtain t1 where t1: "copy_dir_recursive src dest t = Some (Inr (), t1)"
    "\<forall>q. entry_at (dest @ q) t1 = entry_at (src @ q) t" "\<forall>p. \<not> within dest p \<longrightarrow> entry_at p t1 = entry_at p t"
    using copy_dir_exact [OF ap tree src up fresh] by blast
  then obtain t2 where t2: "ensure_storage_layout dest t1 = Inr t2" "\<forall>q. entry_at q t2 = entry_at q t1"
    using layout_there [OF ap src objs up] by blast
  have at: "entry_at q (remove_dir_all src t2) = (if within src q then None else entry_at q t1)" for q
    using t2(2) by (simp add: remove_dir_all_def entry_at_filter)
  have "\<not> within src (dest @ q)" for q using apart_extend [OF ap] unfolding within_iff by metis
  then have "arrived src dest t (remove_dir_all src t2)"
    unfolding arrived_def at using t1 by (auto simp: within_iff)
  then show ?thesis using Some os t1(1) t2(1) by (simp add: move_dir_def)
qed

text \<open>The parents of the destination are made, and the destination, an empty directory at most, is gone.\<close>

lemma parent_ready:
  assumes abs: "dest = RootDir # b" "b \<noteq> []"
    and nofile: "\<forall>q bs. within q dest \<and> q \<noteq> [] \<longrightarrow> entry_at q t \<noteq> Some (FileE bs)"
    and t1: "\<And>q. entry_at q t1 = (if q = dest then None else entry_at q t)"
  obtains t2 where "create_dir_all (butlast dest) t1 = Inr t2" "entry_at dest t2 = None"
    "\<And>q. within q dest \<Longrightarrow> q \<noteq> [] \<Longrightarrow> q \<noteq> dest \<Longrightarrow> entry_at q t2 = Some DirE"
    "\<And>p. \<not> within p dest \<Longrightarrow> entry_at p t2 = entry_at p t"
proof -
  have split: "dest = butlast dest @ [last dest]" using abs by simp
  have parents: "within q (butlast dest) \<longleftrightarrow> within q dest \<and> q \<noteq> dest" for q
    using split unfolding within_iff by (metis append.assoc append_Nil2 append_self_conv butlast_append snoc_eq_iff_butlast)
  have "\<forall>q. within q (butlast dest) \<and> q \<noteq> [] \<longrightarrow> (\<forall>bs. entry_at q t1 \<noteq> Some (FileE bs))"
    using nofile t1 parents by simp
  from create_dir_all_spec [OF this] obtain t2 where t2: "create_dir_all (butlast dest) t1 = Inr t2"
    "\<And>q. entry_at q t2 = (if entry_at q t1 = None \<and> within q (butlast dest) \<and> q \<noteq> [] then Some DirE else entry_at q t1)"
    by blast
  have "entry_at q t2 = Some DirE" if "within q dest" "q \<noteq> []" "q \<noteq> dest" for q
    using t2(2) [of q] that t1 parents nofile by (metis entry.exhaust not_None_eq)
  moreover have "entry_at p t2 = entry_at p t" if "\<not> within p dest" for p
    using that t2(2) t1 parents by (auto simp: within_def)
  ultimately show thesis using that t2 t1 parents by simp
qed

lemma empty_dir_below:
  assumes "disk_tree p t" "entry_at p t \<noteq> None \<longrightarrow> entry_at p t = Some DirE \<and> dir_names p t = []"
  shows "entry_at (p @ c # q) t = None"
proof (rule ccontr)
  assume "entry_at (p @ c # q) t \<noteq> None"
  then obtain n where n: "entry_at (p @ [Normal n]) t \<noteq> None" using disk_tree_name [OF assms(1)] by blast
  then have "n \<in> set (dir_names p t)" by (simp add: set_dir_names)
  moreover have "entry_at p t \<noteq> None" using disk_treeD [OF assms(1), of "[]"] n by simp
  ultimately show False using assms(2) by simp
qed

text \<open>
  Moving ends, and gives the same disk whether the system renames or refuses because the new root is on another
  device, where the program copies and deletes.
\<close>

lemma relocate_arrives:
  assumes ap: "apart src dest" and abs: "is_absolute src" "is_absolute dest" and tree: "disk_tree [RootDir] t"
    and src: "entry_at src t = Some DirE" "entry_at (src @ [Normal ''objects'']) t = Some DirE"
    and free: "entry_at dest t \<noteq> None \<longrightarrow> entry_at dest t = Some DirE \<and> dir_names dest t = []"
    and nofile: "\<forall>q bs. within q dest \<and> q \<noteq> [] \<longrightarrow> entry_at q t \<noteq> Some (FileE bs)"
    and os: "case rename_error src dest of None \<Rightarrow> True | Some code \<Rightarrow> is_exdev code"
  shows "\<exists>t'. relocate_storage_root rename_error src dest t = Some (Inr (), t') \<and> arrived src dest t t'"
proof -
  obtain a b where ab: "src = RootDir # a" "dest = RootDir # b"
    using abs by (cases src; cases dest) (auto simp: is_absolute_def)
  have trees: "disk_tree src t" "disk_tree dest t" using disk_tree_sub [OF tree] ab by (metis append_Cons append_Nil)+
  have ne: "src \<noteq> dest" "b \<noteq> []" using ap ab by (auto simp: apart_def within_def)
  define t1 where "t1 = (if entry_at dest t = None then t else filter (\<lambda>(q, e). q \<noteq> dest) t)"
  have t1: "entry_at q t1 = (if q = dest then None else entry_at q t)" for q
    by (auto simp: t1_def entry_at_filter)
  obtain t2 where t2: "create_dir_all (butlast dest) t1 = Inr t2" "entry_at dest t2 = None"
    "\<And>q. within q dest \<Longrightarrow> q \<noteq> [] \<Longrightarrow> q \<noteq> dest \<Longrightarrow> entry_at q t2 = Some DirE"
    "\<And>p. \<not> within p dest \<Longrightarrow> entry_at p t2 = entry_at p t"
    using parent_ready [OF ab(2) ne(2) nofile t1] by blast
  have src2: "entry_at (src @ q) t2 = entry_at (src @ q) t" for q
    using t2(4) ap unfolding apart_def within_iff by simp
  have run: "relocate_storage_root rename_error src dest t = move_dir rename_error src dest t2"
  proof -
    have "(if entry_at dest t = None then Inr t
               else (case dir_nonempty dest t of
                       Inl e \<Rightarrow> Inl e
                     | Inr True \<Rightarrow> Inl (''destination '' @ path_display dest @ '' already exists and is not empty'')
                     | Inr False \<Rightarrow> Inr (filter (\<lambda>(q, e). q \<noteq> dest) t))) = Inr t1"
      using free by (auto simp: t1_def dir_nonempty_def)
    moreover have "\<not> length dest \<le> 1" using ne ab by simp
    ultimately show ?thesis unfolding relocate_storage_root_def using ne(1) src(1) t2(1) by simp
  qed
  have "entry_at (dest @ q) t2 = None" for q
    using t2(2) t2(4) [of "dest @ q"] empty_dir_below [OF trees(2) free] by (cases q) (simp_all add: within_iff)
  moreover have "disk_tree src t2" using trees(1) src2 disk_tree_cong by blast
  ultimately have "\<exists>t'. move_dir rename_error src dest t2 = Some (Inr (), t') \<and> arrived src dest t2 t'"
    by (intro move_dir_arrives) (use ap os src src2 [of "[]"] src2 t2(3) in simp_all)
  then obtain t' where t': "move_dir rename_error src dest t2 = Some (Inr (), t')" "arrived src dest t2 t'" by blast
  moreover from t'(2) have "arrived src dest t t'" using t2(4) src2 unfolding arrived_def by simp
  ultimately show ?thesis using run by auto
qed
end
