(* ===== verification/Bucket_Routes.thy ===== *)
theory Bucket_Routes
  imports Account_Routes Relocate
begin

text \<open>
  The routes of \<open>src/server/settings_routes.rs\<close> for the nodes, the quotas and the hash algorithm of a bucket; then
  the normal form of an endpoint, the rounding of an allocation, and who can redirect a peer.
\<close>

section \<open>Guards and statuses\<close>

definition require_replication_editor :: "int \<Rightarrow> int \<Rightarrow> db \<Rightarrow> response + unit" where
  "require_replication_editor account b d =
     (if can_edit_bucket_replication account b d then Inr ()
      else Inl (text_response 403 ''bucket owner or edit permission required''))"

definition editor_only :: "account_record \<Rightarrow> int \<Rightarrow> (db \<Rightarrow> 'r reply \<times> db) \<Rightarrow> db \<Rightarrow> 'r reply \<times> db" where
  "editor_only auth b handler d =
     (case require_replication_editor (account_id auth) b d of Inl r \<Rightarrow> (Raw r, d) | Inr _ \<Rightarrow> handler d)"

text \<open>The status of an error is looked up in its text: the first entry with a part that occurs in it.\<close>

fun status_by :: "(string list \<times> int) list \<Rightarrow> error \<Rightarrow> 'r reply" where
  "status_by [] e = error_reply e"
| "status_by ((parts, st) # rest) e =
     (if list_ex (err_has e) parts then text_reply st (err_msg e) else status_by rest e)"

section \<open>Replication targets\<close>

record peer_dir_item =
  pd_id :: string
  pd_endpoint :: string

definition peer_dir_item :: "cluster_peer \<Rightarrow> peer_dir_item" where
  "peer_dir_item p = \<lparr>pd_id = peer_id p, pd_endpoint = wireguard_endpoint p\<rparr>"

record bucket_replication_view =
  br_replicate_to_all :: bool
  br_peer_ids :: "string list"
  br_peers :: "peer_dir_item list"

definition get_bucket_replication_route :: "account_record \<Rightarrow> int \<Rightarrow> db \<Rightarrow> bucket_replication_view reply \<times> db" where
  "get_bucket_replication_route auth b = editor_only auth b (\<lambda>d.
     (case get_bucket_replication b d of
        Inl e \<Rightarrow> (status_by [([''not found''], 404)] e, d)
      | Inr (all, ids) \<Rightarrow> (Json 200 \<lparr>br_replicate_to_all = all, br_peer_ids = ids,
            br_peers = map peer_dir_item (list_active_peers d)\<rparr>, d)))"

definition put_bucket_replication_route ::
  "'a config \<Rightarrow> account_record \<Rightarrow> int \<Rightarrow> bool \<Rightarrow> string list \<Rightarrow> db \<Rightarrow> unit reply \<times> db" where
  "put_bucket_replication_route c auth b all ids = editor_only auth b (\<lambda>d.
     (case set_bucket_replication b all ids d of
        (Inr _, d1) \<Rightarrow>
          (status_reply 204, snd (ensure_bucket_node_assignment b (cfg_node_id c) DEFAULT_NODE_ALLOCATED_BYTES Soft d1))
      | (Inl e, d1) \<Rightarrow> (status_by [([''not found''], 404)] e, d1)))"

section \<open>Reading an endpoint and an allocation\<close>

text \<open>\<open>trim_matches\<close> of one character; \<open>one_per_char\<close> maps what is not alphanumeric to one dash a character.\<close>

definition trim_char :: "char \<Rightarrow> string \<Rightarrow> string" where
  "trim_char c s = trim_end_char c (trim_start_char c s)"

definition trim_brackets :: "string \<Rightarrow> string" where
  "trim_brackets s =
     (let bracket = (\<lambda>c. c = CHR ''['' \<or> c = CHR '']'') in rev (dropWhile bracket (rev (dropWhile bracket s))))"

definition dashed :: "string \<Rightarrow> string" where
  "dashed s = map (\<lambda>c. if is_ascii_alphanumeric c then c else CHR ''-'') (filter (\<lambda>c. \<not> is_cont c) s)"

definition strip_scheme :: "string \<Rightarrow> string" where
  "strip_scheme s = unwrap_or (or_else (strip_prefix s ''https://'')
     (or_else (strip_prefix s ''http://'') (strip_prefix s ''grpc://''))) s"

definition DEFAULT_PEER_PORT :: string where "DEFAULT_PEER_PORT = ''50051''"

definition host_and_port :: "string \<Rightarrow> string + string \<times> string" where
  "host_and_port hostport =
     (if starts_with hostport ''['' then
        (case find_str hostport '']'' of
           None \<Rightarrow> Inl ''invalid IPv6 endpoint''
         | Some i \<Rightarrow>
             let host = take (i + 1) hostport; rest = drop (i + 1) hostport in
             (case strip_prefix rest '':'' of
                Some p \<Rightarrow> if p = [] \<or> \<not> list_all is_ascii_digit p then Inl ''invalid peer port'' else Inr (host, p)
              | None \<Rightarrow> if rest = [] then Inr (host, DEFAULT_PEER_PORT) else Inl ''invalid IPv6 endpoint''))
      else (case rsplit_once (CHR '':'') hostport of
              Some (h, p) \<Rightarrow> if h = [] \<or> p = [] \<or> \<not> list_all is_ascii_digit p
                             then Inl ''invalid peer endpoint'' else Inr (h, p)
            | None \<Rightarrow> Inr (hostport, DEFAULT_PEER_PORT)))"

definition parse_peer_endpoint :: "string \<Rightarrow> string + string \<times> string" where
  "parse_peer_endpoint raw =
     (let trimmed = trim raw in
      if trimmed = [] then Inl ''endpoint is required''
      else
        let hostport = trim (hd (split_on (CHR ''/'') (strip_scheme trimmed))) in
        if hostport = [] then Inl ''invalid peer endpoint''
        else (case host_and_port hostport of
                Inl e \<Rightarrow> Inl e
              | Inr (host, port) \<Rightarrow>
                  if host = [] then Inl ''invalid peer host''
                  else
                    let endpoint = host @ '':'' @ port;
                        suggested_id = ''node-'' @ ascii_lower (trim_char (CHR ''-'') (dashed (trim_brackets host))) in
                    if suggested_id = ''node-'' then Inl ''could not derive node id from endpoint''
                    else Inr (endpoint, suggested_id)))"

text \<open>
  A double is \<open>mant * 2 ^ expo\<close> or not finite. Scaling by \<open>2 ^ 30\<close> is exact; a product out of range is
  infinite, and above every bound like the exact one. \<open>round\<close> goes away from zero on a half; the cast of
  \<open>2 ^ 63\<close> saturates.
\<close>

datatype f64 = NotFinite | Finite (mant: int) (expo: int)

definition round_scaled :: "int \<Rightarrow> int \<Rightarrow> int" where
  "round_scaled m e = (if e \<ge> 0 then m * 2 ^ nat e else (m + 2 ^ (nat (- e) - 1)) div 2 ^ nat (- e))"

fun gb_to_bytes :: "f64 \<Rightarrow> string + int" where
  "gb_to_bytes NotFinite = Inl ''allocated_gb must be a positive number''"
| "gb_to_bytes (Finite m e) =
     (if m \<le> 0 then Inl ''allocated_gb must be a positive number''
      else
        let bytes = round_scaled m (e + 30) in
        if bytes > 2 ^ 63 then Inl ''allocated_gb is too large'' else Inr (min bytes I64_MAX))"

section \<open>The nodes of a bucket\<close>

record bucket_node_item =
  ni_id :: string
  ni_endpoint :: string
  ni_is_local :: bool
  ni_allocated_bytes :: int
  ni_quota_mode :: quota_mode
  ni_used_bytes :: int

record bucket_nodes_view =
  nv_nodes :: "bucket_node_item list"
  nv_available :: "peer_dir_item list"
  nv_used_bytes :: int
  nv_etag_type :: etag_type
  nv_rehash_status :: "string option"
  nv_rehash_processed :: int
  nv_rehash_total :: int
  nv_rehash_error :: "string option"
  nv_local_storage_path :: string

definition list_bucket_nodes_route ::
  "'a config \<Rightarrow> path option \<Rightarrow> account_record \<Rightarrow> int \<Rightarrow> db \<Rightarrow> bucket_nodes_view reply \<times> db" where
  "list_bucket_nodes_route c cwd auth b = editor_only auth b (\<lambda>d0.
     (let d = snd (ensure_bucket_node_assignment b (cfg_node_id c) DEFAULT_NODE_ALLOCATED_BYTES Soft d0);
          used = bucket_used_bytes b d;
          assignments = list_bucket_node_assignments b d;
          active = list_active_peers d;
          endpoint_of = map_of (map (\<lambda>p. (peer_id p, wireguard_endpoint p)) active);
          nodes = map (\<lambda>a. \<lparr>ni_id = bna_peer_id a, ni_endpoint = unwrap_or (endpoint_of (bna_peer_id a)) [],
                    ni_is_local = (bna_peer_id a = cfg_node_id c), ni_allocated_bytes = allocated_bytes a,
                    ni_quota_mode = quota_mode a, ni_used_bytes = used\<rparr>) assignments;
          available = map peer_dir_item (filter (\<lambda>p. peer_id p \<notin> bna_peer_id ` set assignments) active) in
      case get_bucket_by_id b d of
        None \<Rightarrow> (text_reply 404 ''bucket not found'', d)
      | Some x \<Rightarrow> (Json 200 \<lparr>nv_nodes = nodes, nv_available = available, nv_used_bytes = used,
            nv_etag_type = bucket_etag_type x, nv_rehash_status = etag_rehash_status x,
            nv_rehash_processed = etag_rehash_processed x, nv_rehash_total = etag_rehash_total x,
            nv_rehash_error = etag_rehash_error x,
            nv_local_storage_path = path_display (absolute_display cwd (cfg_storage_root c))\<rparr>, d)))"

text \<open>
  The node to add: a peer by its endpoint, which registers it or changes its endpoint, or a known one.
  \<open>addr_text\<close> and \<open>addr_port\<close> print a socket address and its port.
\<close>

definition resolve_new_node ::
  "('a \<Rightarrow> string) \<Rightarrow> ('a \<Rightarrow> int) \<Rightarrow> 'a config \<Rightarrow> string option \<Rightarrow> string option \<Rightarrow> db \<Rightarrow> (string + string) \<times> db" where
  "resolve_new_node addr_text addr_port c given endpoint d =
     (let explicit_id = nonempty_trimmed given;
          port = show_int (addr_port (grpc_bind_addr c)) in
      case nonempty_trimmed endpoint of
        Some raw \<Rightarrow>
          (case parse_peer_endpoint raw of
             Inl msg \<Rightarrow> (Inl msg, d)
           | Inr (ep, suggested) \<Rightarrow>
               let i = unwrap_or explicit_id suggested in
               if i = cfg_node_id c then (Inl ''cannot add the local node via peer URL'', d)
               else if ep = addr_text (grpc_bind_addr c) \<or> ep = ''127.0.0.1:'' @ port \<or> ep = ''localhost:'' @ port
               then (Inl ''endpoint refers to this node'', d)
               else (Inr i, upsert_peer i ep d))
      | None \<Rightarrow>
          (case explicit_id of
             None \<Rightarrow> (Inl ''endpoint or node_id is required'', d)
           | Some i \<Rightarrow> if i = cfg_node_id c then (Inl ''cannot add the local node again'', d) else (Inr i, d)))"

definition add_bucket_node_route ::
  "('a \<Rightarrow> string) \<Rightarrow> ('a \<Rightarrow> int) \<Rightarrow> 'a config \<Rightarrow> account_record \<Rightarrow> int \<Rightarrow> string option \<Rightarrow> string option \<Rightarrow> f64 \<Rightarrow>
     quota_mode option \<Rightarrow> db \<Rightarrow> unit reply \<times> db" where
  "add_bucket_node_route addr_text addr_port c auth b given endpoint gb mode = editor_only auth b (\<lambda>d.
     (case gb_to_bytes gb of
        Inl msg \<Rightarrow> (text_reply 400 msg, d)
      | Inr bytes \<Rightarrow>
          (case resolve_new_node addr_text addr_port c given endpoint d of
             (Inl msg, d1) \<Rightarrow> (text_reply 400 msg, d1)
           | (Inr i, d1) \<Rightarrow>
               (case assign_bucket_node b i bytes (unwrap_or mode Soft) d1 of
                  (Inr _, d2) \<Rightarrow> (status_reply 204, d2)
                | (Inl e, d2) \<Rightarrow> (status_by [([''not found''], 404), ([''must be''], 400)] e, d2)))))"

definition patch_bucket_node_route ::
  "account_record \<Rightarrow> int \<Rightarrow> string \<Rightarrow> f64 option \<Rightarrow> quota_mode option \<Rightarrow> db \<Rightarrow> unit reply \<times> db" where
  "patch_bucket_node_route auth b i gb mode = editor_only auth b (\<lambda>d.
     (case (case gb of None \<Rightarrow> Inr None | Some g \<Rightarrow> map_sum id Some (gb_to_bytes g)) of
        Inl msg \<Rightarrow> (text_reply 400 msg, d)
      | Inr bytes \<Rightarrow>
          (case update_bucket_node b i bytes mode d of
             (Inr _, d1) \<Rightarrow> (status_reply 204, d1)
           | (Inl e, d1) \<Rightarrow> (status_by [([''not found''], 404), ([''must be'', ''no fields''], 400)] e, d1))))"

definition delete_bucket_node_route :: "'a config \<Rightarrow> account_record \<Rightarrow> int \<Rightarrow> string \<Rightarrow> db \<Rightarrow> unit reply \<times> db" where
  "delete_bucket_node_route c auth b i = editor_only auth b (\<lambda>d.
     (case remove_bucket_node b i (cfg_node_id c) d of
        (Inr _, d1) \<Rightarrow> (status_reply 204, d1)
      | (Inl e, d1) \<Rightarrow> (status_by [([''not found''], 404), ([''cannot remove''], 409)] e, d1)))"

section \<open>A bucket's hash algorithm\<close>

record bucket_etag_view =
  ev_etag_type :: etag_type
  ev_rehash_status :: "string option"
  ev_rehash_processed :: int
  ev_rehash_total :: int
  ev_rehash_error :: "string option"

text \<open>Besides its reply, the handler may start the task \<open>run_bucket_rehash\<close> with the bucket and algorithm given.\<close>

definition put_bucket_etag_route ::
  "account_record \<Rightarrow> int \<Rightarrow> etag_type \<Rightarrow> string \<Rightarrow> db \<Rightarrow>
     (bucket_etag_view reply \<times> (int \<times> etag_type) option) \<times> db" where
  "put_bucket_etag_route auth b etype apply_mode d =
     (case require_replication_editor (account_id auth) b d of
        Inl r \<Rightarrow> ((Raw r, None), d)
      | Inr _ \<Rightarrow>
          let mode = trim apply_mode in
          if mode \<noteq> ''new_only'' \<and> mode \<noteq> ''recalculate_all''
          then ((text_reply 400 ''apply must be new_only or recalculate_all'', None), d)
          else (case get_bucket_by_id b d of
                  None \<Rightarrow> ((text_reply 404 ''bucket not found'', None), d)
                | Some x \<Rightarrow>
                    if mode = ''recalculate_all'' \<and> etag_rehash_status x = Some ''running''
                    then ((text_reply 409 ''etag recalculation already running'', None), d)
                    else (case set_bucket_etag_type b etype d of
                            (Inl e, d1) \<Rightarrow> ((status_by [([''not found''], 404)] e, None), d1)
                          | (Inr _, d1) \<Rightarrow>
                              if mode = ''new_only'' then ((status_reply 204, None), d1)
                              else
                                let tot = count_active_objects_in_bucket b d1 in
                                (case begin_bucket_etag_rehash b tot d1 of
                                   (Inl e, d2) \<Rightarrow> ((error_reply e, None), d2)
                                 | (Inr _, d2) \<Rightarrow>
                                     ((Json 202 \<lparr>ev_etag_type = etype, ev_rehash_status = Some ''running'',
                                        ev_rehash_processed = 0, ev_rehash_total = tot, ev_rehash_error = None\<rparr>,
                                       Some (b, etype)), d2)))))"

section \<open>Endpoints have one spelling\<close>

lemma length_trim_start: "length (trim_start s) \<le> length s"
  using suffix_trim_start suffix_length_le by blast

lemma trim_start_fixed:
  "trim_start s = s \<longleftrightarrow> (case s of [] \<Rightarrow> True | [a] \<Rightarrow> \<not> ws1 a | [a, b] \<Rightarrow> \<not> ws1 a \<and> \<not> ws2 a b
     | a # b # c # _ \<Rightarrow> \<not> ws1 a \<and> \<not> ws2 a b \<and> \<not> ws3 a b c)"
proof (cases s rule: trim_start.cases)
  case (1 a b c t)
  have "length (trim_start (b # c # t)) < length s" "length (trim_start (c # t)) < length s"
    "length (trim_start t) < length s"
    using length_trim_start [of "b # c # t"] length_trim_start [of "c # t"] length_trim_start [of t] 1 by simp_all
  then show ?thesis using 1 by auto
next
  case (2 a b)
  have "length (trim_start [b]) < length s" using length_trim_start [of "[b]"] 2 by simp
  then show ?thesis using 2 by auto
qed auto

lemma trim_start_prefix: "trim_start (p @ r) = p @ r \<Longrightarrow> trim_start p = p"
  unfolding trim_start_fixed by (auto split: list.splits)

lemma trim_start_colon: "trim_start p = p \<Longrightarrow> p \<noteq> [] \<Longrightarrow> trim_start (p @ CHR '':'' # r) = p @ CHR '':'' # r"
  unfolding trim_start_fixed by (auto simp: ws2_def ws3_def split: list.splits)

lemma trim_prefix_start: "\<exists>r. trim_start s = trim s @ r"
proof -
  have "suffix (trim_rev (rev (trim_start s))) (rev (trim_start s))" by (rule suffix_trim_rev)
  then obtain x where "rev (trim_start s) = x @ trim_rev (rev (trim_start s))" unfolding suffix_def by blast
  then have "trim_start s = trim s @ rev x" by (metis rev_append rev_rev_ident trim_def trim_end_def)
  then show ?thesis ..
qed

lemma trim_start_trim: "trim_start (trim s) = trim s"
  using trim_prefix_start [of s] trim_start_idem [of s] trim_start_prefix by metis

lemma trim_digit_end:
  assumes "trim_start s = s" "s \<noteq> []" "is_ascii_digit (last s)"
  shows "trim s = s"
proof -
  have "plain_char (last s)" using assms(3) by (auto simp: is_ascii_digit_def plain_char_def Let_def)
  then show ?thesis using assms by (simp add: trim_def trim_end_def trim_rev_plain hd_rev)
qed

lemma bracket_split:
  assumes "find_str s '']'' = Some i"
  obtains a b where "s = a @ CHR '']'' # b" "CHR '']'' \<notin> set a" "i = length a"
  using assms that by (auto simp: find_str_char split_once_Some)

lemma find_first: "c \<notin> set a \<Longrightarrow> find_str (a @ c # b) [c] = Some (length a)"
proof -
  assume "c \<notin> set a"
  then have "split_once c (a @ c # b) = Some (a, b)" by (simp add: split_once_Some)
  then show ?thesis by (simp add: find_str_char)
qed

lemma port_ok: "list_all is_ascii_digit DEFAULT_PEER_PORT" "DEFAULT_PEER_PORT \<noteq> []" "CHR '':'' \<notin> set DEFAULT_PEER_PORT"
  by code_simp+

lemma digits_no_colon: "list_all is_ascii_digit p \<Longrightarrow> CHR '':'' \<notin> set p"
  by (auto simp: list_all_iff is_ascii_digit_def)

lemma host_and_port_shape:
  assumes "host_and_port hp = Inr (h, p)" "hp \<noteq> []"
  shows "(hp = h @ CHR '':'' # p \<or> hp = h) \<and> p \<noteq> [] \<and> list_all is_ascii_digit p \<and> h \<noteq> []
    \<and> host_and_port (h @ CHR '':'' # p) = Inr (h, p)"
proof (cases "starts_with hp ''[''")
  case True
  then obtain i where i: "find_str hp '']'' = Some i" using assms(1) by (auto simp: host_and_port_def split: option.splits)
  obtain a b where ab: "hp = a @ CHR '']'' # b" "CHR '']'' \<notin> set a" "i = length a" using bracket_split [OF i] .
  have h: "h = a @ '']''" and b: "b = CHR '':'' # p \<or> b = []" and p: "p \<noteq> []" "list_all is_ascii_digit p"
    using assms(1) True i ab
    by (auto simp: host_and_port_def Let_def strip_prefix_Some port_ok split: option.splits if_split_asm)
  have "starts_with (a @ CHR '']'' # r) ''[''" for r
    using True ab(1) by (cases a) (auto simp: starts_with_def)
  then have "host_and_port (h @ CHR '':'' # p) = Inr (h, p)"
    using h p find_first [OF ab(2), of "CHR '':'' # p"]
    by (simp add: host_and_port_def Let_def strip_prefix_def starts_with_def)
  then show ?thesis using ab h b p by auto
next
  case False
  have sp: "rsplit_once (CHR '':'') (h @ CHR '':'' # p) = Some (h, p)" if "list_all is_ascii_digit p"
    using digits_no_colon [OF that] by (simp add: rsplit_once_Some)
  have hp: "(hp = h @ CHR '':'' # p \<or> hp = h) \<and> p \<noteq> [] \<and> list_all is_ascii_digit p \<and> h \<noteq> []"
    using assms False
    by (auto simp: host_and_port_def rsplit_once_Some port_ok split: option.splits if_split_asm)
  then have "\<not> starts_with (h @ CHR '':'' # p) ''[''"
    using False by (cases h) (auto simp: starts_with_def)
  then show ?thesis using hp sp by (auto simp: host_and_port_def)
qed

lemma strip_scheme_plain: "CHR ''/'' \<notin> set s \<Longrightarrow> strip_scheme s = s"
  by (auto simp: strip_scheme_def unwrap_or_def or_else_def strip_prefix_Some split: option.splits)

lemma set_trim: "set (trim s) \<subseteq> set s"
  using trim_prefix_start [of s] suffix_trim_start [of s] by (metis Un_subset_iff set_append set_mono_suffix)

text \<open>An endpoint that is accepted is stored in a normal form: reading the stored text again gives the
  same text and the same suggested node id, and the text is a host, a colon and a port of digits.\<close>

theorem parse_peer_endpoint_canonical:
  assumes "parse_peer_endpoint raw = Inr (ep, i)"
  shows "parse_peer_endpoint ep = Inr (ep, i)
    \<and> (\<exists>h p. ep = h @ CHR '':'' # p \<and> h \<noteq> [] \<and> p \<noteq> [] \<and> list_all is_ascii_digit p)
    \<and> starts_with i ''node-'' \<and> i \<noteq> ''node-''"
proof -
  define hp where "hp = trim (hd (split_on (CHR ''/'') (strip_scheme (trim raw))))"
  have "hp \<noteq> []" using assms unfolding parse_peer_endpoint_def Let_def hp_def [symmetric] by (auto split: if_split_asm)
  obtain h p where hap: "host_and_port hp = Inr (h, p)" and ep: "ep = h @ '':'' @ p"
    and i: "i = ''node-'' @ ascii_lower (trim_char (CHR ''-'') (dashed (trim_brackets h)))" "i \<noteq> ''node-''"
    using assms unfolding parse_peer_endpoint_def Let_def hp_def [symmetric]
    by (auto split: if_split_asm sum.splits prod.splits)
  note sh = host_and_port_shape [OF hap \<open>hp \<noteq> []\<close>]
  have "CHR ''/'' \<notin> set (hd (split_on (CHR ''/'') (strip_scheme (trim raw))))"
    by (rule split_on_no_sep [OF hd_in_set]) simp
  then have "CHR ''/'' \<notin> set hp" unfolding hp_def using set_trim by blast
  moreover have "CHR ''/'' \<notin> set p" using sh by (auto simp: list_all_iff is_ascii_digit_def)
  ultimately have no: "CHR ''/'' \<notin> set ep" using sh ep by auto
  have "trim_start hp = hp" unfolding hp_def by (rule trim_start_trim)
  then have "trim_start ep = ep" using sh ep trim_start_colon \<open>hp \<noteq> []\<close> by auto
  moreover have "is_ascii_digit (last ep)" using sh ep by (simp add: list_all_iff)
  moreover have "ep \<noteq> []" using ep by simp
  ultimately have "trim ep = ep" using trim_digit_end by blast
  moreover have "split_on (CHR ''/'') ep = [ep]" using no by (rule split_on_single)
  ultimately have "parse_peer_endpoint ep = Inr (ep, i)"
    using sh ep i no by (simp add: parse_peer_endpoint_def Let_def strip_scheme_plain)
  then show ?thesis using sh ep i by (auto simp: starts_with_def)
qed

theorem parse_peer_endpoint_canonical_witness:
  "parse_peer_endpoint '' https://Peer-2.Example.com/x'' = Inr (''Peer-2.Example.com:50051'', ''node-peer-2-example-com'')
   \<and> parse_peer_endpoint ''Peer-2.Example.com:50051'' = Inr (''Peer-2.Example.com:50051'', ''node-peer-2-example-com'')"
proof -
  have p: "parse_peer_endpoint '' https://Peer-2.Example.com/x''
      = Inr (''Peer-2.Example.com:50051'', ''node-peer-2-example-com'')" by code_simp
  from parse_peer_endpoint_canonical [OF p] p show ?thesis by blast
qed

section \<open>Allocations\<close>

lemma div_round: "0 < (k::int) \<Longrightarrow> \<bar>2 * k * ((m + k) div (2 * k)) - m\<bar> \<le> k"
proof -
  assume k: "0 < k"
  have "2 * k * ((m + k) div (2 * k)) + (m + k) mod (2 * k) = m + k" by simp
  moreover have "0 \<le> (m + k) mod (2 * k)" "(m + k) mod (2 * k) < 2 * k" using k by simp_all
  ultimately show ?thesis by linarith
qed

text \<open>An allocation read as whole bytes is within the range of the column and is the given number of
  gibibytes to the nearest byte: exactly, when the number has at most thirty binary places, and within half a
  byte otherwise. The one exception is \<open>2 ^ 63\<close> bytes, which becomes the largest integer.\<close>

theorem gb_to_bytes_exact:
  assumes "gb_to_bytes (Finite m e) = Inr b" "b \<noteq> I64_MAX"
  shows "0 \<le> b \<and> b < I64_MAX
    \<and> (if e \<ge> -30 then b = m * 2 ^ nat (e + 30) else 2 * \<bar>b * 2 ^ nat (- e - 30) - m\<bar> \<le> 2 ^ nat (- e - 30))"
proof -
  have m: "0 < m" and b: "b = min (round_scaled m (e + 30)) I64_MAX"
    using assms(1) by (auto simp: Let_def split: if_split_asm)
  with assms(2) have r: "b = round_scaled m (e + 30)" "b < I64_MAX" by (auto simp: min_def split: if_split_asm)
  show ?thesis
  proof (cases "e \<ge> -30")
    case True
    then show ?thesis using r m by (simp add: round_scaled_def)
  next
    case False
    define k :: int where "k = 2 ^ (nat (- e - 30) - 1)"
    have "nat (- e - 30) = Suc (nat (- e - 30) - 1)" using False by simp
    then have kk: "2 ^ nat (- e - 30) = 2 * k" unfolding k_def by (metis power_Suc)
    have "b = (m + 2 ^ (nat (- e - 30) - 1)) div 2 ^ nat (- e - 30)"
      using r(1) False by (simp add: round_scaled_def algebra_simps)
    then have "b = (m + k) div (2 * k)" unfolding kk k_def [symmetric] .
    moreover have "0 < k" by (simp add: k_def)
    moreover have "0 \<le> (m + k) div (2 * k)" using m \<open>0 < k\<close> by (simp add: pos_imp_zdiv_nonneg_iff)
    ultimately show ?thesis using div_round [of k m] False r(2) kk by (simp add: mult.commute)
  qed
qed

theorem gb_to_bytes_exact_witness:
  "gb_to_bytes (Finite 3 (-1)) = Inr 1610612736 \<and> (1610612736 :: int) = 3 * 2 ^ nat (- 1 + 30)"
proof -
  have g: "gb_to_bytes (Finite 3 (-1)) = Inr 1610612736" "(1610612736 :: int) \<noteq> I64_MAX" by code_simp+
  from gb_to_bytes_exact [OF g] g(1) show ?thesis by simp
qed

section \<open>Who can redirect a peer\<close>

text \<open>C39: Whoever may edit the nodes of one bucket can point any known peer to another address, for every
  bucket that is replicated to it: adding a node by its endpoint overwrites the endpoint of the peer with the
  given id, and keeps it overwritten when the request is then refused.\<close>

theorem editor_redirects_peer:
  assumes "can_edit_bucket_replication (account_id auth) b d"
    and "gb_to_bytes gb = Inr bytes" and "nonempty_trimmed endpoint = Some raw"
    and "parse_peer_endpoint raw = Inr (ep, sug)" and "nonempty_trimmed given = Some i"
    and "i \<noteq> cfg_node_id c"
    and "ep \<notin> {addr_text (grpc_bind_addr c), ''127.0.0.1:'' @ show_int (addr_port (grpc_bind_addr c)),
                ''localhost:'' @ show_int (addr_port (grpc_bind_addr c))}"
    and "p \<in> set (peers d)" "peer_id p = i"
    and "add_bucket_node_route addr_text addr_port c auth b given endpoint gb mode d = (r, d')"
  shows "p\<lparr>wireguard_endpoint := ep, is_active := True\<rparr> \<in> set (peers d')
    \<and> (if bytes = 0 then reply_status r = 400 else True)"
proof -
  have "peers (snd (assign_bucket_node b i bytes m (upsert_peer i ep d))) = peers (upsert_peer i ep d)" for m
    by (auto simp: assign_bucket_node_def clear_replicate_to_all_def insert_node_def update_node_def Let_def
        split: sum.splits prod.splits if_split_asm)
  moreover have "peers (upsert_peer i ep d) = update_where (\<lambda>p. peer_id p = i)
      (\<lambda>p. p\<lparr>wireguard_endpoint := ep, is_active := True\<rparr>) (peers d)"
    using assms(8,9) by (auto simp: upsert_peer_def)
  moreover have "resolve_new_node addr_text addr_port c given endpoint d = (Inr i, upsert_peer i ep d)"
    using assms(3-7) by (simp add: resolve_new_node_def unwrap_or_def)
  then have run: "(r, d') = (case assign_bucket_node b i bytes (unwrap_or mode Soft) (upsert_peer i ep d) of
      (Inr _, d2) \<Rightarrow> (status_reply 204, d2)
    | (Inl e, d2) \<Rightarrow> (status_by [([''not found''], 404), ([''must be''], 400)] e, d2))"
    using assms(1,2,10) by (simp add: add_bucket_node_route_def editor_only_def require_replication_editor_def)
  then have "d' = snd (assign_bucket_node b i bytes (unwrap_or mode Soft) (upsert_peer i ep d))"
    by (simp split: prod.splits sum.splits)
  moreover have "reply_status r = 400" if "bytes = 0"
  proof -
    have "\<not> err_has (Bail ''allocated_bytes must be positive'') ''not found''"
      "err_has (Bail ''allocated_bytes must be positive'') ''must be''" by code_simp+
    then show ?thesis using run that by (simp add: assign_bucket_node_def text_reply_def text_response_def)
  qed
  ultimately show ?thesis using assms(8,9) by (auto simp: update_where_def)
qed

definition editor :: account_record where
  "editor = \<lparr>account_id = 7, username_hex = ''u'', password_hash = [], display_name = [], is_disabled = False,
     account_created_utc = 0, account_updated_utc = 0, created_by_account_id = None\<rparr>"

definition redirect_db :: db where
  "redirect_db = (initial_db 0)\<lparr>accounts := [editor],
     buckets := map (\<lambda>b. b\<lparr>owner_account_id := Some 7\<rparr>) (buckets (initial_db 0)),
     peers := [\<lparr>peer_id = ''n2'', wireguard_endpoint = ''10.0.0.2:50051'', is_active = True, last_heartbeat_utc = None\<rparr>]\<rparr>"

theorem editor_redirects_peer_witness:
  "\<exists>r d'. add_bucket_node_route id (\<lambda>_. 50051) (demo_config\<lparr>grpc_bind_addr := ''10.0.0.1:50051''\<rparr>) editor 1
       (Some ''n2'') (Some ''evil.example:1'') (Finite 1 (-40)) None redirect_db = (r, d')
     \<and> reply_status r = 400 \<and> ''evil.example:1'' \<in> wireguard_endpoint ` set (peers d')"
proof -
  let ?c = "demo_config\<lparr>grpc_bind_addr := ''10.0.0.1:50051''\<rparr>"
  let ?p = "\<lparr>peer_id = ''n2'', wireguard_endpoint = ''10.0.0.2:50051'', is_active = True, last_heartbeat_utc = None\<rparr>"
  obtain r d' where run: "add_bucket_node_route id (\<lambda>_. 50051) ?c editor 1
       (Some ''n2'') (Some ''evil.example:1'') (Finite 1 (-40)) None redirect_db = (r, d')" by force
  have h1: "can_edit_bucket_replication (account_id editor) 1 redirect_db" by code_simp
  have h2: "gb_to_bytes (Finite 1 (-40)) = Inr 0" by code_simp
  have h3: "nonempty_trimmed (Some ''evil.example:1'') = Some ''evil.example:1''"
    "nonempty_trimmed (Some ''n2'') = Some ''n2''" by code_simp+
  have h4: "parse_peer_endpoint ''evil.example:1'' = Inr (''evil.example:1'', ''node-evil-example'')" by code_simp
  have h5: "''n2'' \<noteq> cfg_node_id ?c" by code_simp
  have h6: "''evil.example:1'' \<notin> {id (grpc_bind_addr ?c), ''127.0.0.1:'' @ show_int ((\<lambda>_. 50051) (grpc_bind_addr ?c)),
      ''localhost:'' @ show_int ((\<lambda>_. 50051) (grpc_bind_addr ?c))}" by simp
  have h7: "?p \<in> set (peers redirect_db)" "peer_id ?p = ''n2''" by (simp_all add: redirect_db_def)
  note h = h1 h2 h3(1) h4 h3(2) h5 h6 h7
  from editor_redirects_peer [OF h run]
  have "?p\<lparr>wireguard_endpoint := ''evil.example:1'', is_active := True\<rparr> \<in> set (peers d')" "reply_status r = 400"
    by simp_all
  then have "''evil.example:1'' \<in> wireguard_endpoint ` set (peers d')" by force
  with run \<open>reply_status r = 400\<close> show ?thesis by blast
qed
end
