(* ===== verification/Maintenance.thy ===== *)
theory Maintenance
  imports Storage
begin

text \<open>
  The background jobs on one node: purging the recycle bin (\<open>src/server/purge.rs\<close>) and rehashing a
  bucket (\<open>src/server/etag_rehash.rs\<close>). Subtracting a duration from a point in time is \<open>chrono\<close>'s:
  the parameter \<open>minus_secs\<close>, where \<open>None\<close> is its panic.
\<close>

section \<open>Purging\<close>

text \<open>One purged object: the outbox jobs and the deletion in a transaction, then the blob.\<close>

definition purge_object :: "storage_engine \<Rightarrow> string \<Rightarrow> time \<Rightarrow> object_record \<Rightarrow> db \<times> fs \<Rightarrow> db \<times> fs" where
  "purge_object eng node now r s =
     (case s of (d, f) \<Rightarrow>
        let d1 = snd (enqueue_delete_for_active_peers (obj_id r) (filepath r) (etag r) node now d);
            d2 = delete_object_row (\<lambda>x. obj_id x = obj_id r) d1
        in (d2, unlink eng (filepath r) f))"

definition purge_once ::
  "(time \<Rightarrow> int \<Rightarrow> time option) \<Rightarrow> storage_engine \<Rightarrow> string \<Rightarrow> time \<Rightarrow>
     db \<times> fs \<Rightarrow> (unit res \<times> db \<times> fs) option" where
  "purge_once minus_secs eng node now s =
     (case s of (d, f) \<Rightarrow>
        (case get_settings d of
           Inl e \<Rightarrow> Some (Inl e, d, f)
         | Inr st \<Rightarrow>
             let secs = to_seconds (recycle_retention_unit st) (recycle_retention_value st) in
             (case minus_secs now (max secs 0) of
                None \<Rightarrow> None
              | Some cutoff \<Rightarrow>
                  Some (Inr (), foldl (\<lambda>s r. purge_object eng node now r s) (d, f)
                          (list_expired_deleted_objects cutoff d)))))"

section \<open>Rehashing a bucket\<close>

definition rehash_one ::
  "(hash_alg \<Rightarrow> string \<Rightarrow> string) \<Rightarrow> (nat \<Rightarrow> string \<Rightarrow> string) \<Rightarrow> storage_engine \<Rightarrow> string \<Rightarrow> fs \<Rightarrow>
     string \<Rightarrow> int \<Rightarrow> etag_type \<Rightarrow> time \<Rightarrow> db \<Rightarrow> unit res \<times> db" where
  "rehash_one digest xof eng node f fp oid etype now d =
     (case hash_filepath digest xof eng fp etype f of
        Inl e \<Rightarrow> (Inl e, d)
      | Inr tag \<Rightarrow>
          (case update_object_etag oid etype tag now d of
             (Inl e, d1) \<Rightarrow> (Inl e, d1)
           | (Inr _, d1) \<Rightarrow> (Inr (), snd (enqueue_put_for_active_peers oid fp tag node now d1))))"

text \<open>An object that fails is skipped, and counted as processed all the same.\<close>

fun rehash_loop ::
  "(hash_alg \<Rightarrow> string \<Rightarrow> string) \<Rightarrow> (nat \<Rightarrow> string \<Rightarrow> string) \<Rightarrow> storage_engine \<Rightarrow> string \<Rightarrow> fs \<Rightarrow>
     int \<Rightarrow> etag_type \<Rightarrow> time \<Rightarrow> object_record list \<Rightarrow> db \<Rightarrow> db" where
  "rehash_loop digest xof eng node f b etype now [] d = d"
| "rehash_loop digest xof eng node f b etype now (r # rs) d =
     (let d1 = snd (rehash_one digest xof eng node f (filepath r) (obj_id r) etype now d) in
      rehash_loop digest xof eng node f b etype now rs (bump_bucket_etag_rehash_processed b d1))"

definition run_bucket_rehash ::
  "(hash_alg \<Rightarrow> string \<Rightarrow> string) \<Rightarrow> (nat \<Rightarrow> string \<Rightarrow> string) \<Rightarrow> storage_engine \<Rightarrow> string \<Rightarrow> fs \<Rightarrow>
     int \<Rightarrow> etag_type \<Rightarrow> time \<Rightarrow> db \<Rightarrow> db" where
  "run_bucket_rehash digest xof eng node f b etype now d =
     finish_bucket_etag_rehash b ''done'' None
       (rehash_loop digest xof eng node f b etype now (list_objects_for_etag_rehash b d) d)"

end
