(* ===== verification/Reconcile.thy ===== *)
theory Reconcile
  imports Storage
begin

text \<open>
  Comparing the object table with the blobs on disk and removing files no row names:
  \<open>src/storage/reconcile.rs\<close>.
\<close>

definition MISSING_CAP :: nat where "MISSING_CAP = 50"
definition ORPHAN_CAP :: nat where "ORPHAN_CAP = 50"

record integrity_report =
  ir_db_rows :: int
  ir_db_active :: int
  ir_db_recycled :: int
  disk_files_before :: int
  disk_files_after :: int
  active_ok :: int
  recycle_ok :: int
  orphans_removed :: "string list"
  orphans_removed_count :: int
  missing_active :: "string list"
  missing_active_count :: int
  missing_recycle :: "string list"
  missing_recycle_count :: int
  repaired :: bool

record db_object_file =
  dof_filepath :: string
  dof_deleted :: bool

text \<open>\<open>trim_start_matches("./")\<close>\<close>

fun trim_dot_slash :: "string \<Rightarrow> string" where
  "trim_dot_slash (a # b # s) = (if a = CHR ''.'' \<and> b = CHR ''/'' then trim_dot_slash s else a # b # s)"
| "trim_dot_slash s = s"

definition normalize_object_rel :: "string \<Rightarrow> string" where
  "normalize_object_rel fp =
     (let trimmed = trim_dot_slash (trim fp) in
      case strip_prefix trimmed ''objects/'' of
        Some rest \<Rightarrow> ''objects/'' @ rest
      | None \<Rightarrow> if CHR ''/'' \<in> set trimmed then trimmed else ''objects/'' @ trimmed)"

definition list_db_object_files :: "db \<Rightarrow> db_object_file list" where
  "list_db_object_files d =
     map (\<lambda>r. \<lparr>dof_filepath = normalize_object_rel (filepath r), dof_deleted = (deleted_at r \<noteq> None)\<rparr>) (objects d)"

definition list_disk_object_files :: "string \<Rightarrow> fs \<Rightarrow> string list" where
  "list_disk_object_files dir f =
     sort (map (\<lambda>(n, bs). ''objects/'' @ n) (filter (\<lambda>(n, bs). \<not> starts_with n ''.'') (dir_entries dir f)))"

record classified =
  cl_db_files :: "db_object_file list"
  cl_disk_set :: "string list"
  cl_orphans :: "string list"
  cl_missing_active :: "string list"
  cl_missing_recycle :: "string list"
  cl_active_ok :: int
  cl_recycle_ok :: int

definition classify :: "db \<Rightarrow> storage_engine \<Rightarrow> fs \<Rightarrow> classified" where
  "classify d eng f =
     (let db_files = list_db_object_files d;
          disk = list_disk_object_files (objects_dir eng) f;
          on_disk = (\<lambda>r. dof_filepath r \<in> set disk) in
      \<lparr>cl_db_files = db_files, cl_disk_set = remdups disk,
       cl_orphans = sort (filter (\<lambda>p. p \<notin> dof_filepath ` set db_files) disk),
       cl_missing_active = sort (map dof_filepath (filter (\<lambda>r. \<not> on_disk r \<and> \<not> dof_deleted r) db_files)),
       cl_missing_recycle = sort (map dof_filepath (filter (\<lambda>r. \<not> on_disk r \<and> dof_deleted r) db_files)),
       cl_active_ok = count_where (\<lambda>r. on_disk r \<and> \<not> dof_deleted r) db_files,
       cl_recycle_ok = count_where (\<lambda>r. on_disk r \<and> dof_deleted r) db_files\<rparr>)"

definition capped :: "string list \<Rightarrow> nat \<Rightarrow> string list \<times> int" where
  "capped items cap = (take cap items, int (length items))"

definition inspect :: "db \<Rightarrow> storage_engine \<Rightarrow> fs \<Rightarrow> integrity_report" where
  "inspect d eng f =
     (let c = classify d eng f;
          act = count_where (\<lambda>r. \<not> dof_deleted r) (cl_db_files c);
          (orph, orph_n) = capped (cl_orphans c) ORPHAN_CAP;
          (ma, ma_n) = capped (cl_missing_active c) MISSING_CAP;
          (mr, mr_n) = capped (cl_missing_recycle c) MISSING_CAP;
          disk_files = int (length (cl_disk_set c)) in
      \<lparr>ir_db_rows = int (length (cl_db_files c)), ir_db_active = act,
       ir_db_recycled = int (length (cl_db_files c)) - act,
       disk_files_before = disk_files, disk_files_after = disk_files,
       active_ok = cl_active_ok c, recycle_ok = cl_recycle_ok c,
       orphans_removed = orph, orphans_removed_count = orph_n,
       missing_active = ma, missing_active_count = ma_n,
       missing_recycle = mr, missing_recycle_count = mr_n, repaired = False\<rparr>)"

text \<open>
  Repairing: an unlink that fails leaves its file and is not reported as removed; \<open>stuck\<close> tells
  for which paths it does.
\<close>

definition reconcile ::
  "(string \<Rightarrow> bool) \<Rightarrow> db \<Rightarrow> storage_engine \<Rightarrow> fs \<Rightarrow> integrity_report \<times> fs" where
  "reconcile stuck d eng f =
     (let c = classify d eng f;
          act = count_where (\<lambda>r. \<not> dof_deleted r) (cl_db_files c);
          removed = filter (\<lambda>p. \<not> stuck p) (cl_orphans c);
          f' = foldl (\<lambda>f p. unlink eng p f) f removed;
          (orph, _) = capped removed ORPHAN_CAP;
          (ma, ma_n) = capped (cl_missing_active c) MISSING_CAP;
          (mr, mr_n) = capped (cl_missing_recycle c) MISSING_CAP in
      (\<lparr>ir_db_rows = int (length (cl_db_files c)), ir_db_active = act,
        ir_db_recycled = int (length (cl_db_files c)) - act,
        disk_files_before = int (length (cl_disk_set c)),
        disk_files_after = int (length (list_disk_object_files (objects_dir eng) f')),
        active_ok = cl_active_ok c, recycle_ok = cl_recycle_ok c,
        orphans_removed = orph, orphans_removed_count = int (length removed),
        missing_active = ma, missing_active_count = ma_n,
        missing_recycle = mr, missing_recycle_count = mr_n, repaired = True\<rparr>, f'))"

definition count_disk_files :: "string \<Rightarrow> fs \<Rightarrow> int" where
  "count_disk_files dir f = int (length (list_disk_object_files dir f))"

end
