(* ===== verification/Delivery.thy ===== *)
theory Delivery
  imports Cluster Maintenance Reconcile Invariants
begin

text \<open>
  What storing and replicating a blob promises (\<open>src/storage/engine.rs\<close>,
  \<open>src/cluster/grpc_server.rs\<close>, \<open>worker.rs\<close>): chunking does not matter, a delivered PUT makes the
  replica equal, delivering it again is harmless, and what a broken stream or a mismatch leaves behind.
\<close>

section \<open>Blobs\<close>

lemma starts_with_objects: "starts_with (''objects/'' @ x) ''objects/''"
  by (rule starts_with_append)

lemma absolute_relative: "absolute_path_for eng (relative_filepath u x) = path_join (storage_root eng) (relative_filepath u x)"
proof -
  have "starts_with (relative_filepath u x) ''objects/''"
    unfolding relative_filepath_def by (rule starts_with_objects)
  then show ?thesis by (simp add: absolute_path_for_def)
qed

lemma digest_hex_blob: "digest_hex digest xof t bs = Some (blob_hash digest xof t bs)"
  by (simp add: digest_hex_def hasher.finish_one)

lemma put_chunks_stream:
  "put_chunks digest xof lower eng uuid (map Inr cs) fname etype expected forced f =
     (let fmt = extension_from_filename lower fname;
          fp = (case forced of Some p \<Rightarrow> p | None \<Rightarrow> relative_filepath uuid fmt);
          tag = blob_hash digest xof etype (concat cs);
          f' = fs_write (absolute_path_for eng fp) (concat cs) f in
      if (case expected of Some x \<Rightarrow> x \<noteq> tag | None \<Rightarrow> False)
      then (Inl (Bail (''etag mismatch: expected '' @ the expected @ '', got '' @ tag)),
            fs_remove (absolute_path_for eng fp) f')
      else (Inr \<lparr>so_filepath = fp, so_file_format = fmt, so_absolute_path = absolute_path_for eng fp,
              so_filesize_bytes = int (length (concat cs)), so_etag = tag, so_etag_type = etype\<rparr>, f'))"
proof -
  have ww: "fs_write p y (fs_write p x f) = fs_write p y f" for p x y
    by (simp add: fs_write_def update_last)
  have path: "(case forced of Some p \<Rightarrow> absolute_path_for eng p
      | None \<Rightarrow> path_join (storage_root eng) (case forced of Some p \<Rightarrow> p
          | None \<Rightarrow> relative_filepath uuid (extension_from_filename lower fname)))
    = absolute_path_for eng (case forced of Some p \<Rightarrow> p
          | None \<Rightarrow> relative_filepath uuid (extension_from_filename lower fname))"
    by (simp add: absolute_relative split: option.split)
  have cl: "copy_loop p (map Inr cs) (hasher_new etype) 0 (fs_write p [] f)
      = (Inr (foldl (\<lambda>h c. hasher_update c h) (hasher_new etype) cs, int (length (concat cs))), fs_write p (concat cs) f)" for p
    by (simp add: copy_loop_ok ww)
  show ?thesis
    unfolding put_chunks_def Let_def path cl
    by (simp only: prod.case sum.case option.case hasher.stream)
qed

text \<open>C22: Storing an upload is right whatever chunks it arrives in: it never fails, the blob read back is the
  bytes sent, the size is their number, the etag is the hash of the whole, and no other file changes.\<close>

theorem put_chunks_correct:
  "\<exists>so f'. put_chunks digest xof lower eng uuid (map Inr cs) fname etype None None f = (Inr so, f')
     \<and> open_read eng (so_filepath so) f' = Inr (concat cs)
     \<and> so_filesize_bytes so = int (length (concat cs))
     \<and> digest_hex digest xof etype (concat cs) = Some (so_etag so)
     \<and> hash_filepath digest xof eng (so_filepath so) etype f' = Inr (so_etag so)
     \<and> (\<forall>p. fs_read p f' = (if p = absolute_path_for eng (so_filepath so) then Some (concat cs) else fs_read p f))"
  unfolding put_chunks_stream Let_def
  by (simp add: open_read_def hash_filepath_def digest_hex_blob)

lemma copy_loop_fails:
  "copy_loop p (map Inr cs @ Inl e # rest) h tot f
     = (Inl (Bail e), if cs = [] then f
        else fs_write p ((case fs_read p f of Some bs \<Rightarrow> bs | None \<Rightarrow> []) @ concat cs) f)"
proof (induction cs arbitrary: h tot f)
  case (Cons c cs)
  have ww: "fs_write p y (fs_write p x f) = fs_write p y f" for x y
    by (simp add: fs_write_def update_last)
  show ?case by (simp add: Cons.IH ww split: option.split)
qed simp

text \<open>An upload whose stream breaks is reported as failed and leaves the part received as a file on disk,
  which no row will name.\<close>

theorem put_chunks_broken:
  "\<exists>f'. put_chunks digest xof lower eng uuid (map Inr cs @ Inl e # rest) fname etype expected None f = (Inl (Bail e), f')
     \<and> fs_read (absolute_path_for eng (relative_filepath uuid (extension_from_filename lower fname))) f' = Some (concat cs)"
proof -
  have "copy_loop p (map Inr cs @ Inl e # rest) (hasher_new etype) 0 (fs_write p [] f)
     = (Inl (Bail e), if cs = [] then fs_write p [] f else fs_write p (concat cs) (fs_write p [] f))" for p
    by (simp add: copy_loop_fails)
  then show ?thesis
    by (simp add: put_chunks_def Let_def absolute_relative)
qed

text \<open>C40: A replica that receives an object whose bytes do not match the announced etag refuses it, and
  whatever blob it held under that path before is gone afterwards.\<close>

theorem replicate_mismatch_destroys:
  assumes "blob_hash digest xof etype (concat ps) \<noteq> om_etag meta"
    and "etag_type_from_str (om_etag_type meta) = Some etype"
  shows "\<exists>e n'. replicate_object digest xof lower (Metadata meta # map Payload ps) now n = (Inl (Internal e), n')
    \<and> fs_read (absolute_path_for (node_engine n) (om_filepath_uuid meta)) (node_fs n') = None
    \<and> node_db n' = node_db n"
proof -
  have rd: "read_chunks (map Payload ps) (m, qs) = (m, qs @ ps)" for m qs
    by (induction ps arbitrary: qs) auto
  have "om_etag meta \<noteq> blob_hash digest xof etype (concat ps)" using assms(1) by simp
  then show ?thesis
    using assms(2) by (simp add: replicate_object_def rd put_chunks_stream Let_def)
qed

definition demo_meta :: "string \<Rightarrow> object_metadata" where
  "demo_meta tag = \<lparr>om_original_filename = ''a/x'', om_filepath_uuid = ''objects/1.bin'', om_file_format = ''bin'',
     om_filesize_bytes = 3, om_etag_type = ''md5'', om_etag = tag, om_date_uploaded = Some 100,
     om_date_modified = Some 100, om_bucket_name = ''storage''\<rparr>"

definition demo_node :: "string \<Rightarrow> db \<Rightarrow> fs \<Rightarrow> node" where
  "demo_node i d f = \<lparr>node_id = i, node_engine = engine_init ''/data'', node_db = d, node_fs = f, node_events = []\<rparr>"

text \<open>A stand-in for the digest crates in the examples: a digest of one byte.\<close>

definition toy_digest :: "hash_alg \<Rightarrow> string \<Rightarrow> string" where
  "toy_digest alg bs = [byte (length bs mod 256)]"

definition toy_xof :: "nat \<Rightarrow> string \<Rightarrow> string" where
  "toy_xof n bs = replicate n (byte (length bs mod 256))"

theorem replicate_mismatch_destroys_witness:
  "fs_read ''/data/objects/1.bin''
     (node_fs (snd (replicate_object toy_digest toy_xof ascii_lower [Metadata (demo_meta ''00''), Payload ''abc''] 7
        (demo_node ''n2'' demo_db [(''/data/objects/1.bin'', ''abc'')])))) = None"
proof -
  have "blob_hash toy_digest toy_xof Md5 (concat [''abc'']) \<noteq> om_etag (demo_meta ''00'')" by code_simp
  moreover have "etag_type_from_str (om_etag_type (demo_meta ''00'')) = Some Md5" by code_simp
  ultimately obtain e n' where
    "replicate_object toy_digest toy_xof ascii_lower (Metadata (demo_meta ''00'') # map Payload [''abc'']) 7
       (demo_node ''n2'' demo_db [(''/data/objects/1.bin'', ''abc'')]) = (Inl (Internal e), n')"
    "fs_read (absolute_path_for (node_engine (demo_node ''n2'' demo_db [(''/data/objects/1.bin'', ''abc'')]))
       (om_filepath_uuid (demo_meta ''00''))) (node_fs n') = None"
    using replicate_mismatch_destroys by blast
  moreover have "absolute_path_for (node_engine (demo_node ''n2'' demo_db [(''/data/objects/1.bin'', ''abc'')]))
       (om_filepath_uuid (demo_meta ''00'')) = ''/data/objects/1.bin''" by code_simp
  ultimately show ?thesis by simp
qed

section \<open>Delivery\<close>

lemma concat_file_chunks: "concat (file_chunks bs) = bs"
proof (induction bs rule: file_chunks.induct)
  case (1 bs)
  then show ?case by (subst file_chunks.simps) simp
qed

lemma read_chunks_payloads: "read_chunks (map Payload ps) (m, qs) = (m, qs @ ps)"
  by (induction ps arbitrary: qs) auto

lemma put_delivers:
  assumes row: "get_object_by_id (obj_id r) d = Some r" and bk: "get_bucket_by_id (obj_bucket_id r) d = Some b"
    and job: "job_object_id j = Some (obj_id r)" "job_operation j = Put"
    and blob: "fs_read (absolute_path_for eng (filepath r)) f = Some bs"
      "etag r = blob_hash digest xof (obj_etag_type r) bs" "filesize_bytes r = int (length bs)"
    and name: "trim (bucket_name b) = bucket_name b" "bucket_name b \<noteq> []"
    and peer: "db_ok (node_db peer)" "get_bucket_by_name (bucket_name b) (node_db peer) = Some pb"
      "filepath r \<notin> filepath ` set (objects (node_db peer))"
      "get_object_by_filename_in_bucket (original_filename r) (bucket_id pb) (node_db peer) = None"
  shows "\<exists>peer'. process_job digest xof lower Delivered now eng f (job_view d j) peer = (Inr (), peer')
    \<and> fs_read (absolute_path_for (node_engine peer) (filepath r)) (node_fs peer') = Some bs
    \<and> (\<exists>r'. get_object_by_filename_in_bucket (original_filename r) (bucket_id pb) (node_db peer') = Some r'
         \<and> r' = r\<lparr>obj_id := obj_id r', obj_bucket_id := bucket_id pb, deleted_at := None\<rparr>)"
proof -
  define meta where "meta = put_metadata (job_view d j) (filepath r)"
  have meta: "om_original_filename meta = original_filename r" "om_filepath_uuid meta = filepath r"
    "om_file_format meta = file_format r" "om_etag_type meta = etag_type_to_string (obj_etag_type r)"
    "om_etag meta = etag r" "om_date_uploaded meta = Some (date_uploaded r)"
    "om_date_modified meta = Some (date_modified r)" "om_bucket_name meta = bucket_name b"
    using row bk job(1) by (simp_all add: meta_def put_metadata_def job_view_def Let_def)
  have req: "put_request eng f (job_view d j) = Inr (Metadata meta # map Payload (file_chunks bs))"
    using row job(1) blob(1) by (simp add: put_request_def job_view_def Let_def meta_def)
  have opn: "oj_operation (job_view d j) = ''PUT''"
    using job(2) by (simp add: job_view_def Let_def)
  define so where "so = \<lparr>so_filepath = filepath r, so_file_format = extension_from_filename lower (original_filename r),
    so_absolute_path = absolute_path_for (node_engine peer) (filepath r), so_filesize_bytes = int (length bs),
    so_etag = etag r, so_etag_type = obj_etag_type r\<rparr>"
  have put: "put_chunks digest xof lower (node_engine peer) [] (map Inr (file_chunks bs)) (original_filename r)
      (obj_etag_type r) (Some (etag r)) (Some (filepath r)) (node_fs peer)
    = (Inr so, fs_write (absolute_path_for (node_engine peer) (filepath r)) bs (node_fs peer))"
    using blob(2) by (simp add: put_chunks_stream Let_def concat_file_chunks so_def)
  have pb: "pb \<in> set (buckets (node_db peer))"
    using peer(2) unfolding get_bucket_by_name_def row_by_def by (blast dest: select_one_Some)
  have ens: "ensure_bucket (bucket_name b) now (node_db peer) = (Inr (bucket_id pb), node_db peer)"
    using peer(2) by (simp add: ensure_bucket_def)
  define r' where "r' = r\<lparr>obj_id := next_object_id (node_db peer), obj_bucket_id := bucket_id pb, deleted_at := None\<rparr>"
  define d2 where "d2 = objects_update (\<lambda>rows. rows @ [r']) (next_object_id_update (\<lambda>i. i + 1) (node_db peer))"
  have ins: "insert_object_idempotent (original_filename r) (filepath r) (file_format r) (int (length bs))
      (etag_type_to_string (obj_etag_type r)) (etag r) (Some (date_uploaded r)) (Some (date_modified r))
      (bucket_id pb) now (node_db peer) = (Inr (), d2)"
  proof -
    have "\<not> (\<exists>x \<in> set (objects (node_db peer)). filepath x = filepath r)" using peer(3) by (metis imageI)
    moreover have "\<not> (\<exists>x \<in> set (objects (node_db peer)). obj_active x \<and> obj_bucket_id x = bucket_id pb
        \<and> original_filename x = original_filename r)"
      using peer(4) by (auto simp: get_object_by_filename_in_bucket_def select_one_None)
    ultimately show ?thesis
      using pb blob(3)
      by (auto simp: insert_object_idempotent_def insert_object_row_def d2_def r'_def)
  qed
  have look: "get_object_by_filename_in_bucket (original_filename r) (bucket_id pb) d2 = Some r'"
    using peer(4) by (simp add: get_object_by_filename_in_bucket_def d2_def select_one_def find_append r'_def obj_active_def)
  have tn: "trim (bucket_name b) \<noteq> []" using name by simp
  obtain peer' where run: "replicate_object digest xof lower (Metadata meta # map Payload (file_chunks bs)) now peer
      = (Inr \<lparr>ra_success = True, ra_message = ''Object successfully replicated'', ra_etag_confirmed = etag r\<rparr>, peer')"
    and peer': "node_fs peer' = fs_write (absolute_path_for (node_engine peer) (filepath r)) bs (node_fs peer)"
      "node_db peer' = d2"
    by (simp add: replicate_object_def read_chunks_payloads meta put Let_def name ens so_def ins)
  have "process_job digest xof lower Delivered now eng f (job_view d j) peer = (Inr (), peer')"
    by (simp add: process_job_def opn req rpc_reply_def run check_ack_def)
  then show ?thesis using look peer' by (auto simp: r'_def)
qed

text \<open>C6: A PUT that is delivered makes the replica equal: sending the job of an active object whose blob
  matches its row in size and etag, and whose bucket has a name without surrounding white space, to a peer that has a
  bucket of that name and neither the blob's path nor an active object of that key in the bucket succeeds, and the
  peer then has the same bytes under the same path and a row with the same key, path, format, size, algorithm, etag and
  dates, in the bucket of the same name.\<close>

theorem replicate_put_delivers:
  assumes row: "get_object_by_id (obj_id r) d = Some r" and bk: "get_bucket_by_id (obj_bucket_id r) d = Some b"
    and job: "job_object_id j = Some (obj_id r)" "job_operation j = Put"
    and blob: "fs_read (absolute_path_for eng (filepath r)) f = Some bs"
      "etag r = blob_hash digest xof (obj_etag_type r) bs" "filesize_bytes r = int (length bs)"
    and name: "trim (bucket_name b) = bucket_name b" "bucket_name b \<noteq> []"
    and peer: "db_ok (node_db peer)" "get_bucket_by_name (bucket_name b) (node_db peer) = Some pb"
      "filepath r \<notin> filepath ` set (objects (node_db peer))"
      "get_object_by_filename_in_bucket (original_filename r) (bucket_id pb) (node_db peer) = None"
  shows "\<exists>peer'. process_job digest xof lower Delivered now eng f (job_view d j) peer = (Inr (), peer')
    \<and> fs_read (absolute_path_for (node_engine peer) (filepath r)) (node_fs peer') = Some bs
    \<and> (\<exists>r'. get_object_by_filename_in_bucket (original_filename r) (bucket_id pb) (node_db peer') = Some r'
         \<and> r' = r\<lparr>obj_id := obj_id r', obj_bucket_id := bucket_id pb, deleted_at := None\<rparr>)"
  using put_delivers [OF row bk job blob name peer] .

definition sent_object :: object_record where
  "sent_object = (demo_object 1 ''a/x'' 1 None)\<lparr>filesize_bytes := 3, etag := ''03''\<rparr>"

theorem replicate_put_delivers_witness:
  "\<exists>peer'. process_job toy_digest toy_xof ascii_lower Delivered 7 (engine_init ''/data'') [(''/data/objects/1.bin'', ''abc'')]
      (job_view (demo_db\<lparr>objects := [sent_object]\<rparr>) (new_job ''n2'' 1 ''objects/1.bin'' ''03'' Put 5 1))
      (demo_node ''n2'' (initial_db 0) []) = (Inr (), peer')
    \<and> fs_read ''/data/objects/1.bin'' (node_fs peer') = Some ''abc''"
proof -
  let ?d = "demo_db\<lparr>objects := [sent_object]\<rparr>" and ?f = "[(''/data/objects/1.bin'', ''abc'')]"
  let ?j = "new_job ''n2'' 1 ''objects/1.bin'' ''03'' Put 5 1" and ?peer = "demo_node ''n2'' (initial_db 0) []"
  let ?b = "hd (buckets (initial_db 0))"
  have "get_object_by_id (obj_id sent_object) ?d = Some sent_object"
    "get_bucket_by_id (obj_bucket_id sent_object) ?d = Some ?b"
    "job_object_id ?j = Some (obj_id sent_object)" "job_operation ?j = Put"
    "fs_read (absolute_path_for (engine_init ''/data'') (filepath sent_object)) ?f = Some ''abc''"
    "etag sent_object = blob_hash toy_digest toy_xof (obj_etag_type sent_object) ''abc''"
    "filesize_bytes sent_object = int (length ''abc'')"
    "trim (bucket_name ?b) = bucket_name ?b" "bucket_name ?b \<noteq> []"
    "db_ok (node_db ?peer)" "get_bucket_by_name (bucket_name ?b) (node_db ?peer) = Some ?b"
    "filepath sent_object \<notin> filepath ` set (objects (node_db ?peer))"
    "get_object_by_filename_in_bucket (original_filename sent_object) (bucket_id ?b) (node_db ?peer) = None"
    by code_simp+
  note replicate_put_delivers [OF this, of ascii_lower 7]
  moreover have "absolute_path_for (node_engine ?peer) (filepath sent_object) = ''/data/objects/1.bin''" by code_simp
  ultimately show ?thesis by auto
qed

lemma grant_owner_role_buckets: "grant_owner_role b d = (x, d') \<Longrightarrow> buckets d' = buckets d"
  by (auto simp: grant_owner_role_def upsert_role_permission_def insert_role_permission_def
      split: option.splits if_split_asm)

lemma ensure_bucket_found:
  "ensure_bucket nm now d = (Inr b, d') \<Longrightarrow> \<exists>x. get_bucket_by_name nm d' = Some x \<and> bucket_id x = b"
proof -
  assume run: "ensure_bucket nm now d = (Inr b, d')"
  show ?thesis
  proof (cases "get_bucket_by_name nm d")
    case (Some x)
    with run show ?thesis by (auto simp: ensure_bucket_def)
  next
    case None
    obtain r d1 where ins: "insert_bucket nm None Md5 now d = (r, d1)" by force
    with None run obtain u where r: "r = Inr b" and g: "grant_owner_role b d1 = (Inr u, d')"
      by (auto simp: ensure_bucket_def split: sum.splits prod.splits)
    have "find (\<lambda>x. bucket_name x = nm) (buckets d) = None"
      using None by (simp add: get_bucket_by_name_def row_by_def select_one_def)
    then show ?thesis
      using ins r grant_owner_role_buckets [OF g]
      by (auto simp: insert_bucket_def get_bucket_by_name_def row_by_def select_one_def find_append split: if_split_asm)
  qed
qed

lemma insert_idempotent_post:
  assumes "insert_object_idempotent k fp fmt n es tag u m b now d = (Inr (), d')"
  shows "insert_object_idempotent k fp fmt n es tag u m b' later d' = (Inr (), d')" "buckets d' = buckets d"
  using assms by (auto simp: insert_object_idempotent_def insert_object_row_def
      split: option.splits if_split_asm prod.splits sum.splits)

text \<open>Delivering a PUT again changes nothing: a replica that has accepted an object acknowledges the same
  stream again with the same etag, and its database and the blob stay as they are. So the at-least-once
  delivery of the outbox is safe.\<close>

theorem replicate_redelivery:
  assumes "replicate_object digest xof lower cs now n = (Inr ack, n')"
  shows "\<exists>n''. replicate_object digest xof lower cs later n' = (Inr ack, n'')
    \<and> node_db n'' = node_db n' \<and> (\<forall>p. fs_read p (node_fs n'') = fs_read p (node_fs n'))"
proof -
  obtain mo ps where rd: "read_chunks cs (None, []) = (mo, ps)" by force
  obtain meta where mo: "mo = Some meta" using assms rd by (cases mo) (auto simp: replicate_object_def)
  define t where "t = (case etag_type_from_str (om_etag_type meta) of Some t \<Rightarrow> t | None \<Rightarrow> Md5)"
  define p where "p = absolute_path_for (node_engine n) (om_filepath_uuid meta)"
  define so where "so = \<lparr>so_filepath = om_filepath_uuid meta,
    so_file_format = extension_from_filename lower (om_original_filename meta), so_absolute_path = p,
    so_filesize_bytes = int (length (concat ps)), so_etag = om_etag meta, so_etag_type = t\<rparr>"
  have tag: "om_etag meta = blob_hash digest xof t (concat ps)"
    using assms by (auto simp: replicate_object_def rd mo t_def [symmetric] put_chunks_stream Let_def split: if_split_asm)
  have put: "put_chunks digest xof lower (node_engine n) [] (map Inr ps) (om_original_filename meta) t
      (Some (om_etag meta)) (Some (om_filepath_uuid meta)) f = (Inr so, fs_write p (concat ps) f)" for f
    using tag by (simp add: put_chunks_stream Let_def so_def p_def)
  define nm where "nm = (if trim (om_bucket_name meta) = [] then ''storage'' else trim (om_bucket_name meta))"
  obtain b d1 where ens: "ensure_bucket nm now (node_db n) = (Inr b, d1)"
    using assms by (cases "ensure_bucket nm now (node_db n)"; cases "fst (ensure_bucket nm now (node_db n))")
      (auto simp: replicate_object_def rd mo t_def [symmetric] put nm_def [symmetric] Let_def)
  let ?ins = "\<lambda>b now d. insert_object_idempotent (om_original_filename meta) (so_filepath so) (om_file_format meta)
    (so_filesize_bytes so) (om_etag_type meta) (so_etag so) (om_date_uploaded meta) (om_date_modified meta) b now d"
  obtain d2 where ins: "?ins b now d1 = (Inr (), d2)"
    using assms by (cases "?ins b now d1"; cases "fst (?ins b now d1)")
      (auto simp: replicate_object_def rd mo t_def [symmetric] put nm_def [symmetric] ens Let_def)
  have ack: "ack = \<lparr>ra_success = True, ra_message = ''Object successfully replicated'', ra_etag_confirmed = so_etag so\<rparr>"
    and n': "node_engine n' = node_engine n" "node_db n' = d2" "node_fs n' = fs_write p (concat ps) (node_fs n)"
    using assms by (auto simp: replicate_object_def rd mo t_def [symmetric] put nm_def [symmetric] ens ins Let_def)
  obtain x where "get_bucket_by_name nm d1 = Some x" "bucket_id x = b" using ensure_bucket_found [OF ens] by blast
  then have ens2: "ensure_bucket nm later d2 = (Inr b, d2)"
    using insert_idempotent_post(2) [OF ins] by (simp add: ensure_bucket_def get_bucket_by_name_def)
  note put2 = put [of "node_fs n'", folded n'(1)]
  note ins2 = insert_idempotent_post(1) [OF ins, of b later]
  have "\<exists>n''. replicate_object digest xof lower cs later n' = (Inr ack, n'') \<and> node_db n'' = d2
      \<and> node_fs n'' = fs_write p (concat ps) (node_fs n')"
    by (simp add: replicate_object_def rd mo t_def [symmetric] put2 nm_def [symmetric] n'(2) ens2 ins2 Let_def ack)
  then show ?thesis using n' by auto
qed

theorem replicate_redelivery_witness:
  "let cs = [Metadata (demo_meta ''03''), Payload ''abc''];
       n' = snd (replicate_object toy_digest toy_xof ascii_lower cs 7 (demo_node ''n2'' (initial_db 0) [])) in
   map original_filename (objects (node_db n')) = [''a/x'']
   \<and> objects (node_db (snd (replicate_object toy_digest toy_xof ascii_lower cs 9 n'))) = objects (node_db n')"
proof -
  let ?cs = "[Metadata (demo_meta ''03''), Payload ''abc'']"
  let ?run = "replicate_object toy_digest toy_xof ascii_lower ?cs 7 (demo_node ''n2'' (initial_db 0) [])"
  let ?ack = "\<lparr>ra_success = True, ra_message = ''Object successfully replicated'', ra_etag_confirmed = ''03''\<rparr>"
  have "fst ?run = Inr ?ack" by code_simp
  then have "?run = (Inr ?ack, snd ?run)" by (simp only: prod_eq_iff fst_conv snd_conv simp_thms)
  from replicate_redelivery [OF this, of 9]
  have "node_db (snd (replicate_object toy_digest toy_xof ascii_lower ?cs 9 (snd ?run))) = node_db (snd ?run)"
    by (elim exE conjE) (simp only: snd_conv)
  moreover have "map original_filename (objects (node_db (snd ?run))) = [''a/x'']" by code_simp
  ultimately show ?thesis unfolding Let_def by (simp only: simp_thms)
qed
end
