(* ===== verification/Queue.thy ===== *)
theory Queue
  imports Invariants
begin

text \<open>
  What the replication queue promises (\<open>src/db/repository.rs\<close>, \<open>src/cluster/outbox.rs\<close>): who gets a
  job, that a claim is exclusive, how a failed job comes back, what happens to a job whose worker
  dies, and the rules on a bucket's nodes and quotas.
\<close>

section \<open>Who gets a copy\<close>

lemma enumerate_shift:
  "map (\<lambda>(k, p). f p (c + int k)) (enumerate (Suc n) ps) = map (\<lambda>(k, p). f p (c + 1 + int k)) (enumerate n ps)"
  by (induction ps arbitrary: n) (simp_all add: algebra_simps)

lemma foldl_insert_job:
  "outbox (foldl (\<lambda>d p. insert_job (mk p) d) d ps)
     = outbox d @ map (\<lambda>(k, p). mk p (next_job_id d + int k)) (enumerate 0 ps)"
proof (induction ps arbitrary: d)
  case (Cons p ps)
  show ?case
    by (simp add: Cons.IH) (simp add: insert_job_def enumerate_shift)
qed simp

definition is_target :: "int \<Rightarrow> string \<Rightarrow> db \<Rightarrow> cluster_peer \<Rightarrow> bool" where
  "is_target bid loc d p \<longleftrightarrow> is_active p \<and> peer_id p \<noteq> loc \<and> peer_should_receive_bucket (peer_id p) bid d"

lemma peer_should_receive_iff:
  assumes "db_ok d" "get_bucket_by_id b d = Some bk"
  shows "peer_should_receive_bucket p b d \<longleftrightarrow> replicate_to_all bk \<or> node_row b p d \<noteq> None"
proof -
  have ids: "keyed_ok bucket_id (buckets d) (next_bucket_id d)" using assms(1) unfolding db_ok_parts by simp
  have bk: "bk \<in> set (buckets d)" "bucket_id bk = b"
    using assms(2) unfolding get_bucket_by_id_def using bkt_tbl.row_mem by blast+
  have "x = bk" if "x \<in> set (buckets d)" "bucket_id x = b" for x
    using keyed_ok_eqD [OF ids that(1) bk(1)] that bk by simp
  then show ?thesis
    unfolding peer_should_receive_bucket_def select_one_None using bk by blast
qed

lemma enqueue_jobs:
  assumes "db_ok d" and "get_object_by_id oid d = Some r"
    and "enqueue_for_active_peers opn oid fp tag loc now d = (n, d')"
  shows "\<exists>js. outbox d' = outbox d @ js
    \<and> map job_peer_id js = map peer_id (filter (is_target (obj_bucket_id r) loc d) (peers d))
    \<and> (\<forall>j \<in> set js. job_object_id j = Some oid \<and> job_filepath_uuid j = fp \<and> job_etag j = tag
         \<and> job_operation j = opn \<and> job_status j = Pending \<and> next_retry_utc j = now)
    \<and> n = int (length js) \<and> distinct (map job_peer_id js)"
proof -
  have r: "r \<in> set (objects d)"
    using assms(2) unfolding get_object_by_id_def by (blast dest: obj_tbl.row_mem)
  have "fk obj_bucket_id (objects d) (bucket_id ` set (buckets d))" using assms(1) unfolding db_ok_parts by simp
  with r have "obj_bucket_id r \<in> bucket_id ` set (buckets d)" by (simp add: fk_def)
  then obtain bk where bk: "get_bucket_by_id (obj_bucket_id r) d = Some bk"
    unfolding get_bucket_by_id_def using bkt_tbl.row_None by (metis not_Some_eq)
  have bid: "bucket_id bk = obj_bucket_id r"
    using bk unfolding get_bucket_by_id_def by (blast dest: bkt_tbl.row_mem)
  have tp: "target_peers oid loc d = filter (is_target (obj_bucket_id r) loc d) (peers d)"
    using assms(2) bk peer_should_receive_iff [OF assms(1) bk]
    by (auto simp: target_peers_def select_where_def is_target_def bid intro!: filter_cong)
  define js where "js = map (\<lambda>(k, p). new_job (peer_id p) oid fp tag opn now (next_job_id d + int k))
      (enumerate 0 (target_peers oid loc d))"
  have peers: "map job_peer_id js = map peer_id (target_peers oid loc d)"
    by (rule nth_equalityI) (simp_all add: js_def new_job_def nth_enumerate_eq)
  have "uniq peer_id (peers d)" using assms(1) unfolding db_ok_parts by simp
  then have "distinct (map job_peer_id js)"
    unfolding peers tp uniq_def by (rule distinct_map_filter)
  moreover have "outbox d' = outbox d @ js" "n = int (length js)"
    using assms(3) unfolding enqueue_for_active_peers_def Let_def js_def by (auto simp: foldl_insert_job)
  moreover have "\<forall>j \<in> set js. job_object_id j = Some oid \<and> job_filepath_uuid j = fp \<and> job_etag j = tag
         \<and> job_operation j = opn \<and> job_status j = Pending \<and> next_retry_utc j = now"
    by (auto simp: js_def new_job_def)
  ultimately show ?thesis using peers tp by auto
qed

text \<open>C20: A change of an object is queued exactly once for each peer that should have its bucket: active,
  not this node, and either chosen by \<open>replicate_to_all\<close> or assigned to the bucket. The two queries
  that decide this, in the enqueue statement and in \<open>peer_should_receive_bucket\<close>, agree.\<close>

theorem enqueue_exact:
  assumes "db_ok d" and "get_object_by_id oid d = Some r"
    and "enqueue_for_active_peers opn oid fp tag loc now d = (n, d')"
  shows "\<exists>js. outbox d' = outbox d @ js
    \<and> map job_peer_id js = map peer_id (filter (is_target (obj_bucket_id r) loc d) (peers d))
    \<and> (\<forall>j \<in> set js. job_object_id j = Some oid \<and> job_filepath_uuid j = fp \<and> job_etag j = tag
         \<and> job_operation j = opn \<and> job_status j = Pending \<and> next_retry_utc j = now)
    \<and> n = int (length js) \<and> distinct (map job_peer_id js)"
  by (rule enqueue_jobs [OF assms])

definition queue_demo :: db where
  "queue_demo = demo_db\<lparr>peers := [\<lparr>peer_id = ''n1'', wireguard_endpoint = ''h:1'', is_active = True, last_heartbeat_utc = None\<rparr>,
     \<lparr>peer_id = ''n2'', wireguard_endpoint = ''h:2'', is_active = True, last_heartbeat_utc = None\<rparr>,
     \<lparr>peer_id = ''n3'', wireguard_endpoint = ''h:3'', is_active = False, last_heartbeat_utc = None\<rparr>]\<rparr>"

lemma queue_demo_ok: "db_ok queue_demo"
  by code_simp

theorem enqueue_exact_witness:
  "map job_peer_id (outbox (snd (enqueue_for_active_peers Put 1 ''objects/1.bin'' ''e'' ''n1'' 5 queue_demo))) = [''n2'']"
proof -
  let ?r = "demo_object 1 ''a/x'' 1 None"
  have r: "get_object_by_id 1 queue_demo = Some ?r" by code_simp
  have "filter (is_target (obj_bucket_id ?r) ''n1'' queue_demo) (peers queue_demo)
     = [\<lparr>peer_id = ''n2'', wireguard_endpoint = ''h:2'', is_active = True, last_heartbeat_utc = None\<rparr>]"
    by code_simp
  moreover have "outbox queue_demo = []" by (simp add: queue_demo_def demo_db_def initial_db_def)
  ultimately show ?thesis
    using enqueue_exact [OF queue_demo_ok r prod.collapse [symmetric], of Put "''objects/1.bin''" "''e''" "''n1''" 5]
    by auto
qed

section \<open>Claiming\<close>

lemma foldl_in_flight:
  "foldl (\<lambda>d j. set_in_flight (oj_id j) d) d js
     = outbox_update (update_where (\<lambda>j. job_id j \<in> oj_id ` set js) (\<lambda>j. j\<lparr>job_status := InFlight\<rparr>)) d"
proof (induction js arbitrary: d)
  case Nil
  then show ?case by (simp add: update_where_def)
next
  case (Cons j js)
  have "foldl (\<lambda>d j. set_in_flight (oj_id j) d) d (j # js)
      = outbox_update (update_where (\<lambda>j. job_id j \<in> oj_id ` set js) (\<lambda>j. j\<lparr>job_status := InFlight\<rparr>))
          (set_in_flight (oj_id j) d)"
    by (simp add: Cons.IH)
  also have "\<dots> = outbox_update (update_where (\<lambda>k. job_id k \<in> oj_id ` set (j # js)) (\<lambda>j. j\<lparr>job_status := InFlight\<rparr>)) d"
    by (cases d) (auto simp: set_in_flight_def update_where_def)
  finally show ?case .
qed

lemma oj_id_view [simp]: "oj_id (job_view d j) = job_id j"
  by (simp add: job_view_def Let_def)

lemma set_claimed: "set (claimed_rows n now d) \<subseteq> {j \<in> set (outbox d). claimable now d j}"
  unfolding claimed_rows_def sql_limit_def
  by (auto simp: set_select_where dest!: in_set_takeD)

section \<open>The life of a job\<close>

text \<open>
  What can happen to the queue while one job \<open>i\<close> is in flight and the worker that claimed it does not
  report back: claims, new jobs, and the end of other jobs.
\<close>

definition in_flight :: "int \<Rightarrow> db \<Rightarrow> bool" where
  "in_flight i d \<longleftrightarrow> (\<exists>j \<in> set (outbox d). job_id j = i \<and> job_status j = InFlight) \<and> db_ok d"

inductive queue_step :: "int \<Rightarrow> db \<Rightarrow> db \<Rightarrow> bool" for i where
  claim: "claim_outbox_jobs n now d = (js, d') \<Longrightarrow> queue_step i d d'"
| enqueue: "enqueue_for_active_peers opn oid fp tag loc now d = (n, d') \<Longrightarrow> queue_step i d d'"
| enqueue_peer: "enqueue_put_for_peer p oid fp tag now d = (r, d') \<Longrightarrow> queue_step i d d'"
| complete_other: "k \<noteq> i \<Longrightarrow> queue_step i d (complete_outbox_job k d)"
| fail_other: "k \<noteq> i \<Longrightarrow> queue_step i d (fail_outbox_job k now d)"

lemma claim_outbox:
  "outbox (snd (claim_outbox_jobs n now d))
     = update_where (\<lambda>j. job_id j \<in> job_id ` set (claimed_rows n now d)) (\<lambda>j. j\<lparr>job_status := InFlight\<rparr>) (outbox d)"
  by (simp add: claim_outbox_jobs_def Let_def foldl_in_flight image_image)

interpretation stuck: invariant_system "in_flight i" "queue_step i" "in_flight i" for i
proof
  show "in_flight i d \<Longrightarrow> queue_step i d d' \<Longrightarrow> in_flight i d'" for d d'
  proof (erule queue_step.cases)
    assume f: "in_flight i d"
    then obtain j where j: "j \<in> set (outbox d)" "job_id j = i" "job_status j = InFlight" and ok: "db_ok d"
      by (auto simp: in_flight_def)
    show "in_flight i d'" if "d = da" "d' = d'a" "claim_outbox_jobs n now da = (js, d'a)" for da d'a n now js
    proof -
      have "(if job_id j \<in> job_id ` set (claimed_rows n now d) then j\<lparr>job_status := InFlight\<rparr> else j) \<in> set (outbox d')"
        using mem_update_where [OF j(1), of "\<lambda>j. job_id j \<in> job_id ` set (claimed_rows n now d)" "\<lambda>j. j\<lparr>job_status := InFlight\<rparr>"]
          claim_outbox [of n now d] that by simp
      then show ?thesis using j ok claim_outbox_jobs_ok [OF that(3)] that(1,2)
        unfolding in_flight_def by (intro conjI bexI) auto
    qed
    show "in_flight i d'" if "d = da" "d' = d'a" "enqueue_for_active_peers opn oid fp tag loc now da = (n, d'a)"
      for da d'a opn oid fp tag loc now n
      using that j ok enqueue_ok [OF that(3)]
      by (auto simp: in_flight_def enqueue_for_active_peers_def Let_def foldl_insert_job)
    show "in_flight i d'" if "d = da" "d' = d'a" "enqueue_put_for_peer p oid fp tag now da = (r, d'a)"
      for da d'a p oid fp tag now r
      using that j ok enqueue_put_for_peer_ok [OF that(3)]
      by (auto simp: in_flight_def enqueue_put_for_peer_def insert_job_def split: if_split_asm)
    show "in_flight i d'" if "d = da" "d' = complete_outbox_job k da" "k \<noteq> i" for da k
      using that j ok complete_outbox_job_ok [of d k]
      by (auto simp: in_flight_def complete_outbox_job_def set_delete_where)
    show "in_flight i d'" if "d = da" "d' = fail_outbox_job k now da" "k \<noteq> i" for da k now
    proof -
      have "j \<in> set (outbox d')"
        using mem_update_where [OF j(1), of "\<lambda>x. job_id x = k" "fail_job now"] that j(2)
        by (simp add: fail_outbox_job_def)
      then show ?thesis using that j ok fail_outbox_job_ok [of d k now] by (auto simp: in_flight_def)
    qed
  qed
qed auto

lemma in_flight_not_claimed:
  assumes "in_flight i d" shows "i \<notin> set (map oj_id (fst (claim_outbox_jobs n now d)))"
proof
  assume "i \<in> set (map oj_id (fst (claim_outbox_jobs n now d)))"
  then obtain k where k: "k \<in> set (claimed_rows n now d)" "job_id k = i"
    by (auto simp: claim_outbox_jobs_def Let_def)
  then have "k \<in> set (outbox d)" "job_status k \<noteq> InFlight"
    using set_claimed [of n now d] by (auto simp: claimable_def)
  moreover obtain j where "j \<in> set (outbox d)" "job_id j = i" "job_status j = InFlight" and "db_ok d"
    using assms by (auto simp: in_flight_def)
  moreover have "keyed_ok job_id (outbox d) (next_job_id d)" using \<open>db_ok d\<close> unfolding db_ok_parts by simp
  ultimately show False using k(2) keyed_ok_eqD by metis
qed

section \<open>What a claim hands out\<close>

text \<open>A job that may be handed out: not in flight, its time come, its peer known and active.\<close>

definition is_due :: "time \<Rightarrow> db \<Rightarrow> outbox_row \<Rightarrow> bool" where
  "is_due now d j \<longleftrightarrow> (job_status j = Pending \<or> job_status j = Failed) \<and> next_retry_utc j \<le> now
     \<and> (\<exists>p \<in> set (peers d). peer_id p = job_peer_id j \<and> is_active p)"

lemma claimable_due: "claimable now d j \<longleftrightarrow> is_due now d j"
  by (auto simp: claimable_def is_due_def active_peer_def select_one_None)

lemma claim_result:
  assumes "db_ok d" and "claim_outbox_jobs n now d = (js, d')"
  shows "js = map (job_view d) (claimed_rows n now d)"
    and "outbox d' = map (\<lambda>j. if job_id j \<in> set (map oj_id js) then j\<lparr>job_status := InFlight\<rparr> else j) (outbox d)"
proof -
  show js: "js = map (job_view d) (claimed_rows n now d)"
    using assms(2) unfolding claim_outbox_jobs_def Let_def by simp
  show "outbox d' = map (\<lambda>j. if job_id j \<in> set (map oj_id js) then j\<lparr>job_status := InFlight\<rparr> else j) (outbox d)"
    using assms(2) claim_outbox [of n now d] by (simp add: js update_where_def image_image)
qed

lemma claimed_order:
  fixes d :: db and now :: time and n :: int
  assumes ok: "db_ok d"
  defines "D \<equiv> {job_id j |j. j \<in> set (outbox d) \<and> is_due now d j}"
  shows "sorted_wrt (<) (map job_id (claimed_rows n now d))"
    and "\<forall>j \<in> set (claimed_rows n now d). j \<in> set (outbox d) \<and> is_due now d j"
    and "\<forall>i \<in> set (map job_id (claimed_rows n now d)). \<forall>k \<in> D - set (map job_id (claimed_rows n now d)). i < k"
    and "length (claimed_rows n now d) = (if n < 0 then card D else min (nat n) (card D))"
proof -
  define S where "S = sort_key job_id (select_where (claimable now d) (outbox d))"
  have ids: "distinct (map job_id (outbox d))" using ok by (simp add: db_ok_parts keyed_ok_def)
  have mem: "set S = {j \<in> set (outbox d). is_due now d j}" by (simp add: S_def set_select_where claimable_due)
  then have D: "set (map job_id S) = D" by (auto simp: D_def)
  have "distinct (map job_id (select_where (claimable now d) (outbox d)))"
    unfolding select_where_def using ids by (rule distinct_map_filter)
  then have dist: "distinct (map job_id S)" by (simp add: S_def distinct_map)
  then have card: "card D = length S" unfolding D [symmetric] by (metis distinct_card length_map)
  have sorted: "sorted_wrt (<) (map job_id S)" using dist by (simp add: strict_sorted_iff S_def)
  have rows: "claimed_rows n now d = (if n < 0 then S else take (nat n) S)" by (simp add: claimed_rows_def sql_limit_def S_def)
  obtain rest where split: "S = claimed_rows n now d @ rest" unfolding rows
    using append_take_drop_id [of "nat n" S] by (metis append_Nil2)
  show "sorted_wrt (<) (map job_id (claimed_rows n now d))" using sorted unfolding split by (simp add: sorted_wrt_append)
  show "\<forall>j \<in> set (claimed_rows n now d). j \<in> set (outbox d) \<and> is_due now d j" using mem unfolding split by auto
  show "\<forall>i \<in> set (map job_id (claimed_rows n now d)). \<forall>k \<in> D - set (map job_id (claimed_rows n now d)). i < k"
    using sorted unfolding D [symmetric] split by (auto simp: sorted_wrt_append)
  show "length (claimed_rows n now d) = (if n < 0 then card D else min (nat n) (card D))"
    by (simp add: rows card min_def)
qed

text \<open>C28: A claim hands out the due jobs (pending or failed, their time come, for an active peer) with the smallest
  ids, in order and as many as asked for, each with the data of its row, and marks exactly them as in flight. None of
  them is handed out again by any claim, at any later time and after any other operations of the queue, until that job
  itself is reported done or failed.\<close>

theorem claim_exclusive:
  assumes "db_ok d" and "claim_outbox_jobs n now d = (js, d')"
  shows "let ids = map oj_id js; D = {job_id j |j. j \<in> set (outbox d) \<and> is_due now d j} in
      sorted_wrt (<) ids \<and> set ids \<subseteq> D \<and> (\<forall>i \<in> set ids. \<forall>k \<in> D - set ids. i < k)
    \<and> length ids = (if n < 0 then card D else min (nat n) (card D))
    \<and> (\<forall>x \<in> set js. \<exists>j \<in> set (outbox d). x = job_view d j)
    \<and> outbox d' = map (\<lambda>j. if job_id j \<in> set ids then j\<lparr>job_status := InFlight\<rparr> else j) (outbox d)
    \<and> (\<forall>i \<in> set ids. \<forall>d'' m later. (queue_step i)\<^sup>*\<^sup>* d' d'' \<longrightarrow>
        i \<notin> set (map oj_id (fst (claim_outbox_jobs m later d''))))"
proof -
  note js = claim_result [OF assms] and rows = claimed_order [OF assms(1), where now = now and n = n]
  have ids: "map oj_id js = map job_id (claimed_rows n now d)" by (simp add: js(1))
  have "i \<notin> set (map oj_id (fst (claim_outbox_jobs m later d'')))"
    if "i \<in> set (map oj_id js)" "(queue_step i)\<^sup>*\<^sup>* d' d''" for i d'' m later
  proof -
    from that(1) rows(2) obtain j where "j \<in> set (outbox d)" "job_id j = i" unfolding ids by auto
    then have "j\<lparr>job_status := InFlight\<rparr> \<in> set (outbox d')" "job_id (j\<lparr>job_status := InFlight\<rparr>) = i"
      using that(1) unfolding js(2) by force+
    then have "in_flight i d'" using claim_outbox_jobs_ok [OF assms(2,1)] unfolding in_flight_def by fastforce
    then show ?thesis using stuck.reachable_inv [OF _ that(2)] in_flight_not_claimed by blast
  qed
  moreover have "set (map oj_id js) \<subseteq> {job_id j |j. j \<in> set (outbox d) \<and> is_due now d j}"
    using rows(2) unfolding ids by auto
  moreover have "\<forall>x \<in> set js. \<exists>j \<in> set (outbox d). x = job_view d j" using rows(2) unfolding js(1) by auto
  moreover have "length (map oj_id js) = (if n < 0 then card {job_id j |j. j \<in> set (outbox d) \<and> is_due now d j}
      else min (nat n) (card {job_id j |j. j \<in> set (outbox d) \<and> is_due now d j}))"
    using rows(4) by (simp only: ids length_map)
  ultimately show ?thesis using rows(1,3) [folded ids] js(2) unfolding Let_def by blast
qed

theorem claim_exclusive_witness:
  "let d = snd (enqueue_for_active_peers Put 1 ''objects/1.bin'' ''e'' ''n1'' 5 queue_demo);
       d' = snd (claim_outbox_jobs 50 5 d) in
   map oj_id (fst (claim_outbox_jobs 50 5 d)) = [1]
   \<and> 1 \<notin> set (map oj_id (fst (claim_outbox_jobs 50 1000000 (snd (claim_outbox_jobs 50 9 d')))))"
proof -
  let ?d = "snd (enqueue_for_active_peers Put 1 ''objects/1.bin'' ''e'' ''n1'' 5 queue_demo)"
  let ?d' = "snd (claim_outbox_jobs 50 5 ?d)"
  have ok: "db_ok ?d" using enqueue_ok [OF prod.collapse [symmetric] queue_demo_ok] .
  have one: "map oj_id (fst (claim_outbox_jobs 50 5 ?d)) = [1]" by code_simp
  have "(queue_step 1)\<^sup>*\<^sup>* ?d' (snd (claim_outbox_jobs 50 9 ?d'))"
    by (intro r_into_rtranclp queue_step.claim [OF prod.collapse [symmetric]])
  moreover have "\<forall>i \<in> set (map oj_id (fst (claim_outbox_jobs 50 5 ?d))). \<forall>d'' m later. (queue_step i)\<^sup>*\<^sup>* ?d' d'' \<longrightarrow>
      i \<notin> set (map oj_id (fst (claim_outbox_jobs m later d'')))"
    using claim_exclusive [OF ok prod.collapse [symmetric], of 50 5] unfolding Let_def by (elim conjE)
  ultimately show ?thesis using one unfolding Let_def one by simp
qed

section \<open>Jobs that are stranded\<close>

text \<open>A job in flight whose worker never reports is lost for good: as long as it is not completed or
  failed, nothing else that happens to the queue makes it claimable again, at any later time. No
  operation resets it, so a crash between claim and report strands the job.\<close>

theorem in_flight_stranded:
  assumes "in_flight i d" and "(queue_step i)\<^sup>*\<^sup>* d d'"
  shows "i \<notin> set (map oj_id (fst (claim_outbox_jobs n now d'))) \<and> in_flight i d'"
  using stuck.reachable_inv [OF assms] in_flight_not_claimed by blast

theorem in_flight_stranded_witness:
  "let d = snd (claim_outbox_jobs 50 5 (snd (enqueue_for_active_peers Put 1 ''objects/1.bin'' ''e'' ''n1'' 5 queue_demo)))
   in 1 \<notin> set (map oj_id (fst (claim_outbox_jobs 50 1000000 d)))"
proof -
  let ?d = "snd (claim_outbox_jobs 50 5 (snd (enqueue_for_active_peers Put 1 ''objects/1.bin'' ''e'' ''n1'' 5 queue_demo)))"
  have "in_flight 1 ?d" by code_simp
  from in_flight_stranded [OF this rtranclp.rtrancl_refl] show ?thesis unfolding Let_def by blast
qed

text \<open>The heal of the anti-entropy round does not help a stranded PUT: while a PUT of the same blob to
  the same peer is in flight, enqueuing another one does nothing.\<close>

theorem in_flight_blocks_enqueue:
  assumes "j \<in> set (outbox d)" and "job_status j = InFlight" and "job_operation j = Put"
  shows "enqueue_put_for_peer (job_peer_id j) oid (job_filepath_uuid j) tag now d = (Inr (), d)"
  using assms by (auto simp: enqueue_put_for_peer_def select_one_None)

theorem in_flight_blocks_enqueue_witness:
  "let d = snd (claim_outbox_jobs 50 5 (snd (enqueue_for_active_peers Put 1 ''objects/1.bin'' ''e'' ''n1'' 5 queue_demo)))
   in enqueue_put_for_peer ''n2'' 1 ''objects/1.bin'' ''e2'' 1000000 d = (Inr (), d)"
proof -
  let ?d = "snd (claim_outbox_jobs 50 5 (snd (enqueue_for_active_peers Put 1 ''objects/1.bin'' ''e'' ''n1'' 5 queue_demo)))"
  let ?j = "\<lparr>job_id = 1, job_peer_id = ''n2'', job_object_id = Some 1, job_filepath_uuid = ''objects/1.bin'',
    job_etag = ''e'', job_operation = Put, job_status = InFlight, attempt_count = 0, next_retry_utc = 5\<rparr>"
  have "?j \<in> set (outbox ?d)" by code_simp
  from in_flight_blocks_enqueue [OF this, of 1 "''e2''" 1000000] show ?thesis by (simp add: Let_def)
qed

text \<open>C36: A failed job is not given up: it becomes due again, after a delay that grows by 30 seconds with
  every attempt, and from then on it is claimable whenever its peer is active.\<close>

theorem failed_job_retried:
  assumes "j \<in> set (outbox d)" and "active_peer (job_peer_id j) d"
  shows "\<exists>k \<in> set (outbox (fail_outbox_job (job_id j) now d)).
    job_id k = job_id j \<and> attempt_count k = attempt_count j + 1
    \<and> (\<forall>t. claimable t (fail_outbox_job (job_id j) now d) k \<longleftrightarrow> now + 30 * (attempt_count j + 1) \<le> t)"
proof
  show "fail_job now j \<in> set (outbox (fail_outbox_job (job_id j) now d))"
    using mem_update_where [OF assms(1), of "\<lambda>x. job_id x = job_id j" "fail_job now"]
    by (simp add: fail_outbox_job_def)
  show "job_id (fail_job now j) = job_id j \<and> attempt_count (fail_job now j) = attempt_count j + 1
    \<and> (\<forall>t. claimable t (fail_outbox_job (job_id j) now d) (fail_job now j)
          \<longleftrightarrow> now + 30 * (attempt_count j + 1) \<le> t)"
    using assms(2) by (auto simp: fail_job_def claimable_def active_peer_def fail_outbox_job_def)
qed

theorem failed_job_retried_witness:
  "let d = snd (enqueue_for_active_peers Put 1 ''objects/1.bin'' ''e'' ''n1'' 5 queue_demo) in
   \<exists>k \<in> set (outbox (fail_outbox_job 1 100 d)). job_id k = 1 \<and> attempt_count k = 1
     \<and> (\<forall>t. claimable t (fail_outbox_job 1 100 d) k \<longleftrightarrow> 130 \<le> t)"
proof -
  let ?d = "snd (enqueue_for_active_peers Put 1 ''objects/1.bin'' ''e'' ''n1'' 5 queue_demo)"
  let ?j = "new_job ''n2'' 1 ''objects/1.bin'' ''e'' Put 5 1"
  have "?j \<in> set (outbox ?d)" "active_peer (job_peer_id ?j) ?d" by code_simp+
  from failed_job_retried [OF this, of 100] show ?thesis by (simp add: new_job_def Let_def)
qed

section \<open>Quotas and nodes\<close>

lemma check_rows_Inr: "check_rows p u g rows = Inr () \<longleftrightarrow> (\<forall>r \<in> set rows. p \<le> allocated_bytes r)"
  by (induction rows) auto

lemma hard_quota_iff:
  "check_hard_quota b growth d = Inr () \<longleftrightarrow>
     growth \<le> 0 \<or> (\<forall>n \<in> set (repl_peers d). bna_bucket_id n = b \<longrightarrow> quota_mode n = Hard \<longrightarrow>
        saturating_add (bucket_used_bytes b d) growth \<le> allocated_bytes n)"
  by (auto simp: check_hard_quota_def check_rows_Inr Let_def set_select_where)

text \<open>C35: An upload passes the quota check exactly if it does not grow the bucket or the grown bucket fits on
  every node with a hard quota; soft quotas never refuse.\<close>

theorem check_hard_quota_iff:
  "check_hard_quota b growth d = Inr () \<longleftrightarrow>
     growth \<le> 0 \<or> (\<forall>n \<in> set (repl_peers d). bna_bucket_id n = b \<longrightarrow> quota_mode n = Hard \<longrightarrow>
        saturating_add (bucket_used_bytes b d) growth \<le> allocated_bytes n)"
  by (rule hard_quota_iff)

definition quota_demo :: db where
  "quota_demo = queue_demo\<lparr>repl_peers := [\<lparr>bna_bucket_id = 1, bna_peer_id = ''n2'',
     allocated_bytes = 100, quota_mode = Hard\<rparr>]\<rparr>"

theorem check_hard_quota_iff_witness:
  "check_hard_quota 1 101 quota_demo \<noteq> Inr () \<and> check_hard_quota 1 0 quota_demo = Inr ()"
proof -
  let ?n = "\<lparr>bna_bucket_id = 1, bna_peer_id = ''n2'', allocated_bytes = 100, quota_mode = Hard\<rparr>"
  have "?n \<in> set (repl_peers quota_demo)" "bna_bucket_id ?n = 1" "quota_mode ?n = Hard"
    "\<not> saturating_add (bucket_used_bytes 1 quota_demo) 101 \<le> allocated_bytes ?n" by code_simp+
  then have "check_hard_quota 1 101 quota_demo \<noteq> Inr ()"
    unfolding check_hard_quota_iff [of 1 101 quota_demo] by (metis not_numeral_le_zero)
  moreover have "check_hard_quota 1 0 quota_demo = Inr ()" by code_simp
  ultimately show ?thesis ..
qed

text \<open>Removing a node from a bucket never removes this node and never leaves the bucket without one.\<close>

theorem remove_bucket_node_keeps:
  assumes "db_ok d" and "remove_bucket_node b p loc d = (Inr (), d')"
  shows "node_row b p d' = None \<and> (\<exists>n \<in> set (repl_peers d'). bna_bucket_id n = b)
    \<and> (\<forall>n. n \<in> set (repl_peers d) \<longrightarrow> bna_peer_id n = loc \<longrightarrow> n \<in> set (repl_peers d'))"
proof -
  let ?mine = "filter (\<lambda>n. bna_bucket_id n = b) (repl_peers d)"
  have d': "repl_peers d' = delete_where (\<lambda>n. bna_bucket_id n = b \<and> bna_peer_id n = p) (repl_peers d)"
    and ne: "p \<noteq> loc" and two: "1 < count_where (\<lambda>n. bna_bucket_id n = b) (repl_peers d)"
    using assms(2) by (auto simp: remove_bucket_node_def clear_replicate_to_all_def split: if_split_asm)
  have "uniq (\<lambda>n. (bna_bucket_id n, bna_peer_id n)) (repl_peers d)" using assms(1) unfolding db_ok_parts by simp
  then have "distinct (map (\<lambda>n. (bna_bucket_id n, bna_peer_id n)) ?mine)"
    unfolding uniq_def by (rule distinct_map_filter)
  moreover from two obtain x y zs where m: "?mine = x # y # zs"
    unfolding count_where_def by (cases ?mine rule: remdups_adj.cases) auto
  moreover have "bna_bucket_id x = b" "bna_bucket_id y = b" "x \<in> set (repl_peers d)" "y \<in> set (repl_peers d)"
  proof -
    have "x \<in> set ?mine" "y \<in> set ?mine" by (simp_all only: m list.set insert_iff simp_thms)
    then show "bna_bucket_id x = b" "bna_bucket_id y = b" "x \<in> set (repl_peers d)" "y \<in> set (repl_peers d)"
      by simp_all
  qed
  ultimately have "\<exists>n \<in> set (repl_peers d'). bna_bucket_id n = b"
    unfolding d' set_delete_where by auto
  moreover have "node_row b p d' = None"
    unfolding node_row_def row_by_def select_one_None d' by (auto simp: set_delete_where)
  ultimately show ?thesis using ne by (auto simp: d' set_delete_where)
qed

theorem remove_bucket_node_keeps_witness:
  "let d = queue_demo\<lparr>repl_peers := [\<lparr>bna_bucket_id = 1, bna_peer_id = ''n1'', allocated_bytes = 5, quota_mode = Soft\<rparr>,
      \<lparr>bna_bucket_id = 1, bna_peer_id = ''n2'', allocated_bytes = 5, quota_mode = Soft\<rparr>]\<rparr> in
   node_row 1 ''n2'' (snd (remove_bucket_node 1 ''n2'' ''n1'' d)) = None"
proof -
  let ?d = "queue_demo\<lparr>repl_peers := [\<lparr>bna_bucket_id = 1, bna_peer_id = ''n1'', allocated_bytes = 5, quota_mode = Soft\<rparr>,
      \<lparr>bna_bucket_id = 1, bna_peer_id = ''n2'', allocated_bytes = 5, quota_mode = Soft\<rparr>]\<rparr>"
  have ok: "db_ok ?d" by code_simp
  have "fst (remove_bucket_node 1 ''n2'' ''n1'' ?d) = Inr ()" by code_simp
  then have "remove_bucket_node 1 ''n2'' ''n1'' ?d = (Inr (), snd (remove_bucket_node 1 ''n2'' ''n1'' ?d))"
    by (metis prod.collapse)
  from remove_bucket_node_keeps [OF ok this] show ?thesis unfolding Let_def by blast
qed
end
