(* ===== verification/Upkeep.thy ===== *)
theory Upkeep
  imports Delivery Queue
begin

text \<open>
  What the two upkeep tasks do to the node: reconciling removes exactly the files that no row names and
  its report adds up; a purge tick removes exactly the rows whose stay in the recycle bin is over, with
  their blobs, and queues the deletion for the peers that hold a copy.
\<close>

section \<open>Reconciling\<close>

definition blob_path :: "string \<Rightarrow> string \<Rightarrow> string" where
  "blob_path root n = path_join root ''objects'' @ ''/'' @ n"

lemma ends_with_slash: "ends_with s ''/'' \<longleftrightarrow> s \<noteq> [] \<and> last s = CHR ''/''"
  by (cases s rule: rev_cases) (auto simp: ends_with_def starts_with_def)

lemma objects_dir_join: "path_join (objects_dir (engine_init root)) [] = path_join root ''objects'' @ ''/''"
proof -
  have l: "last (path_join root ''objects'') = CHR ''s''" "path_join root ''objects'' \<noteq> []"
    by (simp_all add: path_join_def starts_with_def)
  then have "\<not> ends_with (path_join root ''objects'') ''/''" by (simp add: ends_with_slash)
  moreover have "\<not> starts_with [] ''/''" by (simp add: starts_with_def)
  ultimately show ?thesis
    using l by (simp add: engine_init_def path_join_def [of "path_join root ''objects''"])
qed

lemma absolute_objects: "absolute_path_for (engine_init root) (''objects/'' @ n) = blob_path root n"
proof -
  have "starts_with (''objects/'' @ n) ''objects/''" by (rule starts_with_append)
  moreover have "\<not> starts_with (''objects/'' @ n) ''/''" "\<not> starts_with ''objects'' ''/''"
    by (simp_all add: starts_with_def)
  ultimately show ?thesis
    by (simp add: absolute_path_for_def engine_init_def blob_path_def path_join_def)
qed

definition listed_name :: "string \<Rightarrow> bool" where
  "listed_name n \<longleftrightarrow> n \<noteq> [] \<and> CHR ''/'' \<notin> set n \<and> \<not> starts_with n ''.''"

lemma mem_dir_entries:
  "(n, bs) \<in> set (dir_entries (objects_dir (engine_init root)) f)
     \<longleftrightarrow> n \<noteq> [] \<and> CHR ''/'' \<notin> set n \<and> (blob_path root n, bs) \<in> set f"
proof -
  have "(case strip_prefix p (path_join root ''objects'' @ ''/'') of None \<Rightarrow> None
      | Some m \<Rightarrow> if m = [] \<or> CHR ''/'' \<in> set m then None else Some (m, cs)) = Some (n, bs)
    \<longleftrightarrow> p = blob_path root n \<and> cs = bs \<and> n \<noteq> [] \<and> CHR ''/'' \<notin> set n" for p cs
  proof (cases "strip_prefix p (path_join root ''objects'' @ ''/'')")
    case None
    have "strip_prefix (blob_path root n) (path_join root ''objects'' @ ''/'') = Some n"
      unfolding blob_path_def by (metis append.assoc strip_prefix_append)
    with None have "p \<noteq> blob_path root n" by auto
    with None show ?thesis by simp
  next
    case (Some m)
    then have "p = blob_path root m" by (simp add: strip_prefix_Some blob_path_def)
    with Some show ?thesis by (auto simp: blob_path_def)
  qed
  then show ?thesis
    unfolding dir_entries_def objects_dir_join mem_map_filter by (auto simp: split_beta) force+
qed

lemma set_disk_files:
  "set (list_disk_object_files (objects_dir (engine_init root)) f)
     = {''objects/'' @ n | n. listed_name n \<and> fs_read (blob_path root n) f \<noteq> None}"
proof -
  have dom: "fs_read p f \<noteq> None \<longleftrightarrow> (\<exists>bs. (p, bs) \<in> set f)" for p
    by (force simp: fs_read_def map_of_eq_None_iff)
  have "x \<in> set (list_disk_object_files (objects_dir (engine_init root)) f)
      \<longleftrightarrow> (\<exists>n bs. x = ''objects/'' @ n \<and> \<not> starts_with n ''.'' \<and> (n, bs) \<in> set (dir_entries (objects_dir (engine_init root)) f))" for x
    unfolding list_disk_object_files_def set_sort set_map set_filter by force
  then show ?thesis
    unfolding mem_dir_entries dom listed_name_def by blast
qed

lemma fs_read_unlinks:
  "fs_read p (foldl (\<lambda>f q. unlink eng q f) f ps)
     = (if \<exists>q \<in> set ps. p = absolute_path_for eng q then None else fs_read p f)"
  by (induction ps arbitrary: f) (auto simp: unlink_def)

definition named_by_db :: "db \<Rightarrow> string \<Rightarrow> bool" where
  "named_by_db d n \<longleftrightarrow> (\<exists>r \<in> set (objects d). normalize_object_rel (filepath r) = ''objects/'' @ n)"

lemma set_orphans:
  "set (cl_orphans (classify d (engine_init root) f))
     = {''objects/'' @ n | n. listed_name n \<and> fs_read (blob_path root n) f \<noteq> None \<and> \<not> named_by_db d n}"
proof -
  have "dof_filepath ` set (list_db_object_files d) = (\<lambda>r. normalize_object_rel (filepath r)) ` set (objects d)"
    by (simp add: list_db_object_files_def image_image)
  then have "set (cl_orphans (classify d (engine_init root) f))
      = {x. x \<in> set (list_disk_object_files (objects_dir (engine_init root)) f)
          \<and> x \<notin> (\<lambda>r. normalize_object_rel (filepath r)) ` set (objects d)}"
    by (simp add: classify_def Let_def)
  also have "\<dots> = {''objects/'' @ n | n. listed_name n \<and> fs_read (blob_path root n) f \<noteq> None \<and> \<not> named_by_db d n}"
    unfolding set_disk_files named_by_db_def image_iff by (auto dest: sym)
  finally show ?thesis .
qed

lemma blob_path_inj [simp]: "blob_path root n = blob_path root m \<longleftrightarrow> n = m"
  by (simp add: blob_path_def)

lemma reconcile_fs:
  "fs_read p (snd (reconcile stuck d (engine_init root) f))
     = (if \<exists>n. p = blob_path root n \<and> listed_name n \<and> \<not> named_by_db d n \<and> \<not> stuck (''objects/'' @ n)
        then None else fs_read p f)"
proof -
  let ?removed = "filter (\<lambda>q. \<not> stuck q) (cl_orphans (classify d (engine_init root) f))"
  have run: "snd (reconcile stuck d (engine_init root) f)
      = foldl (\<lambda>f q. unlink (engine_init root) q f) f ?removed"
    by (simp add: reconcile_def Let_def capped_def)
  have gone: "(\<exists>q \<in> set ?removed. p = absolute_path_for (engine_init root) q)
      \<longleftrightarrow> (\<exists>n. p = blob_path root n \<and> listed_name n \<and> fs_read p f \<noteq> None \<and> \<not> named_by_db d n \<and> \<not> stuck (''objects/'' @ n))"
  proof
    assume "\<exists>q \<in> set ?removed. p = absolute_path_for (engine_init root) q"
    then obtain n where "p = absolute_path_for (engine_init root) (''objects/'' @ n)" "listed_name n"
      "fs_read (blob_path root n) f \<noteq> None" "\<not> named_by_db d n" "\<not> stuck (''objects/'' @ n)"
      unfolding set_filter set_orphans by blast
    then show "\<exists>n. p = blob_path root n \<and> listed_name n \<and> fs_read p f \<noteq> None \<and> \<not> named_by_db d n \<and> \<not> stuck (''objects/'' @ n)"
      unfolding absolute_objects by blast
  next
    assume "\<exists>n. p = blob_path root n \<and> listed_name n \<and> fs_read p f \<noteq> None \<and> \<not> named_by_db d n \<and> \<not> stuck (''objects/'' @ n)"
    then obtain n where n: "p = blob_path root n" "listed_name n" "fs_read p f \<noteq> None" "\<not> named_by_db d n"
      "\<not> stuck (''objects/'' @ n)" by blast
    then have "''objects/'' @ n \<in> set ?removed" unfolding set_filter set_orphans by blast
    moreover have "p = absolute_path_for (engine_init root) (''objects/'' @ n)"
      unfolding absolute_objects by (rule n(1))
    ultimately show "\<exists>q \<in> set ?removed. p = absolute_path_for (engine_init root) q" by blast
  qed
  show ?thesis unfolding run fs_read_unlinks gone by auto
qed

text \<open>A row names the file \<open>n\<close> of the objects directory if its path, trimmed of white space and of \<open>./\<close> at its
  front, is \<open>objects/n\<close> or just \<open>n\<close>.\<close>

definition row_names :: "object_record \<Rightarrow> string \<Rightarrow> bool" where
  "row_names r n \<longleftrightarrow> (\<exists>k. trim (filepath r) = concat (replicate k ''./'') @ ''objects/'' @ n
     \<or> trim (filepath r) = concat (replicate k ''./'') @ n)"

lemma trim_dot_slash_split: "\<exists>k. s = concat (replicate k ''./'') @ trim_dot_slash s"
proof (induction s rule: trim_dot_slash.induct)
  case (1 a b s)
  show ?case
  proof (cases "a = CHR ''.'' \<and> b = CHR ''/''")
    case True
    with 1 obtain k where "s = concat (replicate k ''./'') @ trim_dot_slash s" by blast
    with True show ?thesis by (intro exI [of _ "Suc k"]) simp
  next
    case False
    then show ?thesis by (intro exI [of _ 0]) auto
  qed
qed (intro exI [of _ 0], simp)+

lemma trim_dot_slash_repeat:
  "\<not> starts_with s ''./'' \<Longrightarrow> trim_dot_slash (concat (replicate k ''./'') @ s) = s"
proof (induction k)
  case 0
  then show ?case by (cases s rule: trim_dot_slash.cases) (auto simp: starts_with_def)
qed simp

lemma normalized_names:
  assumes n: "listed_name n"
  shows "normalize_object_rel (filepath r) = ''objects/'' @ n \<longleftrightarrow> row_names r n"
proof -
  let ?q = "trim_dot_slash (trim (filepath r))"
  have slash: "CHR ''/'' \<notin> set n" "n \<noteq> []" using n by (simp_all add: listed_name_def)
  have dots: "\<not> starts_with n ''./''" "\<not> starts_with (''objects/'' @ n) ''./''"
    using slash by (auto simp: starts_with_iff)
  have "normalize_object_rel (filepath r) = ''objects/'' @ n \<longleftrightarrow> ?q = ''objects/'' @ n \<or> ?q = n"
  proof (cases "strip_prefix ?q ''objects/''")
    case (Some rest)
    then have q: "?q = ''objects/'' @ rest" by (simp add: strip_prefix_Some)
    then have "?q \<noteq> n" using slash by auto
    then show ?thesis using Some q by (simp add: normalize_object_rel_def Let_def)
  next
    case None
    have "?q \<noteq> ''objects/'' @ m" for m
    proof
      assume "?q = ''objects/'' @ m"
      with None strip_prefix_append [of "''objects/''" m] show False by simp
    qed
    then show ?thesis using None slash by (auto simp: normalize_object_rel_def Let_def)
  qed
  also have "\<dots> \<longleftrightarrow> row_names r n"
  proof
    assume "?q = ''objects/'' @ n \<or> ?q = n"
    then show "row_names r n" using trim_dot_slash_split [of "trim (filepath r)"] unfolding row_names_def by metis
  next
    assume "row_names r n"
    then show "?q = ''objects/'' @ n \<or> ?q = n" unfolding row_names_def using trim_dot_slash_repeat dots by metis
  qed
  finally show ?thesis .
qed

lemma named_by_db_iff: "listed_name n \<Longrightarrow> named_by_db d n \<longleftrightarrow> (\<exists>r \<in> set (objects d). row_names r n)"
  unfolding named_by_db_def by (rule bex_cong [OF refl normalized_names])

text \<open>C32: Repairing the disk removes exactly the files of the objects directory whose name does not begin with a dot,
  that no row, active or recycled, names, and that can be unlinked; it touches no other file, reports only files
  it removed, and the orphans that are left are those that could not be unlinked.\<close>

theorem reconcile_exact:
  "let (report, f') = reconcile stuck d (engine_init root) f;
       orphan = (\<lambda>n. n \<noteq> [] \<and> CHR ''/'' \<notin> set n \<and> hd n \<noteq> CHR ''.'' \<and> \<not> (\<exists>r \<in> set (objects d). row_names r n)) in
   (\<forall>p. fs_read p f' = (if \<exists>n. p = path_join root ''objects'' @ ''/'' @ n \<and> orphan n \<and> \<not> stuck (''objects/'' @ n)
                         then None else fs_read p f))
   \<and> list_all (\<lambda>q. \<exists>n. q = ''objects/'' @ n \<and> orphan n \<and> \<not> stuck q
        \<and> fs_read (path_join root ''objects'' @ ''/'' @ n) f \<noteq> None) (orphans_removed report)
   \<and> set (cl_orphans (classify d (engine_init root) f'))
       = {''objects/'' @ n | n. orphan n \<and> stuck (''objects/'' @ n)
            \<and> fs_read (path_join root ''objects'' @ ''/'' @ n) f \<noteq> None}"
proof -
  obtain report f' where run: "reconcile stuck d (engine_init root) f = (report, f')" by force
  then have f': "f' = snd (reconcile stuck d (engine_init root) f)" by simp
  have orphan: "listed_name n \<and> \<not> named_by_db d n \<longleftrightarrow>
      n \<noteq> [] \<and> CHR ''/'' \<notin> set n \<and> hd n \<noteq> CHR ''.'' \<and> \<not> (\<exists>r \<in> set (objects d). row_names r n)" for n
  proof -
    have "listed_name n \<longleftrightarrow> n \<noteq> [] \<and> CHR ''/'' \<notin> set n \<and> hd n \<noteq> CHR ''.''"
      by (cases n) (auto simp: listed_name_def starts_with_def)
    then show ?thesis using named_by_db_iff by blast
  qed
  have "set (orphans_removed report) \<subseteq> {q \<in> set (cl_orphans (classify d (engine_init root) f)). \<not> stuck q}"
    using run by (auto simp: reconcile_def Let_def capped_def dest!: in_set_takeD)
  then have "list_all (\<lambda>q. \<exists>n. q = ''objects/'' @ n \<and> (listed_name n \<and> \<not> named_by_db d n) \<and> \<not> stuck q
      \<and> fs_read (blob_path root n) f \<noteq> None) (orphans_removed report)"
    unfolding list_all_iff set_orphans by blast
  moreover have "set (cl_orphans (classify d (engine_init root) f'))
      = {''objects/'' @ n | n. (listed_name n \<and> \<not> named_by_db d n) \<and> stuck (''objects/'' @ n) \<and> fs_read (blob_path root n) f \<noteq> None}"
    unfolding set_orphans f' reconcile_fs by auto
  moreover have "\<forall>p. fs_read p f' = (if \<exists>n. p = blob_path root n \<and> (listed_name n \<and> \<not> named_by_db d n) \<and> \<not> stuck (''objects/'' @ n)
      then None else fs_read p f)"
    unfolding f' reconcile_fs by simp
  ultimately show ?thesis unfolding run prod.case Let_def orphan blob_path_def by blast
qed

lemma length_filter_split: "length (filter P xs) = length (filter (\<lambda>x. Q x \<and> P x) xs) + length (filter (\<lambda>x. \<not> Q x \<and> P x) xs)"
  by (induction xs) auto

text \<open>The integrity report adds up: every active row is either found or reported missing, and so is every
  recycled one, although only the first fifty missing paths are listed.\<close>

theorem integrity_report_adds_up:
  "let r = inspect d eng f in
     ir_db_rows r = int (length (objects d)) \<and> ir_db_active r = count_where obj_active (objects d)
     \<and> ir_db_active r = active_ok r + missing_active_count r
     \<and> ir_db_recycled r = recycle_ok r + missing_recycle_count r
     \<and> length (missing_active r) \<le> 50 \<and> length (orphans_removed r) \<le> 50 \<and> length (missing_recycle r) \<le> 50"
proof -
  define files where "files = list_db_object_files d"
  let ?on = "\<lambda>r :: db_object_file. dof_filepath r \<in> set (list_disk_object_files (objects_dir eng) f)"
  have "length files = length (filter (\<lambda>r. \<not> dof_deleted r) files) + length (filter dof_deleted files)"
    by (simp add: sum_length_filter_compl add.commute)
  moreover note length_filter_split [of "\<lambda>r. \<not> dof_deleted r" files ?on] length_filter_split [of dof_deleted files ?on]
  moreover have "count_where (\<lambda>r. \<not> dof_deleted r) files = count_where obj_active (objects d)"
    by (simp add: files_def list_db_object_files_def count_where_def filter_map comp_def obj_active_def [abs_def])
  moreover have "obj_active = (\<lambda>r. deleted_at r = None)" by (simp add: obj_active_def fun_eq_iff)
  moreover have "length files = length (objects d)" by (simp add: files_def list_db_object_files_def)
  ultimately show ?thesis
    by (simp add: inspect_def Let_def classify_def capped_def count_where_def MISSING_CAP_def ORPHAN_CAP_def
        files_def [symmetric] split: prod.splits)
qed

section \<open>Purging\<close>

text \<open>A row is past its stay by days: the text comparison does not look at the time of the day.\<close>

definition expired_row :: "time \<Rightarrow> object_record \<Rightarrow> bool" where
  "expired_row cutoff r \<longleftrightarrow> (case deleted_at r of None \<Rightarrow> False | Some t \<Rightarrow> t div 86400 \<le> cutoff div 86400)"

lemma mem_expired: "r \<in> set (list_expired_deleted_objects cutoff d) \<longleftrightarrow> r \<in> set (objects d) \<and> expired_row cutoff r"
  by (auto simp: list_expired_deleted_objects_def set_select_where expired_row_def stored_stamp_def bound_stamp_def
      split: option.split)

text \<open>A DELETE job for a blob and a peer that no worker has taken yet.\<close>

definition delete_queued :: "string \<Rightarrow> string \<Rightarrow> db \<Rightarrow> bool" where
  "delete_queued p fp d \<longleftrightarrow> (\<exists>j \<in> set (outbox d). job_peer_id j = p \<and> job_filepath_uuid j = fp
     \<and> job_operation j = DeleteOp \<and> job_status j = Pending)"

lemma delete_object_row_frame [simp]:
  "buckets (delete_object_row P d) = buckets d" "peers (delete_object_row P d) = peers d"
  "repl_peers (delete_object_row P d) = repl_peers d" "objects (delete_object_row P d) = delete_where P (objects d)"
  by (simp_all add: delete_object_row_def Let_def)

lemma enqueue_frame:
  assumes "enqueue_for_active_peers opn i fp tag loc now d = (n, d')"
  shows "buckets d' = buckets d" "peers d' = peers d" "repl_peers d' = repl_peers d" "objects d' = objects d"
    "\<exists>js. outbox d' = outbox d @ js"
proof -
  have fr: "buckets (foldl (\<lambda>d p. insert_job (mk p) d) d ps) = buckets d"
    "peers (foldl (\<lambda>d p. insert_job (mk p) d) d ps) = peers d"
    "repl_peers (foldl (\<lambda>d p. insert_job (mk p) d) d ps) = repl_peers d"
    "objects (foldl (\<lambda>d p. insert_job (mk p) d) d ps) = objects d"
    for mk and ps
    by (induction ps arbitrary: d) simp_all
  have d': "d' = snd (enqueue_for_active_peers opn i fp tag loc now d)" using assms by simp
  show "buckets d' = buckets d" "peers d' = peers d" "repl_peers d' = repl_peers d" "objects d' = objects d"
    "\<exists>js. outbox d' = outbox d @ js"
    unfolding d' enqueue_for_active_peers_def Let_def by (simp_all add: fr foldl_insert_job split: option.splits)
qed

lemma delete_queued_delete: "delete_queued p fp d \<Longrightarrow> delete_queued p fp (delete_object_row P d)"
proof -
  assume "delete_queued p fp d"
  then obtain j where j: "j \<in> set (outbox d)" "job_peer_id j = p" "job_filepath_uuid j = fp"
    "job_operation j = DeleteOp" "job_status j = Pending" by (auto simp: delete_queued_def)
  let ?P = "\<lambda>j. case job_object_id j of None \<Rightarrow> False | Some i \<Rightarrow> i \<in> obj_id ` set (select_where P (objects d))"
  have "(if ?P j then j\<lparr>job_object_id := None\<rparr> else j) \<in> set (outbox (delete_object_row P d))"
    using mem_update_where [OF j(1), of ?P "\<lambda>j. j\<lparr>job_object_id := None\<rparr>"]
    by (simp add: delete_object_row_def Let_def)
  moreover have "job_peer_id (if ?P j then j\<lparr>job_object_id := None\<rparr> else j) = p
      \<and> job_filepath_uuid (if ?P j then j\<lparr>job_object_id := None\<rparr> else j) = fp
      \<and> job_operation (if ?P j then j\<lparr>job_object_id := None\<rparr> else j) = DeleteOp
      \<and> job_status (if ?P j then j\<lparr>job_object_id := None\<rparr> else j) = Pending" using j by simp
  ultimately show ?thesis unfolding delete_queued_def by blast
qed

lemma is_target_frame:
  "buckets d' = buckets d \<Longrightarrow> repl_peers d' = repl_peers d \<Longrightarrow> is_target b loc d' p = is_target b loc d p"
  by (simp add: is_target_def peer_should_receive_bucket_def node_row_def)

lemma purge_object_step:
  assumes ok: "db_ok d" and r: "r \<in> set (objects d)"
  shows "\<exists>d'. purge_object eng node now r (d, f) = (d', unlink eng (filepath r) f)
    \<and> db_ok d' \<and> objects d' = filter (\<lambda>x. x \<noteq> r) (objects d) \<and> buckets d' = buckets d \<and> peers d' = peers d
    \<and> repl_peers d' = repl_peers d
    \<and> (\<forall>p fp. delete_queued p fp d \<longrightarrow> delete_queued p fp d')
    \<and> (\<forall>p \<in> set (peers d). is_target (obj_bucket_id r) node d p \<longrightarrow> delete_queued (peer_id p) (filepath r) d')"
proof -
  obtain n d1 where enq: "enqueue_for_active_peers DeleteOp (obj_id r) (filepath r) (etag r) node now d = (n, d1)" by force
  define d2 where "d2 = delete_object_row (\<lambda>x. obj_id x = obj_id r) d1"
  have run: "purge_object eng node now r (d, f) = (d2, unlink eng (filepath r) f)"
    by (simp add: purge_object_def enqueue_delete_for_active_peers_def enq d2_def Let_def)
  note fr = enqueue_frame [OF enq]
  have got: "get_object_by_id (obj_id r) d = Some r"
    unfolding get_object_by_id_def using ok r
    by (intro obj_tbl.row_of_mem) (simp_all add: db_ok_def objects_ok_def)
  have ids: "(obj_id x = obj_id r) = (x = r)" if "x \<in> set (objects d)" for x
    using that r objects_ok_idD ok unfolding db_ok_def by blast
  have objs: "objects d2 = filter (\<lambda>x. x \<noteq> r) (objects d)"
    unfolding d2_def delete_object_row_frame delete_where_def fr by (rule filter_cong [OF refl]) (simp add: ids)
  have "db_ok d2" unfolding d2_def by (intro delete_object_row_ok enqueue_ok [OF enq ok])
  moreover have "delete_queued p fp d2" if "delete_queued p fp d" for p fp
  proof -
    from fr(5) that have "delete_queued p fp d1" by (auto simp: delete_queued_def)
    then show ?thesis unfolding d2_def by (rule delete_queued_delete)
  qed
  moreover have "delete_queued (peer_id p) (filepath r) d2"
    if p: "p \<in> set (peers d)" "is_target (obj_bucket_id r) node d p" for p
  proof -
    from enqueue_jobs [OF ok got enq] obtain js where js: "outbox d1 = outbox d @ js"
      "map job_peer_id js = map peer_id (filter (is_target (obj_bucket_id r) node d) (peers d))"
      "\<forall>j \<in> set js. job_filepath_uuid j = filepath r \<and> job_operation j = DeleteOp \<and> job_status j = Pending" by blast
    have "peer_id p \<in> set (map job_peer_id js)" unfolding js(2) using p by simp
    then have "delete_queued (peer_id p) (filepath r) d1" using js(1,3) by (auto simp: delete_queued_def)
    then show ?thesis unfolding d2_def by (rule delete_queued_delete)
  qed
  ultimately show ?thesis using run objs fr by (auto simp: d2_def)
qed

lemma purge_loop:
  assumes "db_ok d" "set rs \<subseteq> set (objects d)" "distinct rs"
  shows "\<exists>d'. foldl (\<lambda>s r. purge_object eng node now r s) (d, f) rs
      = (d', foldl (\<lambda>f r. unlink eng (filepath r) f) f rs)
    \<and> db_ok d' \<and> objects d' = filter (\<lambda>x. x \<notin> set rs) (objects d)
    \<and> (\<forall>p fp. delete_queued p fp d \<longrightarrow> delete_queued p fp d')
    \<and> (\<forall>r \<in> set rs. \<forall>p \<in> set (peers d). is_target (obj_bucket_id r) node d p \<longrightarrow> delete_queued (peer_id p) (filepath r) d')"
  using assms
proof (induction rs arbitrary: d f)
  case (Cons r rs)
  then have r: "r \<in> set (objects d)" by simp
  obtain d1 where d1: "purge_object eng node now r (d, f) = (d1, unlink eng (filepath r) f)" "db_ok d1"
    "objects d1 = filter (\<lambda>x. x \<noteq> r) (objects d)" "buckets d1 = buckets d" "peers d1 = peers d"
    "repl_peers d1 = repl_peers d" "\<forall>p fp. delete_queued p fp d \<longrightarrow> delete_queued p fp d1"
    "\<forall>p \<in> set (peers d). is_target (obj_bucket_id r) node d p \<longrightarrow> delete_queued (peer_id p) (filepath r) d1"
    using purge_object_step [OF Cons.prems(1) r] by blast
  have "set rs \<subseteq> set (objects d1)" "distinct rs" using Cons.prems(2,3) d1(3) by auto
  from Cons.IH [OF d1(2) this, of "unlink eng (filepath r) f"] obtain d' where
    d': "foldl (\<lambda>s r. purge_object eng node now r s) (d1, unlink eng (filepath r) f) rs
      = (d', foldl (\<lambda>f r. unlink eng (filepath r) f) (unlink eng (filepath r) f) rs)" "db_ok d'"
    "objects d' = filter (\<lambda>x. x \<notin> set rs) (objects d1)"
    "\<forall>p fp. delete_queued p fp d1 \<longrightarrow> delete_queued p fp d'"
    "\<forall>r \<in> set rs. \<forall>p \<in> set (peers d1). is_target (obj_bucket_id r) node d1 p \<longrightarrow> delete_queued (peer_id p) (filepath r) d'"
    by blast
  have "objects d' = filter (\<lambda>x. x \<notin> set (r # rs)) (objects d)"
    unfolding d'(3) d1(3) filter_filter by (rule filter_cong) auto
  then show ?case
    using d' d1 is_target_frame [OF d1(4,6)] by auto
qed simp

lemma purge_tick_exact:
  assumes "db_ok d" and "settings d = Some st"
    and "minus_secs now (max (to_seconds (recycle_retention_unit st) (recycle_retention_value st)) 0) = Some cutoff"
  shows "\<exists>d' f'. purge_once minus_secs eng node now (d, f) = Some (Inr (), d', f')
    \<and> objects d' = filter (\<lambda>r. \<not> expired_row cutoff r) (objects d)
    \<and> (\<forall>p. fs_read p f' = (if \<exists>r \<in> set (objects d). expired_row cutoff r \<and> p = absolute_path_for eng (filepath r)
                             then None else fs_read p f))
    \<and> (\<forall>r \<in> set (objects d). expired_row cutoff r \<longrightarrow>
         (\<forall>p \<in> set (peers d). is_target (obj_bucket_id r) node d p \<longrightarrow> delete_queued (peer_id p) (filepath r) d'))
    \<and> db_ok d'"
proof -
  define rs where "rs = list_expired_deleted_objects cutoff d"
  have mem: "r \<in> set rs \<longleftrightarrow> r \<in> set (objects d) \<and> expired_row cutoff r" for r
    by (simp add: rs_def mem_expired)
  have "distinct (objects d)" using assms(1) unfolding db_ok_def objects_ok_def by (metis distinct_map)
  then have "distinct rs" by (simp add: rs_def list_expired_deleted_objects_def select_where_def)
  moreover have "set rs \<subseteq> set (objects d)" using mem by blast
  ultimately obtain d' where
    run: "foldl (\<lambda>s r. purge_object eng node now r s) (d, f) rs = (d', foldl (\<lambda>f r. unlink eng (filepath r) f) f rs)"
    and d': "db_ok d'" "objects d' = filter (\<lambda>x. x \<notin> set rs) (objects d)"
      "\<forall>r \<in> set rs. \<forall>p \<in> set (peers d). is_target (obj_bucket_id r) node d p \<longrightarrow> delete_queued (peer_id p) (filepath r) d'"
    using purge_loop [OF assms(1)] by blast
  have fs: "fs_read p (foldl (\<lambda>f r. unlink eng (filepath r) f) g xs)
      = (if \<exists>r \<in> set xs. p = absolute_path_for eng (filepath r) then None else fs_read p g)" for p g xs
    by (induction xs arbitrary: g) (auto simp: unlink_def)
  have "purge_once minus_secs eng node now (d, f) = Some (Inr (), d', foldl (\<lambda>f r. unlink eng (filepath r) f) f rs)"
    using assms(2,3) run by (simp add: purge_once_def get_settings_def Let_def rs_def)
  moreover have "objects d' = filter (\<lambda>r. \<not> expired_row cutoff r) (objects d)"
    unfolding d'(2) by (rule filter_cong) (auto simp: mem)
  moreover have "(\<exists>r \<in> set rs. p = absolute_path_for eng (filepath r))
        \<longleftrightarrow> (\<exists>r \<in> set (objects d). expired_row cutoff r \<and> p = absolute_path_for eng (filepath r))" for p
    using mem by blast
  moreover have "\<forall>r \<in> set (objects d). expired_row cutoff r \<longrightarrow>
      (\<forall>p \<in> set (peers d). is_target (obj_bucket_id r) node d p \<longrightarrow> delete_queued (peer_id p) (filepath r) d')"
    using d'(3) mem by blast
  ultimately show ?thesis
    by (intro exI [of _ d'] exI [of _ "foldl (\<lambda>f r. unlink eng (filepath r) f) f rs"] conjI) (simp_all add: fs d'(1))
qed

text \<open>C24: A purge tick removes exactly the rows that were deleted on or before the day the retention reaches back to
  (so a row can go up to a day before its full retention is over), keeps every other row and every active object, removes
  the blob of each purged row and no other file, and leaves a DELETE for it in the queue of every peer that should have a
  copy. If the clock cannot be moved back by the retention, the subtraction panics and the tick does nothing.\<close>

theorem purge_exact:
  assumes "db_ok d" and "settings d = Some st" and "\<forall>t k c. minus_secs t k = Some c \<longrightarrow> c = t - k"
  shows "let keep = max (to_seconds (recycle_retention_unit st) (recycle_retention_value st)) 0;
             gone = (\<lambda>r. case deleted_at r of None \<Rightarrow> False | Some t \<Rightarrow> t div 86400 \<le> (now - keep) div 86400) in
    if minus_secs now keep = None then purge_once minus_secs eng node now (d, f) = None
    else (\<exists>d' f'. purge_once minus_secs eng node now (d, f) = Some (Inr (), d', f')
      \<and> objects d' = filter (\<lambda>r. \<not> gone r) (objects d)
      \<and> (\<forall>p. fs_read p f' = (if \<exists>r \<in> set (objects d). gone r \<and> p = absolute_path_for eng (filepath r)
                               then None else fs_read p f))
      \<and> (\<forall>r \<in> set (objects d). gone r \<longrightarrow>
           (\<forall>p \<in> set (peers d). is_target (obj_bucket_id r) node d p \<longrightarrow> delete_queued (peer_id p) (filepath r) d'))
      \<and> db_ok d')"
proof (cases "minus_secs now (max (to_seconds (recycle_retention_unit st) (recycle_retention_value st)) 0)")
  case None
  then show ?thesis using assms(2) by (simp add: purge_once_def get_settings_def Let_def)
next
  case (Some c)
  then have c: "c = now - max (to_seconds (recycle_retention_unit st) (recycle_retention_value st)) 0" using assms(3) by blast
  have "minus_secs now (max (to_seconds (recycle_retention_unit st) (recycle_retention_value st)) 0) \<noteq> None"
    using Some by simp
  with purge_tick_exact [OF assms(1,2), of minus_secs now c eng node f, OF Some] show ?thesis
    unfolding Let_def expired_row_def c by (simp only: if_False)
qed

definition purge_demo :: db where
  "purge_demo = queue_demo\<lparr>objects := [demo_object 1 ''a/x'' 1 (Some 50), demo_object 2 ''a/x'' 1 None]\<rparr>"

theorem purge_exact_witness:
  "\<exists>d' f'. purge_once (\<lambda>t n. Some (t - n)) (engine_init ''/data'') ''n1'' 3000000 (purge_demo, []) = Some (Inr (), d', f')
    \<and> objects d' = [demo_object 2 ''a/x'' 1 None] \<and> delete_queued ''n2'' ''objects/1.bin'' d'"
proof -
  let ?st = "\<lparr>recycle_retention_value = 30, recycle_retention_unit = Day\<rparr>"
  let ?p = "\<lparr>peer_id = ''n2'', wireguard_endpoint = ''h:2'', is_active = True, last_heartbeat_utc = None\<rparr>"
  let ?r = "demo_object 1 ''a/x'' 1 (Some 50)"
  let ?gone = "\<lambda>r. case deleted_at r of None \<Rightarrow> False | Some t \<Rightarrow> t div 86400 \<le> (3000000 -
    max (to_seconds (recycle_retention_unit ?st) (recycle_retention_value ?st)) 0) div 86400"
  have pre: "db_ok purge_demo" "settings purge_demo = Some ?st"
    "\<forall>t k c. (\<lambda>t n. Some (t - n)) t k = Some c \<longrightarrow> c = t - (k :: int)" by (code_simp, code_simp, simp)
  obtain d' f' where d': "purge_once (\<lambda>t n. Some (t - n)) (engine_init ''/data'') ''n1'' 3000000 (purge_demo, [])
      = Some (Inr (), d', f')" "objects d' = filter (\<lambda>r. \<not> ?gone r) (objects purge_demo)"
    "\<forall>r \<in> set (objects purge_demo). ?gone r \<longrightarrow>
         (\<forall>p \<in> set (peers purge_demo). is_target (obj_bucket_id r) ''n1'' purge_demo p \<longrightarrow> delete_queued (peer_id p) (filepath r) d')"
    using purge_exact [OF pre, of 3000000 "engine_init ''/data''" "''n1''" "[]"] unfolding Let_def by auto
  have "?r \<in> set (objects purge_demo)" "?gone ?r" "?p \<in> set (peers purge_demo)"
    "is_target (obj_bucket_id ?r) ''n1'' purge_demo ?p" "peer_id ?p = ''n2''" "filepath ?r = ''objects/1.bin''"
    "filter (\<lambda>r. \<not> ?gone r) (objects purge_demo) = [demo_object 2 ''a/x'' 1 None]"
    by code_simp+
  with d' show ?thesis by metis
qed

text \<open>Rows of the recycle bin expire early: with a retention of one day, an object deleted one minute before midnight
  is still there at the last tick of that day and gone at the first tick after midnight.\<close>

theorem purge_early:
  "let d = (snd (set_recycle_retention 1 Day queue_demo))\<lparr>objects := [demo_object 1 ''a/x'' 1 (Some 172740)]\<rparr>;
       tick = (\<lambda>now. map_option (\<lambda>(r, d', f'). map obj_id (objects d'))
         (purge_once (\<lambda>t n. Some (t - n)) (engine_init ''/data'') ''n1'' now (d, []))) in
   tick 172799 = Some [1] \<and> tick 172800 = Some []"
  by code_simp

text \<open>A retention the settings accept can stop the purge worker for good: when subtracting it from the
  clock is out of range, the tick panics, on every tick.\<close>

theorem purge_panics:
  assumes "settings d = Some st"
    and "minus_secs now (max (to_seconds (recycle_retention_unit st) (recycle_retention_value st)) 0) = None"
  shows "purge_once minus_secs eng node now (d, f) = None"
  using assms by (simp add: purge_once_def get_settings_def Let_def)

theorem purge_panics_witness:
  "purge_once (\<lambda>t n. if n \<le> 9223372036854775 then Some (t - n) else None) (engine_init ''/data'') ''n1'' 5
     (snd (set_recycle_retention 9223372036854775807 Decade (initial_db 0)), []) = None"
proof -
  let ?m = "\<lambda>t n. if n \<le> 9223372036854775 then Some (t - n) else None :: time option"
  let ?d = "snd (set_recycle_retention 9223372036854775807 Decade (initial_db 0))"
  let ?st = "\<lparr>recycle_retention_value = 9223372036854775807, recycle_retention_unit = Decade\<rparr>"
  have "settings ?d = Some ?st"
    "?m 5 (max (to_seconds (recycle_retention_unit ?st) (recycle_retention_value ?st)) 0) = None" by code_simp+
  from purge_panics [where minus_secs = ?m, OF this] show ?thesis .
qed
end
