(* ===== verification/Share_Routes.thy ===== *)
theory Share_Routes
  imports Handlers
begin

text \<open>
  The share routes of \<open>src/server/share_routes.rs\<close>: making, listing and revoking shares, and the
  routes a visitor of a share uses; then what a share opens, and to whom.
\<close>

section \<open>Making, listing and revoking shares\<close>

record create_share_body =
  csb_bucket :: "string option"
  csb_key :: string
  csb_kind :: share_target_kind
  csb_access_mode :: share_access_mode
  csb_account_ids :: "int list"
  csb_expires_at :: "time option"
  csb_shorten :: bool

record share_view =
  sv_id :: int
  sv_token :: string
  sv_short_code :: "string option"
  sv_url_path :: string
  sv_bucket_id :: int
  sv_target_key :: string
  sv_target_kind :: share_target_kind
  sv_access_mode :: share_access_mode
  sv_expires_at :: "time option"
  sv_created_at :: time
  sv_account_ids :: "int list"

definition to_view :: "share_link_record \<Rightarrow> int list \<Rightarrow> share_view" where
  "to_view s accts =
     \<lparr>sv_id = share_id s, sv_token = share_token s, sv_short_code = short_code s,
      sv_url_path = share_url_path s, sv_bucket_id = share_bucket_id s, sv_target_key = target_key s,
      sv_target_kind = target_kind s, sv_access_mode = access_mode s, sv_expires_at = expires_at s,
      sv_created_at = share_created_at s, sv_account_ids = accts\<rparr>"

definition create_share_status :: "error \<Rightarrow> int" where
  "create_share_status e =
     (if err_has e ''not found'' \<or> err_has e ''empty'' then 404
      else if err_has e ''requires'' \<or> err_has e ''specific_users'' then 400 else 500)"

definition share_target :: "share_target_kind \<Rightarrow> string \<Rightarrow> string + string" where
  "share_target kind key =
     (case kind of File \<Rightarrow> normalize_object_key key | Folder \<Rightarrow> normalize_folder_prefix key)"

definition create_share_route ::
  "(nat \<Rightarrow> nat list \<times> nat list) \<Rightarrow> account_record \<Rightarrow> create_share_body \<Rightarrow> time \<Rightarrow> node \<Rightarrow> share_view reply \<times> node" where
  "create_share_route draw auth body now n =
     (let d = node_db n in
      case resolve_bucket_id (csb_bucket body) d of
        Inl r \<Rightarrow> (Raw r, n)
      | Inr (bucket, _) \<Rightarrow>
        (case require_bucket_perm (account_id auth) bucket Read d of
           Inl r \<Rightarrow> (Raw r, n)
         | Inr _ \<Rightarrow>
           (case share_target (csb_kind body) (csb_key body) of
              Inl msg \<Rightarrow> (text_reply 400 msg, n)
            | Inr key \<Rightarrow>
              if (case csb_expires_at body of Some exp \<Rightarrow> exp \<le> now | None \<Rightarrow> False)
              then (text_reply 400 ''expires_at must be in the future'', n)
              else (case create_share draw bucket key (csb_kind body) (csb_access_mode body)
                        (csb_expires_at body) (account_id auth) (csb_account_ids body) (csb_shorten body) now d of
                      (Inr share, d1) \<Rightarrow>
                        (Json 201 (to_view share (list_share_recipients (share_id share) d1)), n\<lparr>node_db := d1\<rparr>)
                    | (Inl e, d1) \<Rightarrow>
                        (text_reply (create_share_status e) (err_msg e), n\<lparr>node_db := d1\<rparr>)))))"

definition list_shares_route ::
  "account_record \<Rightarrow> string option \<Rightarrow> string \<Rightarrow> time \<Rightarrow> node \<Rightarrow> share_view list reply \<times> node" where
  "list_shares_route auth bname raw_key now n =
     (let d = node_db n in
      case resolve_bucket_id bname d of
        Inl r \<Rightarrow> (Raw r, n)
      | Inr (bucket, _) \<Rightarrow>
        (case require_bucket_perm (account_id auth) bucket Read d of
           Inl r \<Rightarrow> (Raw r, n)
         | Inr _ \<Rightarrow>
           let key = trim_start_char (CHR ''/'') (trim raw_key) in
           if key = [] then (text_reply 400 ''key is required'', n)
           else (Json 200 (map (\<lambda>s. to_view s (list_share_recipients (share_id s) d))
                   (filter (\<lambda>s. share_is_usable s now = Inr ())
                     (list_shares_for_target bucket key (account_id auth) d))), n)))"

definition revoke_share_route :: "account_record \<Rightarrow> int \<Rightarrow> time \<Rightarrow> node \<Rightarrow> unit reply \<times> node" where
  "revoke_share_route auth i now n =
     (let d = node_db n; is_owner = account_is_owner (account_id auth) d in
      case get_share_by_id i d of
        None \<Rightarrow> (text_reply 404 ''share not found'', n)
      | Some share \<Rightarrow>
        (case (if is_owner then Inr () else require_bucket_perm (account_id auth) (share_bucket_id share) Read d) of
           Inl r \<Rightarrow> (Raw r, n)
         | Inr _ \<Rightarrow>
           (case revoke_share i (account_id auth) is_owner now d of
              (Inr True, d1) \<Rightarrow> (status_reply 204, n\<lparr>node_db := d1\<rparr>)
            | (Inr False, d1) \<Rightarrow> (text_reply 404 ''share not found'', n\<lparr>node_db := d1\<rparr>)
            | (Inl e, d1) \<Rightarrow>
                (if err_has e ''not allowed'' then text_reply 403 (err_msg e) else error_reply e, n\<lparr>node_db := d1\<rparr>))))"

section \<open>Using a share\<close>

definition display_name_for :: "share_link_record \<Rightarrow> string" where
  "display_name_for s =
     (case target_kind s of File \<Rightarrow> basename (target_key s)
      | Folder \<Rightarrow> basename (trim_end_char (CHR ''/'') (target_key s)))"

definition access_token_grants_share :: "'a app \<Rightarrow> share_link_record \<Rightarrow> string option \<Rightarrow> time \<Rightarrow> bool" where
  "access_token_grants_share A share access now =
     (case nonempty_trimmed access of
        None \<Rightarrow> False
      | Some raw \<Rightarrow>
          (case verify_access_token (app_media A) (app_config A) raw now of
             Inr (ShareGrant i b exp) \<Rightarrow> i = share_id share \<and> b = share_bucket_id share
           | _ \<Rightarrow> False))"

definition share_gone :: response where
  "share_gone = text_response 410 ''share is no longer available''"

definition authorize_share ::
  "'a app \<Rightarrow> share_link_record \<Rightarrow> account_record option \<Rightarrow> string option \<Rightarrow> time \<Rightarrow> db \<Rightarrow> response + unit" where
  "authorize_share A share auth access now d =
     (case share_is_usable share now of
        Inl _ \<Rightarrow> Inl share_gone
      | Inr _ \<Rightarrow>
        (case access_mode share of
           Public \<Rightarrow> Inr ()
         | BucketReaders \<Rightarrow>
             if access_token_grants_share A share access now then Inr ()
             else (case auth of
                     None \<Rightarrow> Inl (text_response 401 ''authentication required'')
                   | Some a \<Rightarrow> if check_perm (account_id a) (share_bucket_id share) Read d then Inr ()
                       else Inl (text_response 403 ''insufficient permissions''))
         | SpecificUsers \<Rightarrow>
             if access_token_grants_share A share access now then Inr ()
             else (case auth of
                     None \<Rightarrow> Inl (text_response 401 ''authentication required'')
                   | Some a \<Rightarrow> if share_allows_account (share_id share) (account_id a) d then Inr ()
                       else Inl (text_response 403 ''not on share recipient list''))))"

definition load_share_by_token :: "string \<Rightarrow> db \<Rightarrow> response + share_link_record" where
  "load_share_by_token tok d =
     (case get_share_by_token tok d of Some s \<Rightarrow> Inr s | None \<Rightarrow> Inl (text_response 404 ''share not found''))"

definition load_share_by_code :: "string \<Rightarrow> db \<Rightarrow> response + share_link_record" where
  "load_share_by_code code d =
     (case get_share_by_short_code code d of Some s \<Rightarrow> Inr s | None \<Rightarrow> Inl (text_response 404 ''share not found''))"

record share_meta =
  sm_target_kind :: share_target_kind
  sm_target_key :: string
  sm_display_name :: string
  sm_access_mode :: share_access_mode
  sm_expires_at :: "time option"
  sm_login_required :: bool
  sm_bucket_name :: "string option"
  sm_filesize_bytes :: "int option"
  sm_content_type_hint :: "string option"

text \<open>The metadata, or for a visitor without a session the hint that a login is required.\<close>

datatype share_meta_reply = ShareMeta share_meta | LoginHint string share_target_kind share_access_mode

definition meta_for_share ::
  "'a app \<Rightarrow> share_link_record \<Rightarrow> account_record option \<Rightarrow> string option \<Rightarrow> time \<Rightarrow> db \<Rightarrow> share_meta_reply reply" where
  "meta_for_share A share auth access now d =
     (case authorize_share A share auth access now d of
        Inl r \<Rightarrow> Raw r
      | Inr _ \<Rightarrow>
          let obj = (if target_kind share = File
                     then get_object_by_filename_in_bucket (target_key share) (share_bucket_id share) d else None) in
          Json 200 (ShareMeta \<lparr>sm_target_kind = target_kind share, sm_target_key = target_key share,
            sm_display_name = display_name_for share, sm_access_mode = access_mode share,
            sm_expires_at = expires_at share, sm_login_required = (access_mode share \<noteq> Public),
            sm_bucket_name = map_option bucket_name (get_bucket_by_id (share_bucket_id share) d),
            sm_filesize_bytes = map_option filesize_bytes obj,
            sm_content_type_hint = Option.bind obj (\<lambda>r. some_nonempty (file_format r))\<rparr>))"

definition share_meta_probe ::
  "'a app \<Rightarrow> share_link_record \<Rightarrow> account_record option \<Rightarrow> string option \<Rightarrow> time \<Rightarrow> db \<Rightarrow> share_meta_reply reply" where
  "share_meta_probe A share auth access now d =
     (if access_mode share \<noteq> Public \<and> auth = None \<and> \<not> access_token_grants_share A share access now
      then (case share_is_usable share now of
              Inl _ \<Rightarrow> Raw share_gone
            | Inr _ \<Rightarrow> Json 401 (LoginHint (display_name_for share) (target_kind share) (access_mode share)))
      else meta_for_share A share auth access now d)"

definition share_meta_by_token ::
  "'a app \<Rightarrow> account_record option \<Rightarrow> string \<Rightarrow> string option \<Rightarrow> time \<Rightarrow> node \<Rightarrow> share_meta_reply reply \<times> node" where
  "share_meta_by_token A auth tok access now n =
     (case load_share_by_token tok (node_db n) of
        Inl r \<Rightarrow> (Raw r, n)
      | Inr share \<Rightarrow> (share_meta_probe A share auth access now (node_db n), n))"

definition share_meta_by_code ::
  "'a app \<Rightarrow> account_record option \<Rightarrow> string \<Rightarrow> string option \<Rightarrow> time \<Rightarrow> node \<Rightarrow> share_meta_reply reply \<times> node" where
  "share_meta_by_code A auth code access now n =
     (case load_share_by_code code (node_db n) of
        Inl r \<Rightarrow> (Raw r, n)
      | Inr share \<Rightarrow> (share_meta_probe A share auth access now (node_db n), n))"

definition share_list_prefix :: "share_link_record \<Rightarrow> string \<Rightarrow> string + string" where
  "share_list_prefix share pre =
     (if pre = [] then Inr (target_key share)
      else if starts_with pre (target_key share)
      then (case normalize_folder_prefix pre of
              Inr p \<Rightarrow> if starts_with p (target_key share) then Inr p else Inl ''prefix outside share scope''
            | Inl msg \<Rightarrow> Inl msg)
      else resolve_list_prefix share (Some pre))"

definition list_for_share ::
  "'a app \<Rightarrow> share_link_record \<Rightarrow> account_record option \<Rightarrow> string \<Rightarrow> string option \<Rightarrow> time \<Rightarrow> db
     \<Rightarrow> prefix_list_result reply" where
  "list_for_share A share auth pre access now d =
     (case authorize_share A share auth access now d of
        Inl r \<Rightarrow> Raw r
      | Inr _ \<Rightarrow>
          if target_kind share \<noteq> Folder then text_reply 400 ''share is not a folder''
          else (case share_list_prefix share pre of
                  Inl msg \<Rightarrow> text_reply 400 msg
                | Inr list_prefix \<Rightarrow>
                    (case list_objects_with_prefix (lib_lower (app_lib A)) list_prefix ''/'' None
                            (Some (share_bucket_id share)) 0 0 d of
                       None \<Rightarrow> Panicked
                     | Some result \<Rightarrow> Json 200 (plr_objects_update
                         (filter (\<lambda>r. \<not> ends_with (original_filename r) ''.keep'')) result))))"

definition share_list_by_token ::
  "'a app \<Rightarrow> account_record option \<Rightarrow> string \<Rightarrow> string \<Rightarrow> string option \<Rightarrow> time \<Rightarrow> node \<Rightarrow> prefix_list_result reply \<times> node" where
  "share_list_by_token A auth tok pre access now n =
     (case load_share_by_token tok (node_db n) of
        Inl r \<Rightarrow> (Raw r, n)
      | Inr share \<Rightarrow> (list_for_share A share auth pre access now (node_db n), n))"

definition share_list_by_code ::
  "'a app \<Rightarrow> account_record option \<Rightarrow> string \<Rightarrow> string \<Rightarrow> string option \<Rightarrow> time \<Rightarrow> node \<Rightarrow> prefix_list_result reply \<times> node" where
  "share_list_by_code A auth code pre access now n =
     (case load_share_by_code code (node_db n) of
        Inl r \<Rightarrow> (Raw r, n)
      | Inr share \<Rightarrow> (list_for_share A share auth pre access now (node_db n), n))"

definition content_for_share ::
  "'a app \<Rightarrow> share_link_record \<Rightarrow> account_record option \<Rightarrow> string \<Rightarrow> string option \<Rightarrow> headers \<Rightarrow> time \<Rightarrow> node
     \<Rightarrow> response \<times> node" where
  "content_for_share A share auth raw_key access hs now n =
     (case authorize_share A share auth access now (node_db n) of
        Inl r \<Rightarrow> (r, n)
      | Inr _ \<Rightarrow>
        (case normalize_object_key raw_key of
           Inl msg \<Rightarrow> (text_response 400 msg, n)
         | Inr key \<Rightarrow>
             if \<not> key_in_share_scope share key then (text_response 403 ''key outside share scope'', n)
             else (case get_object_by_filename_in_bucket key (share_bucket_id share) (node_db n) of
                     Some _ \<Rightarrow> get_object_keyed_with_headers (app_lib A) key hs n
                   | None \<Rightarrow> (text_response 404 ''object not found'', n))))"

definition share_content_by_token ::
  "'a app \<Rightarrow> account_record option \<Rightarrow> string \<Rightarrow> string \<Rightarrow> string option \<Rightarrow> headers \<Rightarrow> time \<Rightarrow> node \<Rightarrow> response \<times> node" where
  "share_content_by_token A auth tok raw_key access hs now n =
     (case load_share_by_token tok (node_db n) of
        Inl r \<Rightarrow> (r, n)
      | Inr share \<Rightarrow> content_for_share A share auth raw_key access hs now n)"

definition share_content_by_code ::
  "'a app \<Rightarrow> account_record option \<Rightarrow> string \<Rightarrow> string \<Rightarrow> string option \<Rightarrow> headers \<Rightarrow> time \<Rightarrow> node \<Rightarrow> response \<times> node" where
  "share_content_by_code A auth code raw_key access hs now n =
     (case load_share_by_code code (node_db n) of
        Inl r \<Rightarrow> (r, n)
      | Inr share \<Rightarrow> content_for_share A share auth raw_key access hs now n)"


section \<open>What a share gives access to\<close>

lemma access_token_grants_share_iff:
  "access_token_grants_share A share access now \<longleftrightarrow>
     (\<exists>raw exp. nonempty_trimmed access = Some raw \<and>
        verify_access_token (app_media A) (app_config A) raw now = Inr (ShareGrant (share_id share) (share_bucket_id share) exp))"
  by (auto simp: access_token_grants_share_def split: option.splits sum.splits media_grant.splits)

text \<open>The account the session names, if there is one, may read the share by itself.\<close>

definition account_may_use :: "share_link_record \<Rightarrow> account_record option \<Rightarrow> db \<Rightarrow> bool" where
  "account_may_use share auth d =
     (case auth of None \<Rightarrow> False
      | Some a \<Rightarrow> (case access_mode share of
            Public \<Rightarrow> True
          | BucketReaders \<Rightarrow> check_perm (account_id a) (share_bucket_id share) Read d
          | SpecificUsers \<Rightarrow> (share_id share, account_id a) \<in> set (share_users d)))"

lemma share_allows_account_iff: "share_allows_account i a d \<longleftrightarrow> (i, a) \<in> set (share_users d)"
  by (auto simp: share_allows_account_def count_where_pos)

text \<open>C8: a share opens exactly while it is neither revoked nor over, and then for everybody when it is public,
for a bearer of a token that the node signed for this share and bucket and that has not run out, and for an
account with a session that has the bucket's read permission or is on the share's list, as its mode says.\<close>

theorem authorize_share_iff:
  "authorize_share A share auth access now d = Inr () \<longleftrightarrow>
     revoked_at share = None \<and> (case expires_at share of None \<Rightarrow> True | Some e \<Rightarrow> now \<le> e) \<and>
     (access_mode share = Public \<or> account_may_use share auth d \<or>
      (\<exists>raw exp payload sig. nonempty_trimmed access = Some raw \<and> now_unix now \<le> exp
         \<and> trim raw = payload @ ''.'' @ sig \<and> CHR ''.'' \<notin> set sig
         \<and> sign (app_media A) (media_secret (app_media A) (app_config A)) payload = Inr sig
         \<and> payload_says (app_media A) payload (ShareGrant (share_id share) (share_bucket_id share) exp)))"
  proof -
  have usable: "share_is_usable share now = Inr () \<longleftrightarrow>
      revoked_at share = None \<and> (case expires_at share of None \<Rightarrow> True | Some e \<Rightarrow> now \<le> e)"
    by (auto simp: share_is_usable_def split: option.split)
  have tok: "access_token_grants_share A share access now \<longleftrightarrow>
      (\<exists>raw exp payload sig. nonempty_trimmed access = Some raw \<and> now_unix now \<le> exp
         \<and> trim raw = payload @ ''.'' @ sig \<and> CHR ''.'' \<notin> set sig
         \<and> sign (app_media A) (media_secret (app_media A) (app_config A)) payload = Inr sig
         \<and> payload_says (app_media A) payload (ShareGrant (share_id share) (share_bucket_id share) exp))"
    unfolding access_token_grants_share_iff verify_access_token_iff media_grant.sel by blast
  have "authorize_share A share auth access now d = Inr () \<longleftrightarrow> share_is_usable share now = Inr () \<and>
      (access_mode share = Public \<or> account_may_use share auth d \<or> access_token_grants_share A share access now)"
    by (auto simp: authorize_share_def account_may_use_def share_allows_account_iff
        split: sum.split share_access_mode.split option.split)
  then show ?thesis unfolding usable tok by blast
qed

lemma get_object_keyed_frame:
  "get_object_keyed_with_headers L key hs n = (r, n') \<Longrightarrow> node_db n' = node_db n \<and> node_fs n' = node_fs n"
  by (auto simp: get_object_keyed_with_headers_def Let_def split: option.splits if_split_asm sum.splits prod.splits)

text \<open>The content route of a share changes no row and no file, and answers with bytes only to who is
authorized, for a key in the share's scope that names an object of the share's bucket.\<close>

theorem share_content_guarded:
  "let (r, n') = content_for_share A share auth raw_key access hs now n in
   node_db n' = node_db n \<and> node_fs n' = node_fs n \<and>
   (if rs_status r = 200 \<or> rs_status r = 206 then
      authorize_share A share auth access now (node_db n) = Inr () \<and>
      (case normalize_object_key raw_key of Inl _ \<Rightarrow> False
       | Inr key \<Rightarrow> key_in_share_scope share key
           \<and> get_object_by_filename_in_bucket key (share_bucket_id share) (node_db n) \<noteq> None)
    else True)"
proof -
  have st: "rs_status r \<noteq> 200 \<and> rs_status r \<noteq> 206" if "authorize_share A share auth access now d = Inl r" for r d
    using that by (auto simp: authorize_share_def share_gone_def text_response_def
        split: sum.splits share_access_mode.splits if_split_asm option.splits)
  obtain r n' where run: "content_for_share A share auth raw_key access hs now n = (r, n')" by force
  show ?thesis
  proof (cases "authorize_share A share auth access now (node_db n)")
    case (Inl r0)
    then have "r = r0 \<and> n' = n" using run by (simp add: content_for_share_def)
    then show ?thesis using st [OF Inl] by (simp add: run)
  next
    case (Inr u)
    then have u: "authorize_share A share auth access now (node_db n) = Inr ()" by simp
    show ?thesis
    proof (cases "normalize_object_key raw_key")
      case (Inl msg)
      then have "rs_status r = 400 \<and> n' = n" using run u by (auto simp: content_for_share_def text_response_def)
      then show ?thesis by (simp add: run)
    next
      case (Inr key)
      show ?thesis
      proof (cases "key_in_share_scope share key \<and>
            get_object_by_filename_in_bucket key (share_bucket_id share) (node_db n) \<noteq> None")
        case True
        then have "get_object_keyed_with_headers (app_lib A) key hs n = (r, n')"
          using run u Inr by (auto simp: content_for_share_def)
        from get_object_keyed_frame [OF this] True show ?thesis by (simp add: run u Inr)
      next
        case False
        then have "(rs_status r = 403 \<or> rs_status r = 404) \<and> n' = n"
          using run u Inr by (auto simp: content_for_share_def text_response_def split: if_split_asm)
        then show ?thesis by (auto simp: run)
      qed
    qed
  qed
qed

text \<open>C38: the route looks the object up in the share's bucket and then serves the first object of that name in
any bucket: a share of one bucket can hand out the bytes of another one's object.\<close>

theorem share_content_other_bucket:
  assumes "authorize_share A share auth access now (node_db n) = Inr ()"
    and "normalize_object_key raw_key = Inr key" "key_in_share_scope share key"
    and "get_object_by_filename_in_bucket key (share_bucket_id share) (node_db n) = Some own"
    and "get_object_by_filename key (node_db n) = Some other"
    and "obj_bucket_id other \<noteq> share_bucket_id share"
    and "open_read (node_engine n) (filepath other) (node_fs n) = Inr bytes"
    and "header_get ''range'' hs = None"
  shows "rs_body (fst (content_for_share A share auth raw_key access hs now n)) = bytes"
  using assms by (simp add: content_for_share_def get_object_keyed_with_headers_def Let_def)

definition demo_app :: "string app" where
  "demo_app = \<lparr>app_lib = ascii_lib, app_media = demo_media, app_config = demo_config\<rparr>"

definition two_buckets :: node where
  "two_buckets = \<lparr>node_id = ''n1'', node_engine = engine_init ''/d'',
     node_db = (initial_db 0)\<lparr>objects :=
       [\<lparr>obj_id = 1, original_filename = ''a'', filepath = ''objects/u1.bin'', file_format = ''bin'', filesize_bytes = 6,
         obj_etag_type = Md5, etag = [], date_uploaded = 0, date_modified = 0, obj_bucket_id = 2, deleted_at = None\<rparr>,
        \<lparr>obj_id = 2, original_filename = ''a'', filepath = ''objects/u2.bin'', file_format = ''bin'', filesize_bytes = 3,
         obj_etag_type = Md5, etag = [], date_uploaded = 0, date_modified = 0, obj_bucket_id = 3, deleted_at = None\<rparr>]\<rparr>,
     node_fs = [(''/d/objects/u1.bin'', ''secret''), (''/d/objects/u2.bin'', ''own'')], node_events = []\<rparr>"

definition public_file_share :: share_link_record where
  "public_file_share = \<lparr>share_id = 1, share_token = ''t'', short_code = None, share_bucket_id = 3, target_key = ''a'',
     target_kind = File, access_mode = Public, expires_at = None, share_created_by = 1, share_created_at = 0,
     revoked_at = None\<rparr>"

theorem share_content_other_bucket_witness:
  "rs_body (fst (content_for_share demo_app public_file_share None ''a'' None [] 0 two_buckets)) = ''secret''"
proof -
  let ?d = "node_db two_buckets"
  have "authorize_share demo_app public_file_share None None 0 ?d = Inr ()"
    "normalize_object_key ''a'' = Inr ''a''" "key_in_share_scope public_file_share ''a''"
    "get_object_by_filename_in_bucket ''a'' (share_bucket_id public_file_share) ?d = Some (objects ?d ! 1)"
    "get_object_by_filename ''a'' ?d = Some (objects ?d ! 0)"
    "obj_bucket_id (objects ?d ! 0) \<noteq> share_bucket_id public_file_share"
    "open_read (node_engine two_buckets) (filepath (objects ?d ! 0)) (node_fs two_buckets) = Inr ''secret''"
    "header_get ''range'' [] = None" by code_simp+
  then show ?thesis by (rule share_content_other_bucket)
qed

section \<open>Listings stay inside the share\<close>

lemma resolve_list_prefix_inside: "resolve_list_prefix s rel = Inr p \<Longrightarrow> starts_with p (target_key s)"
  unfolding resolve_list_prefix_def Let_def by (auto simp: starts_with_iff split: option.splits if_split_asm)

lemma share_list_prefix_inside: "share_list_prefix share pre = Inr p \<Longrightarrow> starts_with p (target_key share)"
  unfolding share_list_prefix_def using resolve_list_prefix_inside
  by (cases "normalize_folder_prefix pre") (auto split: if_split_asm)

lemma classify_rows_inside:
  "classify_rows pre delim rows = Some (cs, os) \<Longrightarrow>
     (\<forall>c \<in> set cs. starts_with c pre) \<and> set os \<subseteq> {r \<in> set rows. starts_with (original_filename r) pre}"
proof (induction rows arbitrary: cs os)
  case (Cons row rows)
  then show ?case
    by (auto simp: strip_prefix_def split: option.splits if_split_asm)
qed simp

lemma set_window: "set (take i (drop j xs)) \<subseteq> set xs"
  by (rule order_trans [OF set_take_subset set_drop_subset])

lemma set_window_if: "set ys \<subseteq> S \<Longrightarrow> set (if c then [] else ys) \<subseteq> S"
  by simp

lemma page_inside:
  "set (plr_objects (page_folder_object_lists fs os pre delim off lim)) \<subseteq> set os"
  "set (folders (page_folder_object_lists fs os pre delim off lim)) \<subseteq> set fs"
  "common_prefixes (page_folder_object_lists fs os pre delim off lim)
    = map fe_prefix (folders (page_folder_object_lists fs os pre delim off lim))"
  unfolding page_folder_object_lists_def Let_def prefix_list_result.simps
  by (intro set_window_if set_window, intro set_window_if set_window, rule refl)

text \<open>One level of a bucket holds stored active rows of the bucket under the prefix, and sub-folders of the prefix.\<close>

lemma list_level_inside:
  assumes "list_objects_with_prefix lower p ''/'' None (Some bid) 0 0 d = Some res"
  shows "r \<in> set (plr_objects res) \<Longrightarrow> r \<in> set (objects d) \<and> obj_active r \<and> obj_bucket_id r = bid
      \<and> starts_with (original_filename r) p"
    and "x \<in> set (common_prefixes res) \<Longrightarrow> starts_with x p"
proof -
  define rows where "rows = rows_by_name (like_prefix p) (Some bid) d"
  obtain cs os where co: "classify_rows p ''/'' rows = Some (cs, os)"
    and res: "res = page_folder_object_lists (map (\<lambda>cp. folder_entry_from_rows cp rows) (btree_list cs)) os p ''/'' 0 0"
    using assms unfolding list_level_run rows_def by auto
  note page = page_inside [of "map (\<lambda>cp. folder_entry_from_rows cp rows) (btree_list cs)" os p "''/''" 0 0, folded res]
    and cl = classify_rows_inside [OF co]
  show "r \<in> set (objects d) \<and> obj_active r \<and> obj_bucket_id r = bid \<and> starts_with (original_filename r) p"
    if "r \<in> set (plr_objects res)"
  proof -
    have "r \<in> set rows" "starts_with (original_filename r) p" using that page(1) cl by blast+
    then show ?thesis by (simp add: rows_def set_rows_by_name)
  qed
  show "starts_with x p" if x: "x \<in> set (common_prefixes res)"
  proof -
    obtain f where "f \<in> set (folders res)" "x = fe_prefix f" using x unfolding page(3) by auto
    then have "x \<in> set cs" using page(2) by (auto simp: folder_entry_from_rows_count btree_list_def)
    then show ?thesis using cl by blast
  qed
qed

lemma list_level_returns:
  assumes "list_all (\<lambda>r. utf8_slash (original_filename r)) (objects d)"
  shows "list_objects_with_prefix lower p ''/'' None (Some bid) 0 0 d \<noteq> None"
proof -
  have "\<forall>r \<in> set (rows_by_name (like_prefix p) (Some bid) d). utf8_slash (original_filename r)"
    using assms by (simp add: set_rows_by_name list_all_iff)
  from classify_rows_slash [OF this] show ?thesis by (simp add: list_level_run)
qed

text \<open>C26: every object in the listing of a folder share is a stored active object of the share's bucket in the
share's scope, and every sub-folder shown lies in the
shared folder; listing panics on no database whose keys are UTF-8 texts.\<close>

theorem share_list_confined:
  "case list_for_share A share auth pre access now d of
     Json st res \<Rightarrow> authorize_share A share auth access now d = Inr () \<and> target_kind share = Folder
       \<and> list_all (\<lambda>r. r \<in> set (objects d) \<and> obj_active r \<and> obj_bucket_id r = share_bucket_id share
            \<and> key_in_share_scope share (original_filename r)) (plr_objects res)
       \<and> list_all (\<lambda>p. starts_with p (target_key share)) (common_prefixes res)
   | Raw r \<Rightarrow> rs_status r \<in> {400, 401, 403, 410}
   | Panicked \<Rightarrow> \<not> list_all (\<lambda>r. utf8_slash (original_filename r)) (objects d)"
proof (cases "authorize_share A share auth access now d")
  case (Inl r)
  then have "rs_status r \<in> {401, 403, 410}"
    by (auto simp: authorize_share_def share_gone_def text_response_def
        split: sum.splits share_access_mode.splits if_split_asm option.splits)
  then show ?thesis using Inl by (auto simp: list_for_share_def)
next
  case (Inr u)
  show ?thesis
  proof (cases "target_kind share = Folder \<and> (\<exists>p. share_list_prefix share pre = Inr p)")
    case False
    then show ?thesis using Inr
      by (auto simp: list_for_share_def text_reply_def text_response_def split: sum.splits)
  next
    case True
    then obtain p where k: "target_kind share = Folder" and p: "share_list_prefix share pre = Inr p" by blast
    let ?l = "list_objects_with_prefix (lib_lower (app_lib A)) p ''/'' None (Some (share_bucket_id share)) 0 0 d"
    show ?thesis
    proof (cases ?l)
      case None
      then show ?thesis using Inr k p list_level_returns [of d "lib_lower (app_lib A)" p "share_bucket_id share"]
        by (auto simp: list_for_share_def)
    next
      case (Some res)
      have "starts_with k (target_key share)" if "starts_with k p" for k
        using starts_with_trans [OF that share_list_prefix_inside [OF p]] .
      then show ?thesis using Inr k p Some list_level_inside [OF Some]
        by (auto simp: list_for_share_def list_all_iff key_in_share_scope_def)
    qed
  qed
qed

end
