(* ===== verification/Wireguard.thy ===== *)
theory Wireguard
  imports Config
begin

text \<open>
  The overlay network of \<open>src/network/wireguard.rs\<close>: the status it publishes, its start, and the text
  of the pairing snippet. The device itself belongs to boringtun.
\<close>

text \<open>\<open>WgStatus\<close>: what the start-up leaves for the web API and the dashboard, and its snapshot.\<close>

record wg_status =
  wg_ready :: bool
  wg_embed_enabled :: bool
  wg_peer_count :: nat
  wg_bind_addr :: string
  wg_peer_names :: "string list"

definition wg_status_default :: wg_status where
  "wg_status_default = \<lparr>wg_ready = False, wg_embed_enabled = False, wg_peer_count = 0,
     wg_bind_addr = [], wg_peer_names = []\<rparr>"

record wg_snapshot =
  snap_ready :: bool
  snap_embed_enabled :: bool
  snap_peer_count :: nat
  snap_bind_addr :: string
  snap_peers :: "string list"

definition status_snapshot :: "wg_status \<Rightarrow> wg_snapshot" where
  "status_snapshot s = \<lparr>snap_ready = wg_ready s, snap_embed_enabled = wg_embed_enabled s,
     snap_peer_count = wg_peer_count s, snap_bind_addr = wg_bind_addr s, snap_peers = wg_peer_names s\<rparr>"

text \<open>
  The base64 decoders (with and without padding), the device constructor of boringtun, and the text of an
  address are parameters; \<open>WG_INTERFACE\<close> comes from the environment.
\<close>

record 'a wg_lib =
  wl_decode :: "string \<Rightarrow> string option"
  wl_decode_no_pad :: "string \<Rightarrow> string option"
  wl_device_new :: "string \<Rightarrow> string + unit"
  wl_addr_text :: "'a \<Rightarrow> string"
  wl_interface :: "string option"

definition start_boringtun :: "'a wg_lib \<Rightarrow> 'a config \<Rightarrow> string + string" where
  "start_boringtun W c =
     (case wg_private_key c of
        None \<Rightarrow> Inl ''WG_PRIVATE_KEY required when EMBED_WG=1''
      | Some private_key \<Rightarrow>
          (case or_else (wl_decode W (trim private_key)) (wl_decode_no_pad W (trim private_key)) of
             None \<Rightarrow> Inl ''decode WG_PRIVATE_KEY as base64''
           | Some key_bytes \<Rightarrow>
               if length key_bytes \<noteq> 32 then Inl ''WG_PRIVATE_KEY must decode to 32 bytes''
               else (let ifname = unwrap_or (wl_interface W) ''wg-mys3'' in
                     case wl_device_new W ifname of
                       Inl e \<Rightarrow> Inl (''boringtun DeviceHandle::new: '' @ e)
                     | Inr _ \<Rightarrow> Inr ifname)))"

text \<open>The runtime is the status and the interface of the device, if one was made.\<close>

definition wireguard_start :: "'a wg_lib \<Rightarrow> 'a config \<Rightarrow> wg_status \<times> string option" where
  "wireguard_start W c =
     (let peer_names = map seed_id (cluster_peers c);
          status = wg_status_default\<lparr>wg_bind_addr := wl_addr_text W (bind_addr c),
            wg_peer_count := length peer_names, wg_peer_names := peer_names\<rparr> in
      if embed_wg c then
        (let status = status\<lparr>wg_embed_enabled := True\<rparr> in
         case start_boringtun W c of
           Inr handle \<Rightarrow> (status\<lparr>wg_ready := True\<rparr>, Some handle)
         | Inl e \<Rightarrow> (status\<lparr>wg_ready := True\<rparr>, None))
      else (status\<lparr>wg_ready := True\<rparr>, None))"

definition http_bind :: "'a config \<Rightarrow> 'a" where "http_bind c = bind_addr c"
definition grpc_bind :: "'a config \<Rightarrow> 'a" where "grpc_bind c = grpc_bind_addr c"

definition peer_config_snippet :: "string \<Rightarrow> string \<Rightarrow> string \<Rightarrow> string" where
  "peer_config_snippet node endpoint public_key =
     (let nl = [CHR 0x0A] in
      ''[Interface]'' @ nl @ ''# Peer for '' @ node @ nl @ ''Address = 10.0.0.x/24'' @ nl @ nl
      @ ''[Peer]'' @ nl @ ''PublicKey = '' @ public_key @ nl @ ''AllowedIPs = 10.0.0.0/24'' @ nl
      @ ''Endpoint = '' @ endpoint @ nl @ ''PersistentKeepalive = 25'' @ nl)"

text \<open>The overlay is reported ready whatever boringtun did, and a device is only there when it was asked
for and its key decodes to 32 bytes.\<close>

lemma wireguard_start_ready: "wg_ready (fst (wireguard_start W c))"
  by (simp add: wireguard_start_def Let_def split: sum.split)

lemma wireguard_device:
  "snd (wireguard_start W c) = Some handle \<longleftrightarrow> embed_wg c \<and> start_boringtun W c = Inr handle"
  by (auto simp: wireguard_start_def Let_def split: sum.split)

end
