(* ===== verification/Archive.thy ===== *)
theory Archive
  imports Storage
begin

text \<open>
  Folder downloads: the entries and the temporary archive of \<open>src/server/folder_archive.rs\<close>. The archive
  formats belong to their crates; the loop over the entries, its errors and the files are the code's.
\<close>

datatype archive_format = Zip | TarGz | SevenZ

definition archive_format_parse :: "string \<Rightarrow> string + archive_format" where
  "archive_format_parse raw =
     (let s = ascii_lower (trim raw) in
      if s = ''zip'' then Inr Zip
      else if s = ''tar.gz'' \<or> s = ''tgz'' then Inr TarGz
      else if s = ''7z'' then Inr SevenZ
      else Inl ''format must be zip, tar.gz, or 7z'')"

fun archive_extension :: "archive_format \<Rightarrow> string" where
  "archive_extension Zip = ''zip''"
| "archive_extension TarGz = ''tar.gz''"
| "archive_extension SevenZ = ''7z''"

fun archive_content_type :: "archive_format \<Rightarrow> string" where
  "archive_content_type Zip = ''application/zip''"
| "archive_content_type TarGz = ''application/gzip''"
| "archive_content_type SevenZ = ''application/x-7z-compressed''"

text \<open>The loop that names the entries, each with the absolute path of its blob.\<close>

fun filter_archive_entries :: "storage_engine \<Rightarrow> string \<Rightarrow> object_record list \<Rightarrow> (string \<times> string) list" where
  "filter_archive_entries eng pre [] = []"
| "filter_archive_entries eng pre (r # rs) =
     (let key = original_filename r; rest = filter_archive_entries eng pre rs in
      if basename key = ''.keep'' then rest
      else (case strip_prefix key pre of
              None \<Rightarrow> rest
            | Some rel \<Rightarrow>
                if rel = [] \<or> CHR 0x00 \<in> set rel then rest
                else if \<exists>s \<in> set (split_on (CHR ''/'') rel). s = ''.'' \<or> s = ''..'' then rest
                else (rel, absolute_path_for eng (filepath r)) # rest))"

definition folder_download_basename :: "string \<Rightarrow> string" where
  "folder_download_basename pre =
     (let name = basename (trim_end_char (CHR ''/'') pre) in if name = [] then ''folder'' else name)"

text \<open>
  The archive crates: the error they give for an entry's name, and the bytes they leave in the file after
  some entries, finished or not.
\<close>

record archiver =
  ar_rejects :: "archive_format \<Rightarrow> string \<Rightarrow> string option"
  ar_bytes :: "archive_format \<Rightarrow> (string \<times> string) list \<Rightarrow> bool \<Rightarrow> string"

text \<open>One entry: the bytes copied into the archive, or the error with the context of its format.\<close>

definition add_entry :: "archiver \<Rightarrow> archive_format \<Rightarrow> string \<Rightarrow> string \<Rightarrow> fs \<Rightarrow> string res" where
  "add_entry X fmt name blob f =
     (case fmt of
        Zip \<Rightarrow> if ar_rejects X Zip name \<noteq> None then Inl (Bail (''zip start_file '' @ name))
          else (case fs_read blob f of None \<Rightarrow> Inl (Bail (''open '' @ blob)) | Some bs \<Rightarrow> Inr bs)
      | TarGz \<Rightarrow> (case fs_read blob f of
            None \<Rightarrow> Inl (Bail (''tar append '' @ name))
          | Some bs \<Rightarrow> if ar_rejects X TarGz name \<noteq> None then Inl (Bail (''tar append '' @ name)) else Inr bs)
      | SevenZ \<Rightarrow> (case fs_read blob f of
            None \<Rightarrow> Inl (Bail (''open '' @ blob))
          | Some bs \<Rightarrow> (case ar_rejects X SevenZ name of
                Some e \<Rightarrow> Inl (Bail (''7z entry '' @ name @ '': '' @ e)) | None \<Rightarrow> Inr bs)))"

text \<open>The entries written, and the error that stopped the loop if one did.\<close>

fun add_entries ::
  "archiver \<Rightarrow> archive_format \<Rightarrow> (string \<times> string) list \<Rightarrow> fs \<Rightarrow> (string \<times> string) list \<times> error option" where
  "add_entries X fmt [] f = ([], None)"
| "add_entries X fmt ((name, blob) # es) f =
     (case add_entry X fmt name blob f of
        Inl e \<Rightarrow> ([], Some e)
      | Inr bs \<Rightarrow> (case add_entries X fmt es f of (written, err) \<Rightarrow> ((name, bs) # written, err)))"

definition write_archive ::
  "archiver \<Rightarrow> archive_format \<Rightarrow> string \<Rightarrow> (string \<times> string) list \<Rightarrow> fs \<Rightarrow> unit res \<times> fs" where
  "write_archive X fmt out entries f =
     (case add_entries X fmt entries (fs_write out [] f) of
        (written, None) \<Rightarrow> (Inr (), fs_write out (ar_bytes X fmt written True) f)
      | (written, Some e) \<Rightarrow> (Inl e, fs_write out (ar_bytes X fmt written False) f))"

definition archive_path :: "storage_engine \<Rightarrow> archive_format \<Rightarrow> nat \<Rightarrow> string \<Rightarrow> string" where
  "archive_path eng fmt pid uuid =
     path_join (path_join (storage_root eng) ''tmp'')
       (''archive-'' @ show_nat pid @ ''-'' @ uuid @ ''.'' @ archive_extension fmt)"

definition build_archive ::
  "archiver \<Rightarrow> storage_engine \<Rightarrow> nat \<Rightarrow> string \<Rightarrow> archive_format \<Rightarrow> (string \<times> string) list \<Rightarrow> fs \<Rightarrow> string res \<times> fs" where
  "build_archive X eng pid uuid fmt entries f =
     (if entries = [] then (Inl (Bail ''folder is empty''), f)
      else let out = archive_path eng fmt pid uuid in
        (case write_archive X fmt out entries f of
           (Inl e, f') \<Rightarrow> (Inl e, f')
         | (Inr _, f') \<Rightarrow> (Inr out, f')))"

text \<open>The temporary file behind the response: its bytes when opened; dropping it removes the file.\<close>

definition temp_archive_open :: "string \<Rightarrow> fs \<Rightarrow> string res" where
  "temp_archive_open p f = (case fs_read p f of None \<Rightarrow> Inl (Bail (''open archive '' @ p)) | Some bs \<Rightarrow> Inr bs)"

definition temp_archive_drop :: "string \<Rightarrow> fs \<Rightarrow> fs" where
  "temp_archive_drop p f = fs_remove p f"

section \<open>What an archive holds\<close>

text \<open>The name an object has in the archive of a folder, if it is in it.\<close>

definition entry_name :: "string \<Rightarrow> string \<Rightarrow> string option" where
  "entry_name pre key =
     (if basename key = ''.keep'' then None
      else Option.bind (strip_prefix key pre) (\<lambda>rel.
        if rel = [] \<or> CHR 0x00 \<in> set rel \<or> list_ex (\<lambda>s. s = ''.'' \<or> s = ''..'') (split_on (CHR ''/'') rel)
        then None else Some rel))"

lemma filter_archive_entries_map:
  "filter_archive_entries eng pre rs = List.map_filter
     (\<lambda>r. map_option (\<lambda>rel. (rel, absolute_path_for eng (filepath r))) (entry_name pre (original_filename r))) rs"
  by (induction rs) (auto simp: entry_name_def Let_def list_ex_iff map_filter_simps split: option.split)

lemma add_entry_ok:
  "add_entry X fmt name blob f = Inr bs \<longleftrightarrow> ar_rejects X fmt name = None \<and> fs_read blob f = Some bs"
  by (cases fmt) (auto simp: add_entry_def split: option.splits)

lemma add_entries_ok:
  "list_all (\<lambda>(name, blob). ar_rejects X fmt name = None \<and> fs_read blob f \<noteq> None) es \<Longrightarrow>
     add_entries X fmt es f = (map (\<lambda>(name, blob). (name, the (fs_read blob f))) es, None)"
proof (induction es)
  case (Cons e es)
  obtain name blob where e: "e = (name, blob)" by (cases e)
  obtain bs where bs: "fs_read blob f = Some bs" using Cons.prems e by auto
  then have "add_entry X fmt name blob f = Inr bs" using Cons.prems e by (simp add: add_entry_ok)
  then show ?case using Cons e bs by simp
qed simp

lemma add_entries_missing:
  "(name, blob) \<in> set es \<Longrightarrow> fs_read blob f = None \<Longrightarrow> \<exists>written e. add_entries X fmt es f = (written, Some e)"
proof (induction es)
  case (Cons x es)
  obtain n2 b2 where x: "x = (n2, b2)" by (cases x)
  show ?case
  proof (cases "add_entry X fmt n2 b2 f")
    case (Inl e)
    then show ?thesis by (simp add: x)
  next
    case (Inr bs)
    then have "b2 \<noteq> blob" using Cons.prems(2) by (auto simp: add_entry_ok)
    then obtain written e where "add_entries X fmt es f = (written, Some e)" using Cons x by auto
    then show ?thesis using Inr by (simp add: x)
  qed
qed simp

lemma add_entries_fail:
  "\<not> list_all (\<lambda>(name, blob). ar_rejects X fmt name = None \<and> fs_read blob f \<noteq> None) es \<Longrightarrow>
     \<exists>written e. add_entries X fmt es f = (written, Some e)"
proof (induction es)
  case (Cons x es)
  obtain name blob where x: "x = (name, blob)" by (cases x)
  show ?case
  proof (cases "add_entry X fmt name blob f")
    case (Inl e)
    then show ?thesis by (simp add: x)
  next
    case (Inr bs)
    then have "ar_rejects X fmt name = None \<and> fs_read blob f \<noteq> None" by (simp add: add_entry_ok)
    with Cons x obtain written e where "add_entries X fmt es f = (written, Some e)" by auto
    then show ?thesis using Inr by (simp add: x)
  qed
qed simp

lemma archive_format_roundtrip: "archive_format_parse (archive_extension fmt) = Inr fmt"
proof -
  have "archive_format_parse (archive_extension Zip) = Inr Zip"
    "archive_format_parse (archive_extension TarGz) = Inr TarGz"
    "archive_format_parse (archive_extension SevenZ) = Inr SevenZ" by code_simp+
  then show ?thesis by (cases fmt) simp_all
qed

end
