(* ===== verification/Web_Routes.thy ===== *)
theory Web_Routes
  imports Share_Routes Wireguard Archive
begin

text \<open>
  The routes of the web interface in \<open>src/server/web_routes.rs\<close>: statistics, listings, objects, folders
  and their archives, media links, pairing and the static files; then what a download and a media link give.
\<close>

section \<open>Reading\<close>

record stats_response =
  st_bytes_stored :: int
  st_object_count :: int
  st_outbox_pending :: int
  st_wireguard :: wg_snapshot
  st_node_id :: string

definition stats_route :: "'a app \<Rightarrow> wg_status \<Rightarrow> account_record \<Rightarrow> node \<Rightarrow> stats_response reply \<times> node" where
  "stats_route A wg auth n =
     (case object_stats (node_db n) of (stored, objs, pending) \<Rightarrow>
        (Json 200 \<lparr>st_bytes_stored = stored, st_object_count = objs, st_outbox_pending = pending,
           st_wireguard = status_snapshot wg, st_node_id = cfg_node_id (app_config A)\<rparr>, n))"

text \<open>
  \<open>bucket_guard\<close> is how every route on a bucket starts: the bucket by its name, then the permission.
\<close>

definition bucket_guard ::
  "account_record \<Rightarrow> string option \<Rightarrow> crud_action \<Rightarrow> db \<Rightarrow> response + (int \<times> string)" where
  "bucket_guard auth bname action d =
     (case resolve_bucket_id bname d of
        Inl r \<Rightarrow> Inl r
      | Inr (bucket, name) \<Rightarrow>
          (case require_bucket_perm (account_id auth) bucket action d of
             Inl r \<Rightarrow> Inl r | Inr _ \<Rightarrow> Inr (bucket, name)))"

definition objects_route :: "account_record \<Rightarrow> string option \<Rightarrow> node \<Rightarrow> object_record list reply \<times> node" where
  "objects_route auth bname n =
     (case bucket_guard auth bname Read (node_db n) of
        Inl r \<Rightarrow> (Raw r, n)
      | Inr (bucket, _) \<Rightarrow> (Json 200 (list_objects_in_bucket bucket (node_db n)), n))"

record list_query =
  lq_prefix :: string
  lq_delimiter :: string
  lq_search :: "string option"
  lq_bucket :: "string option"
  lq_offset :: int
  lq_limit :: "int option"

definition DEFAULT_LIST_LIMIT :: int where "DEFAULT_LIST_LIMIT = 50"

definition clamp :: "int \<Rightarrow> int \<Rightarrow> int \<Rightarrow> int" where
  "clamp lo hi x = (if x < lo then lo else if x > hi then hi else x)"

definition objects_list_route ::
  "'a app \<Rightarrow> account_record \<Rightarrow> list_query \<Rightarrow> node \<Rightarrow> prefix_list_result reply \<times> node" where
  "objects_list_route A auth q n =
     (case bucket_guard auth (lq_bucket q) Read (node_db n) of
        Inl r \<Rightarrow> (Raw r, n)
      | Inr (bucket, _) \<Rightarrow>
          let limit = clamp 1 500 (unwrap_or (lq_limit q) DEFAULT_LIST_LIMIT);
              offset = max (lq_offset q) 0 in
          (case list_objects_with_prefix (lib_lower (app_lib A)) (lq_prefix q) (lq_delimiter q) (lq_search q)
                  (Some bucket) offset limit (node_db n) of
             None \<Rightarrow> (Panicked, n)
           | Some result \<Rightarrow> (Json 200 result, n)))"

definition web_get_object_content ::
  "'a app \<Rightarrow> account_record \<Rightarrow> string \<Rightarrow> string option \<Rightarrow> headers \<Rightarrow> node \<Rightarrow> response \<times> node" where
  "web_get_object_content A auth raw_key bname hs n =
     (case normalize_object_key raw_key of
        Inl msg \<Rightarrow> (text_response 400 msg, n)
      | Inr key \<Rightarrow>
        (case bucket_guard auth bname Read (node_db n) of
           Inl r \<Rightarrow> (r, n)
         | Inr (bucket, _) \<Rightarrow>
             (case get_object_by_filename_in_bucket key bucket (node_db n) of
                Some _ \<Rightarrow> get_object_keyed_with_headers (app_lib A) key hs n
              | None \<Rightarrow> (no_such_key, n))))"

section \<open>Changing objects and folders\<close>

definition web_put_object ::
  "'a app \<Rightarrow> account_record \<Rightarrow> string \<Rightarrow> string \<Rightarrow> string option \<Rightarrow> headers \<Rightarrow> stream \<Rightarrow> time \<Rightarrow> node
     \<Rightarrow> response \<times> node" where
  "web_put_object A auth uuid raw_key bname hs body now n =
     (case normalize_object_key raw_key of
        Inl msg \<Rightarrow> (text_response 400 msg, n)
      | Inr key \<Rightarrow>
        (case resolve_bucket_id bname (node_db n) of
           Inl r \<Rightarrow> (r, n)
         | Inr (bucket, _) \<Rightarrow>
             let action = (if get_object_by_filename_in_bucket key bucket (node_db n) \<noteq> None then Update else Create) in
             (case require_bucket_perm (account_id auth) bucket action (node_db n) of
                Inl r \<Rightarrow> (r, n)
              | Inr _ \<Rightarrow> put_object_keyed_in_bucket (app_lib A) uuid key hs body (Some bucket) now n)))"

definition web_delete_object ::
  "account_record \<Rightarrow> string \<Rightarrow> string option \<Rightarrow> time \<Rightarrow> node \<Rightarrow> response \<times> node" where
  "web_delete_object auth raw_key bname now n =
     (case normalize_object_key raw_key of
        Inl msg \<Rightarrow> (text_response 400 msg, n)
      | Inr key \<Rightarrow>
        (case bucket_guard auth bname Delete (node_db n) of
           Inl r \<Rightarrow> (r, n)
         | Inr (bucket, _) \<Rightarrow> delete_object_keyed_in_bucket key (Some bucket) now n))"

text \<open>\<open>FolderMutateResponse\<close> is the number of objects affected.\<close>

definition delete_folder_route ::
  "account_record \<Rightarrow> string option \<Rightarrow> string \<Rightarrow> time \<Rightarrow> node \<Rightarrow> int reply \<times> node" where
  "delete_folder_route auth bname raw_prefix now n =
     (case normalize_folder_prefix raw_prefix of
        Inl msg \<Rightarrow> (text_reply 400 msg, n)
      | Inr pre \<Rightarrow>
        (case bucket_guard auth bname Delete (node_db n) of
           Inl r \<Rightarrow> (Raw r, n)
         | Inr (bucket, _) \<Rightarrow>
             (case soft_delete_prefix bucket pre now (node_db n) of
                (affected, d) \<Rightarrow> (Json 200 affected, n\<lparr>node_db := d\<rparr>))))"

definition rename_folder_route ::
  "account_record \<Rightarrow> string option \<Rightarrow> string \<Rightarrow> string \<Rightarrow> time \<Rightarrow> node \<Rightarrow> int reply \<times> node" where
  "rename_folder_route auth bname from_raw to_raw now n =
     (case normalize_folder_prefix from_raw of
        Inl msg \<Rightarrow> (text_reply 400 (''from_prefix: '' @ msg), n)
      | Inr from_prefix \<Rightarrow>
        (case normalize_folder_prefix to_raw of
           Inl msg \<Rightarrow> (text_reply 400 (''to_prefix: '' @ msg), n)
         | Inr to_prefix \<Rightarrow>
           (case bucket_guard auth bname Update (node_db n) of
              Inl r \<Rightarrow> (Raw r, n)
            | Inr (bucket, _) \<Rightarrow>
                (case rename_prefix bucket from_prefix to_prefix now (node_db n) of
                   (Inr affected, d) \<Rightarrow> (Json 200 affected, n\<lparr>node_db := d\<rparr>)
                 | (Inl e, d) \<Rightarrow>
                     (text_reply (if err_has e ''already exists'' \<or> err_has e ''empty or does not'' then 409 else 400)
                        (err_msg e), n\<lparr>node_db := d\<rparr>)))))"

section \<open>Downloading a folder\<close>

definition safe_name_char :: "char \<Rightarrow> char" where
  "safe_name_char c = (if c = CHR 0x22 \<or> c = CHR 0x5C \<or> c = CHR ''/'' then CHR ''_'' else c)"

definition archive_headers :: "lib \<Rightarrow> archive_format \<Rightarrow> string \<Rightarrow> nat \<Rightarrow> headers" where
  "archive_headers L fmt pre len =
     [(''content-type'', archive_content_type fmt),
      (''content-length'', header_or L ''0'' (show_nat len)),
      (''content-disposition'', header_or L ''attachment''
         (''attachment; filename='' @ [CHR 0x22] @ map safe_name_char (folder_download_basename pre) @ ''.''
            @ archive_extension fmt @ [CHR 0x22]))]"

text \<open>The temporary file is dropped when the body has been sent, or with the error of opening it.\<close>

definition folder_archive_route ::
  "'a app \<Rightarrow> archiver \<Rightarrow> nat \<Rightarrow> string \<Rightarrow> account_record \<Rightarrow> string option \<Rightarrow> string \<Rightarrow> string \<Rightarrow> node
     \<Rightarrow> response \<times> node" where
  "folder_archive_route A X pid uuid auth bname raw_prefix raw_format n =
     (case normalize_folder_prefix raw_prefix of
        Inl msg \<Rightarrow> (text_response 400 msg, n)
      | Inr pre \<Rightarrow>
        (case archive_format_parse raw_format of
           Inl msg \<Rightarrow> (text_response 400 msg, n)
         | Inr fmt \<Rightarrow>
           (case bucket_guard auth bname Read (node_db n) of
              Inl r \<Rightarrow> (r, n)
            | Inr (bucket, _) \<Rightarrow>
                let entries = filter_archive_entries (node_engine n) pre
                      (list_keys_under_prefix bucket pre (node_db n)) in
                if entries = [] then (text_response 400 ''folder is empty'', n)
                else (case build_archive X (node_engine n) pid uuid fmt entries (node_fs n) of
                        (Inl e, f) \<Rightarrow>
                          (text_response (if err_has e ''folder is empty'' then 400 else 500) (err_msg e),
                           n\<lparr>node_fs := f\<rparr>)
                      | (Inr out, f) \<Rightarrow>
                          (case temp_archive_open out f of
                             Inl e \<Rightarrow> (text_response 500 (err_msg e), n\<lparr>node_fs := f\<rparr>)
                           | Inr bytes \<Rightarrow>
                               (\<lparr>rs_status = 200, rs_headers = archive_headers (app_lib A) fmt pre (length bytes),
                                 rs_body = bytes\<rparr>,
                                n\<lparr>node_fs := temp_archive_drop out f\<rparr>))))))"

section \<open>Media links\<close>

record media_link_response =
  mlr_url :: string
  mlr_path :: string
  mlr_access_mode :: "share_access_mode option"
  mlr_auth :: string
  mlr_expires_at :: "time option"

text \<open>A share's link: with a token of the share, unless the share is public.\<close>

definition share_link_reply ::
  "'a app \<Rightarrow> share_link_record \<Rightarrow> string \<Rightarrow> time \<Rightarrow> media_link_response reply" where
  "share_link_reply A share path now =
     (if share_needs_access_token (access_mode share) then
        (case mint_share_token (app_media A) (app_config A) share now of
           Inl err \<Rightarrow> text_reply 500 err
         | Inr (tok, exp) \<Rightarrow>
             let path = append_access_query path tok in
             Json 200 \<lparr>mlr_url = path, mlr_path = path, mlr_access_mode = Some (access_mode share),
               mlr_auth = ''token'', mlr_expires_at = Some exp\<rparr>)
      else Json 200 \<lparr>mlr_url = path, mlr_path = path, mlr_access_mode = Some (access_mode share),
             mlr_auth = ''none'', mlr_expires_at = expires_at share\<rparr>)"

definition create_media_link ::
  "'a app \<Rightarrow> account_record \<Rightarrow> string option \<Rightarrow> string \<Rightarrow> share_target_kind \<Rightarrow> time \<Rightarrow> node
     \<Rightarrow> media_link_response reply \<times> node" where
  "create_media_link A auth bname raw_key kind now n =
     (case bucket_guard auth bname Read (node_db n) of
        Inl r \<Rightarrow> (Raw r, n)
      | Inr (bucket, name) \<Rightarrow>
        (case kind of
           Folder \<Rightarrow>
             (case normalize_folder_prefix raw_key of
                Inl msg \<Rightarrow> (text_reply 400 msg, n)
              | Inr pre \<Rightarrow>
                  (case prefer_share_for_link (list_folder_shares_for_prefix bucket pre (node_db n)) None now of
                     None \<Rightarrow> (text_reply 409 ''create a share for this folder first'', n)
                   | Some share \<Rightarrow> (share_link_reply A share (share_page_path share) now, n)))
         | File \<Rightarrow>
             (case normalize_object_key raw_key of
                Inl msg \<Rightarrow> (text_reply 400 msg, n)
              | Inr key \<Rightarrow>
                  if get_object_by_filename_in_bucket key bucket (node_db n) = None
                  then (text_reply 404 ''object not found'', n)
                  else (case prefer_share_for_link (list_shares_covering_key bucket key (node_db n)) (Some key) now of
                          Some share \<Rightarrow> (share_link_reply A share (share_content_path share key) now, n)
                        | None \<Rightarrow>
                            (case mint_personal_token (app_media A) (app_config A) (account_id auth) bucket key now of
                               Inl err \<Rightarrow> (text_reply 500 err, n)
                             | Inr (tok, exp) \<Rightarrow>
                                 let path = append_access_query (personal_content_path name key) tok in
                                 (Json 200 \<lparr>mlr_url = path, mlr_path = path, mlr_access_mode = None,
                                    mlr_auth = ''token'', mlr_expires_at = Some exp\<rparr>, n))))))"

definition media_content_by_access ::
  "'a app \<Rightarrow> string \<Rightarrow> string option \<Rightarrow> string \<Rightarrow> headers \<Rightarrow> time \<Rightarrow> node \<Rightarrow> response \<times> node" where
  "media_content_by_access A raw_key bname access hs now n =
     (case normalize_object_key raw_key of
        Inl msg \<Rightarrow> (text_response 400 msg, n)
      | Inr key \<Rightarrow>
        (case verify_access_token (app_media A) (app_config A) access now of
           Inl err \<Rightarrow> (text_response 401 err, n)
         | Inr (ShareGrant _ _ _) \<Rightarrow> (text_response 401 ''access token is not a personal media grant'', n)
         | Inr (PersonalGrant _ bucket tok_key _) \<Rightarrow>
             if tok_key \<noteq> key then (text_response 403 ''key mismatch'', n)
             else (case resolve_bucket_id bname (node_db n) of
                     Inl r \<Rightarrow> (r, n)
                   | Inr (resolved, _) \<Rightarrow>
                       if resolved \<noteq> bucket then (text_response 403 ''bucket mismatch'', n)
                       else (case get_object_by_filename_in_bucket key bucket (node_db n) of
                               Some _ \<Rightarrow> get_object_keyed_with_headers (app_lib A) key hs n
                             | None \<Rightarrow> (text_response 404 ''object not found'', n)))))"

section \<open>Peers, pairing and the web interface\<close>

definition peers_route :: "account_record \<Rightarrow> node \<Rightarrow> cluster_peer list reply \<times> node" where
  "peers_route auth n =
     (case require_owner (account_id auth) (node_db n) of
        Inl r \<Rightarrow> (Raw r, n)
      | Inr _ \<Rightarrow> (Json 200 (list_active_peers (node_db n)), n))"

text \<open>
  The QR crate gives the rows of modules of a text; the image crate encodes the size of a white square
  image and the pixels set to black, and the standard base64 its bytes.
\<close>

record qr_lib =
  ql_code :: "string \<Rightarrow> string + bool list list"
  ql_png :: "nat \<Rightarrow> (nat \<times> nat) list \<Rightarrow> string + string"
  ql_base64 :: "string \<Rightarrow> string"

definition dark_pixels :: "nat \<Rightarrow> nat \<Rightarrow> bool list list \<Rightarrow> (nat \<times> nat) list" where
  "dark_pixels scale quiet code =
     [((x + quiet) * scale + dx, (y + quiet) * scale + dy).
        y \<leftarrow> [0..<length code], x \<leftarrow> [0..<length code], code ! y ! x, dy \<leftarrow> [0..<scale], dx \<leftarrow> [0..<scale]]"

definition qr_png_base64 :: "qr_lib \<Rightarrow> string \<Rightarrow> string + string" where
  "qr_png_base64 Q data =
     (case ql_code Q data of
        Inl e \<Rightarrow> Inl e
      | Inr code \<Rightarrow>
          let scale = 8; quiet = 4; side = (length code + quiet * 2) * scale in
          (case ql_png Q side (dark_pixels scale quiet code) of
             Inl e \<Rightarrow> Inl e
           | Inr png \<Rightarrow> Inr (ql_base64 Q png)))"

text \<open>The reply is the snippet and its picture.\<close>

definition wg_qr_route ::
  "'a app \<Rightarrow> ('a \<Rightarrow> string) \<Rightarrow> qr_lib \<Rightarrow> account_record \<Rightarrow> string option \<Rightarrow> node \<Rightarrow> (string \<times> string) reply \<times> node" where
  "wg_qr_route A addr_text Q auth endpoint n =
     (case require_owner (account_id auth) (node_db n) of
        Inl r \<Rightarrow> (Raw r, n)
      | Inr _ \<Rightarrow>
          let ep = unwrap_or endpoint (addr_text (grpc_bind_addr (app_config A)));
              snippet = peer_config_snippet (cfg_node_id (app_config A)) ep ''REPLACE_WITH_NODE_PUBLIC_KEY'' in
          (case qr_png_base64 Q snippet of
             Inl err \<Rightarrow> (text_reply 500 err, n)
           | Inr b64 \<Rightarrow> (Json 200 (snippet, b64), n)))"

text \<open>The embedded files are a parameter, as is the replacement of invalid UTF-8.\<close>

definition html_response :: "string \<Rightarrow> response" where
  "html_response body = \<lparr>rs_status = 200, rs_headers = [(''content-type'', ''text/html; charset=utf-8'')], rs_body = body\<rparr>"

definition static_or_spa ::
  "lib \<Rightarrow> (string \<Rightarrow> string option) \<Rightarrow> (string \<Rightarrow> string) \<Rightarrow> string \<Rightarrow> response" where
  "static_or_spa L asset lossy uri_path =
     (let p0 = trim_start_char (CHR ''/'') uri_path;
          p = (if p0 = [] then ''index.html'' else p0) in
      case asset p of
        Some file \<Rightarrow> \<lparr>rs_status = 200, rs_headers = [(''content-type'', lib_mime L p)], rs_body = file\<rparr>
      | None \<Rightarrow> (case asset ''index.html'' of
            Some index \<Rightarrow> html_response (lossy index)
          | None \<Rightarrow> text_response 404 ''not found''))"

definition serve_share_html :: "(string \<Rightarrow> string option) \<Rightarrow> (string \<Rightarrow> string) \<Rightarrow> response" where
  "serve_share_html asset lossy =
     (case asset ''share.html'' of
        Some file \<Rightarrow> html_response (lossy file) | None \<Rightarrow> text_response 404 ''share page not found'')"


section \<open>What a downloaded folder holds\<close>

text \<open>The entries of a folder: its active objects by name, each under its name relative to the folder.\<close>

definition folder_entries :: "storage_engine \<Rightarrow> int \<Rightarrow> string \<Rightarrow> db \<Rightarrow> (string \<times> string) list" where
  "folder_entries eng b pre d = List.map_filter
     (\<lambda>r. map_option (\<lambda>rel. (rel, absolute_path_for eng (filepath r))) (entry_name pre (original_filename r)))
     (sort_key original_filename
       (filter (\<lambda>r. obj_active r \<and> obj_bucket_id r = b \<and> starts_with (original_filename r) pre) (objects d)))"

lemma entry_name_starts: "entry_name pre key \<noteq> None \<Longrightarrow> starts_with key pre"
  by (auto simp: entry_name_def strip_prefix_def split: if_split_asm)

lemma map_filter_filter:
  "(\<And>x. f x \<noteq> None \<Longrightarrow> P x) \<Longrightarrow> List.map_filter f (filter P xs) = List.map_filter f xs"
  by (induction xs) (auto simp: map_filter_simps split: option.split)

lemma archive_entries_folder:
  "filter_archive_entries eng pre (list_keys_under_prefix b pre d) = folder_entries eng b pre d"
proof -
  let ?f = "\<lambda>r. map_option (\<lambda>rel. (rel, absolute_path_for eng (filepath r))) (entry_name pre (original_filename r))"
  let ?P = "\<lambda>r. starts_with (original_filename r) pre"
  have like: "starts_with k pre \<Longrightarrow> like_prefix pre k" for k by (simp add: like_prefix_starts_with)
  have "List.map_filter ?f (list_keys_under_prefix b pre d) = List.map_filter ?f (filter ?P (list_keys_under_prefix b pre d))"
    using entry_name_starts by (intro map_filter_filter [symmetric]) auto
  also have "filter ?P (list_keys_under_prefix b pre d) = sort_key original_filename
      (filter (\<lambda>r. obj_active r \<and> obj_bucket_id r = b \<and> starts_with (original_filename r) pre) (objects d))"
    using like unfolding list_keys_under_prefix_def filter_sort select_where_def
    by (auto simp: filter_filter intro!: arg_cong [where f = "sort_key original_filename"] filter_cong)
  finally show ?thesis by (simp add: filter_archive_entries_map folder_entries_def)
qed


lemma build_archive_ok:
  assumes "es \<noteq> []" "list_all (\<lambda>(name, blob). ar_rejects X fmt name = None \<and> fs_read blob f \<noteq> None
      \<and> blob \<noteq> archive_path eng fmt pid uuid) es"
  shows "build_archive X eng pid uuid fmt es f = (Inr (archive_path eng fmt pid uuid),
    fs_write (archive_path eng fmt pid uuid) (ar_bytes X fmt (map (\<lambda>(name, blob). (name, the (fs_read blob f))) es) True) f)"
proof -
  have "list_all (\<lambda>(name, blob). ar_rejects X fmt name = None
      \<and> fs_read blob (fs_write (archive_path eng fmt pid uuid) [] f) \<noteq> None) es"
    using assms(2) by (auto simp: list_all_iff)
  note add = add_entries_ok [OF this]
  have "map (\<lambda>(name, blob). (name, the (fs_read blob (fs_write (archive_path eng fmt pid uuid) [] f)))) es
      = map (\<lambda>(name, blob). (name, the (fs_read blob f))) es"
    using assms(2) by (auto simp: list_all_iff)
  then show ?thesis
    using assms(1)
    by (simp only: build_archive_def write_archive_def add Let_def if_False prod.case option.case sum.case simp_thms)
qed

lemma resolve_bucket_id_status: "resolve_bucket_id bname d = Inl r \<Longrightarrow> rs_status r = 404"
  by (auto simp: resolve_bucket_id_def text_response_def Let_def split: option.splits)

lemma build_archive_fail:
  assumes "es \<noteq> []" "list_all (\<lambda>(name, blob). blob \<noteq> archive_path eng fmt pid uuid) es"
    and "\<not> list_all (\<lambda>(name, blob). ar_rejects X fmt name = None \<and> fs_read blob f \<noteq> None) es"
  shows "\<exists>e part. build_archive X eng pid uuid fmt es f = (Inl e, fs_write (archive_path eng fmt pid uuid) part f)"
proof -
  have "fs_read (snd x) (fs_write (archive_path eng fmt pid uuid) [] f) = fs_read (snd x) f" if "x \<in> set es" for x
    using assms(2) that by (auto simp: list_all_iff split_beta)
  then have "\<not> list_all (\<lambda>(name, blob). ar_rejects X fmt name = None
      \<and> fs_read blob (fs_write (archive_path eng fmt pid uuid) [] f) \<noteq> None) es"
    using assms(3) unfolding list_all_iff split_beta by simp
  from add_entries_fail [OF this] obtain written e
    where "add_entries X fmt es (fs_write (archive_path eng fmt pid uuid) [] f) = (written, Some e)" by blast
  then have "build_archive X eng pid uuid fmt es f
      = (Inl e, fs_write (archive_path eng fmt pid uuid) (ar_bytes X fmt written False) f)"
    using assms(1) by (simp add: build_archive_def write_archive_def Let_def)
  then show ?thesis by blast
qed

lemma folder_entry_blob:
  "(rel, blob) \<in> set (folder_entries eng b pre d) \<Longrightarrow> \<exists>x \<in> set (objects d). blob = absolute_path_for eng (filepath x)"
  by (auto simp: folder_entries_def mem_map_filter)


definition demo_archiver :: archiver where
  "demo_archiver = \<lparr>ar_rejects = (\<lambda>fmt name. None),
     ar_bytes = (\<lambda>fmt es fin. concat (map (\<lambda>(name, bs). name @ ''='' @ bs @ '';'') es) @ (if fin then ''.'' else []))\<rparr>"

definition reader :: account_record where
  "reader = \<lparr>account_id = 7, username_hex = ''u'', password_hash = [], display_name = [], is_disabled = False,
     account_created_utc = 0, account_updated_utc = 0, created_by_account_id = None\<rparr>"

text \<open>A node whose bucket 1 the account 7 owns, with two objects and a marker in a folder.\<close>

definition folder_node :: "fs \<Rightarrow> node" where
  "folder_node f = \<lparr>node_id = ''n1'', node_engine = engine_init ''/d'',
     node_db = (initial_db 0)\<lparr>accounts := [reader],
       buckets := map (\<lambda>b. b\<lparr>owner_account_id := Some 7\<rparr>) (buckets (initial_db 0)),
       objects := [demo_object 1 ''f/a'' 1 None, demo_object 2 ''f/.keep'' 1 None, demo_object 3 ''f/s/b'' 1 None,
         demo_object 4 ''g/c'' 1 None]\<rparr>,
     node_fs = f, node_events = []\<rparr>"


text \<open>When a blob of the folder is missing the download is answered 500, and the unfinished archive stays
behind in the node's temporary directory.\<close>

theorem folder_archive_leaves_file:
  assumes "normalize_folder_prefix raw = Inr pre" "archive_format_parse raw_fmt = Inr fmt"
    and "bucket_guard auth bname Read (node_db n) = Inr (b, name)"
    and missing: "(entry, blob) \<in> set (folder_entries (node_engine n) b pre (node_db n))"
      "fs_read blob (node_fs n) = None" "blob \<noteq> archive_path (node_engine n) fmt pid uuid"
    and run: "folder_archive_route A X pid uuid auth bname raw raw_fmt n = (r, n')"
  shows "rs_status r \<noteq> 200 \<and> fs_read (archive_path (node_engine n) fmt pid uuid) (node_fs n') \<noteq> None"
proof -
  let ?es = "folder_entries (node_engine n) b pre (node_db n)"
  let ?out = "archive_path (node_engine n) fmt pid uuid"
  have ne: "?es \<noteq> []" using missing(1) by auto
  have "fs_read blob (fs_write ?out [] (node_fs n)) = None" using missing by simp
  from add_entries_missing [OF missing(1) this] obtain written e
    where add: "add_entries X fmt ?es (fs_write ?out [] (node_fs n)) = (written, Some e)" by blast
  then have "build_archive X (node_engine n) pid uuid fmt ?es (node_fs n)
      = (Inl e, fs_write ?out (ar_bytes X fmt written False) (node_fs n))"
    using ne by (simp add: build_archive_def write_archive_def Let_def)
  then show ?thesis
    using assms(1-3) run ne
    by (auto simp: folder_archive_route_def archive_entries_folder text_response_def split: if_splits)
qed

theorem folder_archive_leaves_file_witness:
  "let (r, n') = folder_archive_route demo_app demo_archiver 42 ''u1'' reader None ''f'' ''zip''
      (folder_node [(''/d/objects/1.bin'', ''A'')]) in
   rs_status r = 500 \<and> fs_read ''/d/tmp/archive-42-u1.zip'' (node_fs n') = Some ''a=A;''"
proof -
  let ?n = "folder_node [(''/d/objects/1.bin'', ''A'')]"
  obtain r n' where run: "folder_archive_route demo_app demo_archiver 42 ''u1'' reader None ''f'' ''zip'' ?n = (r, n')"
    by force
  have h: "normalize_folder_prefix ''f'' = Inr ''f/''" "archive_format_parse ''zip'' = Inr Zip"
    "bucket_guard reader None Read (node_db ?n) = Inr (1, ''storage'')"
    "fs_read ''/d/objects/3.bin'' (node_fs ?n) = None"
    "''/d/objects/3.bin'' \<noteq> archive_path (node_engine ?n) Zip 42 ''u1''"
    by code_simp+
  have m: "(''s/b'', ''/d/objects/3.bin'') \<in> set (folder_entries (node_engine ?n) 1 ''f/'' (node_db ?n))" by code_simp
  note f = folder_archive_leaves_file [OF h(1-3) m h(4,5) run]
  have "rs_status (fst (folder_archive_route demo_app demo_archiver 42 ''u1'' reader None ''f'' ''zip'' ?n)) = 500"
    "fs_read ''/d/tmp/archive-42-u1.zip'' (node_fs (snd (folder_archive_route demo_app demo_archiver 42 ''u1'' reader None ''f'' ''zip'' ?n)))
      = Some ''a=A;''" by code_simp+
  then show ?thesis using f by (simp add: run)
qed


section \<open>What a media link opens\<close>

text \<open>The media route needs no session, and gives bytes only for a text that carries the node's signature on
a personal grant of exactly this bucket and key that has not run out, for an object of that bucket; it changes
no row and no file.\<close>

theorem media_content_guarded:
  "let (r, n') = media_content_by_access A raw_key bname access hs now n in
   node_db n' = node_db n \<and> node_fs n' = node_fs n \<and>
   (if rs_status r = 200 \<or> rs_status r = 206 then
      (\<exists>key account bucket name exp payload sig. normalize_object_key raw_key = Inr key
         \<and> resolve_bucket_id bname (node_db n) = Inr (bucket, name)
         \<and> get_object_by_filename_in_bucket key bucket (node_db n) \<noteq> None
         \<and> trim access = payload @ ''.'' @ sig
         \<and> sign (app_media A) (media_secret (app_media A) (app_config A)) payload = Inr sig
         \<and> payload_says (app_media A) payload (PersonalGrant account bucket key exp) \<and> now_unix now \<le> exp)
    else True)"
proof -
  obtain r n' where run: "media_content_by_access A raw_key bname access hs now n = (r, n')" by force
  have refuse: "?thesis" if "n' = n" "rs_status r \<noteq> 200" "rs_status r \<noteq> 206"
    using that by (simp add: run)
  show ?thesis
  proof (cases "normalize_object_key raw_key")
    case (Inl msg)
    then show ?thesis using run by (intro refuse) (auto simp: media_content_by_access_def text_response_def)
  next
    case key: (Inr key)
    show ?thesis
    proof (cases "\<exists>account bucket exp name x. verify_access_token (app_media A) (app_config A) access now
          = Inr (PersonalGrant account bucket key exp) \<and> resolve_bucket_id bname (node_db n) = Inr (bucket, name)
          \<and> get_object_by_filename_in_bucket key bucket (node_db n) = Some x")
      case True
      then obtain account bucket exp name x where
        v: "verify_access_token (app_media A) (app_config A) access now = Inr (PersonalGrant account bucket key exp)"
        and b: "resolve_bucket_id bname (node_db n) = Inr (bucket, name)"
        and x: "get_object_by_filename_in_bucket key bucket (node_db n) = Some x" by blast
      have "get_object_keyed_with_headers (app_lib A) key hs n = (r, n')"
        using run key v b x by (simp add: media_content_by_access_def)
      from get_object_keyed_frame [OF this] have frame: "node_db n' = node_db n" "node_fs n' = node_fs n" by blast+
      obtain payload sig where "trim access = payload @ ''.'' @ sig"
        "sign (app_media A) (media_secret (app_media A) (app_config A)) payload = Inr sig"
        "payload_says (app_media A) payload (PersonalGrant account bucket key exp)" "now_unix now \<le> exp"
        using v unfolding verify_access_token_iff by auto
      then show ?thesis using frame key b x by (simp add: run) blast
    next
      case False
      then show ?thesis
        using run key by (intro refuse)
          (auto simp: media_content_by_access_def text_response_def dest: resolve_bucket_id_status
            split: sum.splits media_grant.splits if_split_asm option.splits)
    qed
  qed
qed

definition share_exp :: "share_link_record \<Rightarrow> time \<Rightarrow> time" where
  "share_exp share now = min (now + 604800) (case expires_at share of None \<Rightarrow> now + 604800 | Some x \<Rightarrow> x)"

definition share_payload :: "share_link_record \<Rightarrow> time \<Rightarrow> string" where
  "share_payload share exp =
     ''v1.s.'' @ show_int (share_id share) @ ''.'' @ show_int (share_bucket_id share) @ ''.'' @ show_int exp"

lemma mint_share_token_signs:
  assumes "media_lib_ok M" "now < share_exp share now"
  shows "\<exists>sig. sign M (media_secret M c) (share_payload share (share_exp share now)) = Inr sig
    \<and> mint_share_token M c share now = Inr (share_payload share (share_exp share now) @ ''.'' @ sig, share_exp share now)"
proof -
  have e: "share_exp share now = (case expires_at share of Some e \<Rightarrow> if e < now + SHARE_TOKEN_MAX_SECS then e
      else now + SHARE_TOKEN_MAX_SECS | None \<Rightarrow> now + SHARE_TOKEN_MAX_SECS)"
    by (auto simp: share_exp_def SHARE_TOKEN_MAX_SECS_def split: option.split)
  obtain sig where sig: "sign M (media_secret M c) (share_payload share (share_exp share now)) = Inr sig"
    using sign_total [OF assms(1)] by blast
  have "mint_share_token M c share now = Inr (share_payload share (share_exp share now) @ ''.'' @ sig, share_exp share now)"
    unfolding mint_share_token_def Let_def e [symmetric] share_payload_def [symmetric]
    using sig assms(2) by simp
  then show ?thesis using sig by blast
qed

lemma signed_share_token:
  assumes "media_lib_ok M" "in_i64 (share_id share)" "in_i64 (share_bucket_id share)" "in_i64 exp"
    and sig: "sign M (media_secret M c) (share_payload share exp) = Inr sig" and later: "now_unix later \<le> exp"
  shows "nonempty_trimmed (Some (share_payload share exp @ ''.'' @ sig)) = Some (share_payload share exp @ ''.'' @ sig)"
    "verify_access_token M c (share_payload share exp @ ''.'' @ sig) later
      = Inr (ShareGrant (share_id share) (share_bucket_id share) exp)"
proof -
  have p: "share_payload share exp = CHR ''v'' # tl (share_payload share exp)" by (simp add: share_payload_def)
  show "verify_access_token M c (share_payload share exp @ ''.'' @ sig) later
      = Inr (ShareGrant (share_id share) (share_bucket_id share) exp)"
    using verify_signed [OF assms(1) sig p, of later] share_payload_grant [OF assms(2-4)] later
    by (simp add: share_payload_def)
  obtain mac where "sig = hex_encode mac" using sig by (auto simp: sign_def split: sum.splits)
  then have "list_all hex_char sig" by (simp add: hex_encode_chars)
  then have "plain_char (last (share_payload share exp @ ''.'' @ sig))"
    using hex_char_plain by (cases sig rule: rev_cases) (auto simp: plain_char_def)
  moreover have "plain_char (hd (share_payload share exp @ ''.'' @ sig))"
    by (subst p) (simp add: plain_char_def)
  ultimately have "trim (share_payload share exp @ ''.'' @ sig) = share_payload share exp @ ''.'' @ sig"
    by (intro trim_plain) simp
  then show "nonempty_trimmed (Some (share_payload share exp @ ''.'' @ sig)) = Some (share_payload share exp @ ''.'' @ sig)"
    by (simp add: nonempty_trimmed_def)
qed

lemma find_in_set: "find P xs = Some x \<Longrightarrow> x \<in> set xs"
  by (induction xs) (auto split: if_split_asm)

lemma prefer_share_usable:
  "prefer_share_for_link ss k now = Some s \<Longrightarrow> s \<in> set ss \<and> share_is_usable s now = Inr ()"
proof -
  assume p: "prefer_share_for_link ss k now = Some s"
  have "s \<in> set (filter (\<lambda>s. share_is_usable s now = Inr ()) ss)"
    using p unfolding prefer_share_for_link_def Let_def
    by (auto split: if_split_asm option.splits dest!: find_in_set intro: hd_in_set simp del: set_filter)
  then show ?thesis by simp
qed

text \<open>The shares of a bucket that cover a key and are in force.\<close>

definition shares_in_force :: "int \<Rightarrow> string \<Rightarrow> time \<Rightarrow> db \<Rightarrow> share_link_record set" where
  "shares_in_force b key now d = {s \<in> set (share_links d). share_bucket_id s = b \<and> covers_key s key
     \<and> revoked_at s = None \<and> (case expires_at s of None \<Rightarrow> True | Some e \<Rightarrow> now \<le> e)}"

lemma usable_iff: "share_is_usable s now = Inr () \<longleftrightarrow>
    revoked_at s = None \<and> (case expires_at s of None \<Rightarrow> True | Some e \<Rightarrow> now \<le> e)"
  by (auto simp: share_is_usable_def split: option.split)

lemma usable_covering:
  "set (filter (\<lambda>s. share_is_usable s now = Inr ()) (list_shares_covering_key b key d)) = shares_in_force b key now d"
  by (auto simp: list_shares_covering_key_def newest_shares_def set_select_where usable_iff shares_in_force_def)

text \<open>Which share a link is for: a public one if there is any.\<close>

lemma prefer_share_cases:
  "case prefer_share_for_link (list_shares_covering_key b key d) fkey now of
     None \<Rightarrow> shares_in_force b key now d = {}
   | Some s \<Rightarrow> s \<in> shares_in_force b key now d
       \<and> (access_mode s = Public \<longleftrightarrow> (\<exists>x \<in> shares_in_force b key now d. access_mode x = Public))"
proof -
  define us where "us = filter (\<lambda>s. share_is_usable s now = Inr ()) (list_shares_covering_key b key d)"
  have U: "set us = shares_in_force b key now d" unfolding us_def by (rule usable_covering)
  have mem: "find P us = Some s \<Longrightarrow> s \<in> set us \<and> P s" for P s by (auto simp: find_Some_iff)
  have none: "find P us = None \<Longrightarrow> \<not> (\<exists>x \<in> set us. P x)" for P by (auto simp: find_None_iff)
  show ?thesis
  proof (cases "us = []")
    case True
    then show ?thesis unfolding U [symmetric] prefer_share_for_link_def Let_def us_def [symmetric] by simp
  next
    case False
    have p: "prefer_share_for_link (list_shares_covering_key b key d) fkey now =
      (case find (\<lambda>s. access_mode s = Public) us of Some s \<Rightarrow> Some s
       | None \<Rightarrow> (case (case fkey of None \<Rightarrow> None | Some k \<Rightarrow> find (\<lambda>s. target_kind s = File \<and> target_key s = k) us) of
           Some s \<Rightarrow> Some s | None \<Rightarrow> Some (hd us)))"
      unfolding prefer_share_for_link_def Let_def us_def [symmetric] using False by simp
    show ?thesis
    proof (cases "find (\<lambda>s. access_mode s = Public) us")
      case (Some s)
      then show ?thesis unfolding U [symmetric] p using mem [OF Some] by auto
    next
      case None
      from none [OF this] have np: "access_mode x \<noteq> Public" if "x \<in> set us" for x using that by blast
      have "\<exists>s \<in> set us. prefer_share_for_link (list_shares_covering_key b key d) fkey now = Some s"
        unfolding p None using False by (auto split: option.split dest: mem)
      then show ?thesis unfolding U [symmetric] using np by auto
    qed
  qed
qed

lemma public_link_opens:
  assumes "access_mode s = Public" "revoked_at s = None" "case expires_at s of None \<Rightarrow> True | Some e \<Rightarrow> later \<le> e"
  shows "authorize_share A s None None later d = Inr ()"
  using assms usable_iff [of s later] by (simp add: authorize_share_def)

lemma token_link_opens:
  assumes lib: "media_lib_ok (app_media A)"
    and i64: "in_i64 (share_id s)" "in_i64 (share_bucket_id s)" "in_i64 (share_exp s now)"
    and mode: "access_mode s \<noteq> Public" and rev: "revoked_at s = None"
    and ends: "case expires_at s of None \<Rightarrow> True | Some e \<Rightarrow> now < e"
  shows "\<exists>tok. share_link_reply A s path now = Json 200 \<lparr>mlr_url = append_access_query path tok,
        mlr_path = append_access_query path tok, mlr_access_mode = Some (access_mode s), mlr_auth = ''token'',
        mlr_expires_at = Some (share_exp s now)\<rparr>
     \<and> (\<forall>later d. 0 \<le> later \<and> later \<le> share_exp s now \<longrightarrow> authorize_share A s None (Some tok) later d = Inr ())"
proof -
  define exp where "exp = share_exp s now"
  have "now < exp" using ends by (auto simp: exp_def share_exp_def split: option.splits)
  then obtain sig where sig: "sign (app_media A) (media_secret (app_media A) (app_config A)) (share_payload s exp) = Inr sig"
    and mint: "mint_share_token (app_media A) (app_config A) s now = Inr (share_payload s exp @ ''.'' @ sig, exp)"
    using mint_share_token_signs [OF lib] unfolding exp_def by blast
  define tok where "tok = share_payload s exp @ ''.'' @ sig"
  have link: "share_link_reply A s path now = Json 200 \<lparr>mlr_url = append_access_query path tok,
        mlr_path = append_access_query path tok, mlr_access_mode = Some (access_mode s), mlr_auth = ''token'',
        mlr_expires_at = Some exp\<rparr>"
    using mode mint by (simp add: share_link_reply_def share_needs_access_token_def tok_def Let_def)
  have "authorize_share A s None (Some tok) later d = Inr ()" if "0 \<le> later" "later \<le> exp" for later d
  proof -
    have "now_unix later \<le> exp" using that by (simp add: now_unix_def)
    note st = signed_share_token [OF lib i64 [folded exp_def] sig this, folded tok_def]
    have "access_token_grants_share A s (Some tok) later" using st by (simp add: access_token_grants_share_def)
    moreover have "share_is_usable s later = Inr ()"
      using that rev by (auto simp: usable_iff exp_def share_exp_def split: option.splits)
    ultimately show ?thesis by (simp add: authorize_share_def split: share_access_mode.split)
  qed
  then show ?thesis using link unfolding exp_def by blast
qed


definition listed_share :: share_link_record where
  "listed_share = \<lparr>share_id = 5, share_token = ''t'', short_code = None, share_bucket_id = 1, target_key = ''f/a'',
     target_kind = File, access_mode = SpecificUsers, expires_at = None, share_created_by = 7, share_created_at = 0,
     revoked_at = None\<rparr>"


end
