(* ===== verification/Recycle_Routes.thy ===== *)
theory Recycle_Routes
  imports Bucket_Routes Upkeep Web_Routes
begin

text \<open>
  Deleting a bucket and the routes of the recycle bin in \<open>src/server/settings_routes.rs\<close>; then what purging
  by hand removes, and for whom.
\<close>

section \<open>Purging by hand\<close>

definition hard_purge_object :: "int \<Rightarrow> time \<Rightarrow> node \<Rightarrow> unit res \<times> node" where
  "hard_purge_object i now n =
     (case get_object_by_id i (node_db n) of
        None \<Rightarrow> (Inl (Bail ''object not found''), n)
      | Some r \<Rightarrow>
          (case purge_object (node_engine n) (node_id n) now r (node_db n, node_fs n) of
             (d, f) \<Rightarrow> (Inr (), n\<lparr>node_db := d, node_fs := f\<rparr>)))"

section \<open>Deleting a bucket\<close>

fun purge_ids :: "int list \<Rightarrow> time \<Rightarrow> node \<Rightarrow> unit res \<times> node" where
  "purge_ids [] now n = (Inr (), n)"
| "purge_ids (i # is) now n =
     (case hard_purge_object i now n of
        (Inl e, n') \<Rightarrow> (Inl e, n')
      | (Inr _, n') \<Rightarrow> purge_ids is now n')"

definition delete_bucket_route :: "account_record \<Rightarrow> int \<Rightarrow> time \<Rightarrow> node \<Rightarrow> unit reply \<times> node" where
  "delete_bucket_route auth b now n =
     (let d = node_db n in
      if \<not> account_owns_bucket (account_id auth) b d
      then (text_reply 403 ''only the bucket owner can delete this bucket'', n)
      else if map_option bucket_name (get_bucket_by_id b d) = Some ''storage''
      then (text_reply 409 ''cannot delete default storage bucket'', n)
      else (case purge_ids (list_object_ids_in_bucket b d) now n of
              (Inl e, n1) \<Rightarrow> (error_reply e, n1)
            | (Inr _, n1) \<Rightarrow>
                (case delete_bucket b (node_db n1) of
                   (Inr _, d1) \<Rightarrow> (status_reply 204, n1\<lparr>node_db := d1\<rparr>)
                 | (Inl e, d1) \<Rightarrow>
                     (status_by [([''not found''], 404), ([''cannot delete'', ''still contains''], 409)] e,
                      n1\<lparr>node_db := d1\<rparr>))))"

section \<open>The recycle bin\<close>

definition get_recycle_settings :: "account_record \<Rightarrow> db \<Rightarrow> app_settings reply \<times> db" where
  "get_recycle_settings auth = owner_only auth (\<lambda>d.
     (case get_settings d of Inr s \<Rightarrow> (Json 200 s, d) | Inl e \<Rightarrow> (error_reply e, d)))"

definition put_recycle_settings :: "account_record \<Rightarrow> int \<Rightarrow> retention_unit \<Rightarrow> db \<Rightarrow> app_settings reply \<times> db" where
  "put_recycle_settings auth v u = owner_only auth (\<lambda>d.
     (case set_recycle_retention v u d of
        (Inr s, d1) \<Rightarrow> (Json 200 s, d1) | (Inl e, d1) \<Rightarrow> (text_reply 400 (err_msg e), d1)))"

text \<open>The buckets whose recycle bin is shown: \<open>None\<close> is all of them.\<close>

definition recycle_bin_bucket_filter :: "account_record \<Rightarrow> string option \<Rightarrow> db \<Rightarrow> response + int list option" where
  "recycle_bin_bucket_filter auth bname d =
     (case bname of
        Some name \<Rightarrow>
          (case resolve_bucket_id (Some name) d of
             Inl r \<Rightarrow> Inl r
           | Inr (b, _) \<Rightarrow>
               (case require_bucket_perm (account_id auth) b Read d of Inl r \<Rightarrow> Inl r | Inr _ \<Rightarrow> Inr (Some [b])))
      | None \<Rightarrow>
          if account_is_owner (account_id auth) d then Inr None
          else Inr (Some (map bucket_id (filter (\<lambda>b. check_perm (account_id auth) (bucket_id b) Read d) (list_buckets d)))))"

definition list_recycle_bin :: "account_record \<Rightarrow> string option \<Rightarrow> db \<Rightarrow> object_record list reply" where
  "list_recycle_bin auth bname d =
     (case recycle_bin_bucket_filter auth bname d of
        Inl r \<Rightarrow> Raw r
      | Inr buckets_shown \<Rightarrow> Json 200 (list_deleted_objects buckets_shown d))"

definition restore_recycle_item :: "account_record \<Rightarrow> int \<Rightarrow> time \<Rightarrow> db \<Rightarrow> object_record reply \<times> db" where
  "restore_recycle_item auth i now d =
     (case get_object_by_id i d of
        None \<Rightarrow> (text_reply 404 ''object not found'', d)
      | Some obj \<Rightarrow>
          (case require_bucket_perm (account_id auth) (obj_bucket_id obj) Update d of
             Inl r \<Rightarrow> (Raw r, d)
           | Inr _ \<Rightarrow>
               (case restore_object i now d of
                  (Inr o', d1) \<Rightarrow> (Json 200 o', d1)
                | (Inl e, d1) \<Rightarrow>
                    (text_reply (if err_has e ''not in recycle'' \<or> err_has e ''already exists'' then 409 else 400)
                       (err_msg e), d1))))"

definition hard_delete_recycle_item :: "account_record \<Rightarrow> int \<Rightarrow> time \<Rightarrow> node \<Rightarrow> unit reply \<times> node" where
  "hard_delete_recycle_item auth i now n =
     (case get_object_by_id i (node_db n) of
        None \<Rightarrow> (text_reply 404 ''object not found'', n)
      | Some obj \<Rightarrow>
          if deleted_at obj = None then (text_reply 400 ''object is not in recycle bin'', n)
          else (case require_bucket_perm (account_id auth) (obj_bucket_id obj) Delete (node_db n) of
                  Inl r \<Rightarrow> (Raw r, n)
                | Inr _ \<Rightarrow>
                    (case hard_purge_object i now n of
                       (Inr _, n1) \<Rightarrow> (status_reply 204, n1) | (Inl e, n1) \<Rightarrow> (error_reply e, n1))))"

record purge_response =
  pr_deleted :: int
  pr_failed :: "int list"

text \<open>One id of a purge: whether it was purged.\<close>

definition purge_one :: "account_record \<Rightarrow> int \<Rightarrow> time \<Rightarrow> node \<Rightarrow> bool \<times> node" where
  "purge_one auth i now n =
     (case get_object_by_id i (node_db n) of
        None \<Rightarrow> (False, n)
      | Some obj \<Rightarrow>
          if deleted_at obj = None then (False, n)
          else (case require_bucket_perm (account_id auth) (obj_bucket_id obj) Delete (node_db n) of
                  Inl r \<Rightarrow> (False, n)
                | Inr _ \<Rightarrow> (case hard_purge_object i now n of (res, n1) \<Rightarrow> (\<not> isl res, n1))))"

definition purge_step ::
  "('x \<Rightarrow> node \<Rightarrow> bool \<times> node) \<Rightarrow> ('x \<Rightarrow> int) \<Rightarrow> purge_response \<times> node \<Rightarrow> 'x \<Rightarrow> purge_response \<times> node" where
  "purge_step purge id_of s x =
     (case s of (resp, n) \<Rightarrow> (case purge x n of
        (True, n1) \<Rightarrow> (resp\<lparr>pr_deleted := pr_deleted resp + 1\<rparr>, n1)
      | (False, n1) \<Rightarrow> (resp\<lparr>pr_failed := pr_failed resp @ [id_of x]\<rparr>, n1)))"

definition purge_recycle_items :: "account_record \<Rightarrow> int list \<Rightarrow> time \<Rightarrow> node \<Rightarrow> purge_response reply \<times> node" where
  "purge_recycle_items auth ids now n =
     (if ids = [] then (text_reply 400 ''ids must not be empty'', n)
      else if length ids > 1000 then (text_reply 400 ''too many ids (max 1000)'', n)
      else (case foldl (purge_step (\<lambda>i. purge_one auth i now) id) (\<lparr>pr_deleted = 0, pr_failed = []\<rparr>, n) ids of
              (resp, n1) \<Rightarrow> (Json 200 resp, n1)))"

text \<open>Here the rows were read at the start; only the permission is checked again.\<close>

definition purge_listed :: "account_record \<Rightarrow> time \<Rightarrow> object_record \<Rightarrow> node \<Rightarrow> bool \<times> node" where
  "purge_listed auth now obj n =
     (case require_bucket_perm (account_id auth) (obj_bucket_id obj) Delete (node_db n) of
        Inl r \<Rightarrow> (False, n)
      | Inr _ \<Rightarrow> (case hard_purge_object (obj_id obj) now n of (res, n1) \<Rightarrow> (\<not> isl res, n1)))"

definition purge_all_recycle_items ::
  "account_record \<Rightarrow> string option \<Rightarrow> time \<Rightarrow> node \<Rightarrow> purge_response reply \<times> node" where
  "purge_all_recycle_items auth bname now n =
     (case recycle_bin_bucket_filter auth bname (node_db n) of
        Inl r \<Rightarrow> (Raw r, n)
      | Inr buckets_shown \<Rightarrow>
          (case foldl (purge_step (purge_listed auth now) obj_id) (\<lparr>pr_deleted = 0, pr_failed = []\<rparr>, n)
                  (list_deleted_objects buckets_shown (node_db n)) of
             (resp, n1) \<Rightarrow> (Json 200 resp, n1)))"
section \<open>What purging leaves alone\<close>

text \<open>The two databases differ in the objects and the outbox only.\<close>

definition objects_jobs_only :: "db \<Rightarrow> db \<Rightarrow> bool" where
  "objects_jobs_only d d' \<longleftrightarrow> d' = d\<lparr>objects := objects d', outbox := outbox d', next_job_id := next_job_id d'\<rparr>"

lemma objects_jobs_only_refl: "objects_jobs_only d d"
  by (simp add: objects_jobs_only_def)

lemma objects_jobs_only_trans: "objects_jobs_only d d1 \<Longrightarrow> objects_jobs_only d1 d2 \<Longrightarrow> objects_jobs_only d d2"
proof -
  assume "objects_jobs_only d d1" "objects_jobs_only d1 d2"
  then have "d1 = d\<lparr>objects := objects d1, outbox := outbox d1, next_job_id := next_job_id d1\<rparr>"
    "d2 = d1\<lparr>objects := objects d2, outbox := outbox d2, next_job_id := next_job_id d2\<rparr>"
    by (simp_all only: objects_jobs_only_def)
  then have "d2 = d\<lparr>objects := objects d1, outbox := outbox d1, next_job_id := next_job_id d1\<rparr>
      \<lparr>objects := objects d2, outbox := outbox d2, next_job_id := next_job_id d2\<rparr>" by metis
  then show ?thesis unfolding objects_jobs_only_def by simp
qed

lemma objects_jobs_only_frame:
  assumes "objects_jobs_only d d'"
  shows "buckets d' = buckets d" "share_links d' = share_links d" "peers d' = peers d" "repl_peers d' = repl_peers d"
proof -
  obtain ob j k where "d' = d\<lparr>objects := ob, outbox := j, next_job_id := k\<rparr>"
    using assms unfolding objects_jobs_only_def by blast
  then show "buckets d' = buckets d" "share_links d' = share_links d" "peers d' = peers d" "repl_peers d' = repl_peers d"
    by simp_all
qed

lemma enqueue_jobs_only: "objects_jobs_only d (snd (enqueue_for_active_peers opn i fp tag loc now d))"
proof -
  have "objects_jobs_only d (foldl (\<lambda>d p. insert_job (mk p) d) d ps)" for mk and ps :: "cluster_peer list"
  proof (induction ps arbitrary: d)
    case (Cons p ps)
    have "objects_jobs_only d (insert_job (mk p) d)" by (simp add: insert_job_def objects_jobs_only_def)
    then show ?case using Cons.IH objects_jobs_only_trans by simp
  qed (simp add: objects_jobs_only_refl)
  then show ?thesis by (simp add: enqueue_for_active_peers_def Let_def objects_jobs_only_refl)
qed

lemma purge_object_only:
  assumes "purge_object eng node now r (d, f) = (d', f')"
  shows "objects_jobs_only d d'"
proof -
  have "objects_jobs_only d1 (delete_object_row P d1)" for P d1
    by (simp add: delete_object_row_def objects_jobs_only_def Let_def)
  then show ?thesis
    using assms enqueue_jobs_only objects_jobs_only_trans
    unfolding purge_object_def enqueue_delete_for_active_peers_def Let_def by (metis old.prod.case prod.inject)
qed

lemma check_perm_frame: "objects_jobs_only d d' \<Longrightarrow> check_perm a b act d' = check_perm a b act d"
proof -
  assume "objects_jobs_only d d'"
  moreover have "check_perm a b act (d\<lparr>objects := ob, outbox := j, next_job_id := k\<rparr>) = check_perm a b act d" for ob j k
    by (simp add: check_perm_def effective_perms_def account_owns_bucket_def account_is_owner_def
        get_bucket_by_id_def get_role_def)
  ultimately show ?thesis unfolding objects_jobs_only_def by metis
qed

section \<open>Purging a list of rows\<close>

definition purge_node :: "time \<Rightarrow> node \<Rightarrow> object_record \<Rightarrow> node" where
  "purge_node now n r =
     (case purge_object (node_engine n) (node_id n) now r (node_db n, node_fs n) of
        (d, f) \<Rightarrow> n\<lparr>node_db := d, node_fs := f\<rparr>)"

lemma purge_node_simps [simp]: "node_engine (purge_node now n r) = node_engine n" "node_id (purge_node now n r) = node_id n"
  "node_events (purge_node now n r) = node_events n"
  by (simp_all add: purge_node_def split: prod.split)

lemma row_of_object: "db_ok d \<Longrightarrow> r \<in> set (objects d) \<Longrightarrow> get_object_by_id (obj_id r) d = Some r"
  unfolding get_object_by_id_def by (intro obj_tbl.row_of_mem) (simp_all add: db_ok_def objects_ok_def)

lemma hard_purge_row:
  "db_ok (node_db n) \<Longrightarrow> r \<in> set (objects (node_db n)) \<Longrightarrow> hard_purge_object (obj_id r) now n = (Inr (), purge_node now n r)"
  by (simp add: hard_purge_object_def purge_node_def row_of_object split: prod.split)

lemma purge_node_row:
  assumes "db_ok (node_db n)" "r \<in> set (objects (node_db n))"
  shows "db_ok (node_db (purge_node now n r))
    \<and> objects (node_db (purge_node now n r)) = filter (\<lambda>x. x \<noteq> r) (objects (node_db n))
    \<and> objects_jobs_only (node_db n) (node_db (purge_node now n r))"
proof -
  obtain d' where d': "purge_object (node_engine n) (node_id n) now r (node_db n, node_fs n)
      = (d', unlink (node_engine n) (filepath r) (node_fs n))"
    "db_ok d'" "objects d' = filter (\<lambda>x. x \<noteq> r) (objects (node_db n))"
    using purge_object_step [OF assms, of "node_engine n" "node_id n" now "node_fs n"] by blast
  then show ?thesis using purge_object_only [OF d'(1)] by (simp add: purge_node_def)
qed

lemma purge_nodes_fold:
  "foldl (purge_node now) n rs =
     (case foldl (\<lambda>s r. purge_object (node_engine n) (node_id n) now r s) (node_db n, node_fs n) rs of
        (d, f) \<Rightarrow> n\<lparr>node_db := d, node_fs := f\<rparr>)"
proof (induction rs arbitrary: n)
  case (Cons r rs)
  obtain d f where "purge_object (node_engine n) (node_id n) now r (node_db n, node_fs n) = (d, f)" by force
  moreover from this have "purge_node now n r = n\<lparr>node_db := d, node_fs := f\<rparr>" by (simp add: purge_node_def)
  ultimately show ?case by (simp add: Cons.IH split: prod.split)
qed simp

text \<open>\<open>purged n rs n'\<close>: the rows and their blobs are gone, the peers are told, nothing else changed.\<close>

definition purged :: "node \<Rightarrow> object_record list \<Rightarrow> node \<Rightarrow> bool" where
  "purged n rs n' \<longleftrightarrow> db_ok (node_db n') \<and> objects_jobs_only (node_db n) (node_db n')
     \<and> objects (node_db n') = filter (\<lambda>x. x \<notin> set rs) (objects (node_db n))
     \<and> (\<forall>p. fs_read p (node_fs n') = (if \<exists>r \<in> set rs. p = absolute_path_for (node_engine n) (filepath r)
                                        then None else fs_read p (node_fs n)))
     \<and> (\<forall>r \<in> set rs. \<forall>p \<in> set (peers (node_db n)). is_target (obj_bucket_id r) (node_id n) (node_db n) p
          \<longrightarrow> delete_queued (peer_id p) (filepath r) (node_db n'))"

lemma purge_nodes_only:
  assumes "db_ok (node_db n)" "set rs \<subseteq> set (objects (node_db n))" "distinct rs"
  shows "objects_jobs_only (node_db n) (node_db (foldl (purge_node now) n rs))"
  using assms
proof (induction rs arbitrary: n)
  case (Cons r rs)
  note pr = purge_node_row [OF Cons.prems(1), of r now]
  have "set rs \<subseteq> set (objects (node_db (purge_node now n r)))" using Cons.prems pr by auto
  then show ?case using Cons pr objects_jobs_only_trans by auto
qed (simp add: objects_jobs_only_refl)

lemma purge_nodes:
  assumes "db_ok (node_db n)" "set rs \<subseteq> set (objects (node_db n))" "distinct rs"
  shows "purged n rs (foldl (purge_node now) n rs)"
proof -
  obtain d' where d': "foldl (\<lambda>s r. purge_object (node_engine n) (node_id n) now r s) (node_db n, node_fs n) rs
      = (d', foldl (\<lambda>f r. unlink (node_engine n) (filepath r) f) (node_fs n) rs)"
    "db_ok d'" "objects d' = filter (\<lambda>x. x \<notin> set rs) (objects (node_db n))"
    "\<forall>r \<in> set rs. \<forall>p \<in> set (peers (node_db n)). is_target (obj_bucket_id r) (node_id n) (node_db n) p
      \<longrightarrow> delete_queued (peer_id p) (filepath r) d'"
    using purge_loop [OF assms] by blast
  have fs: "fs_read p (foldl (\<lambda>f r. unlink eng (filepath r) f) g xs)
      = (if \<exists>r \<in> set xs. p = absolute_path_for eng (filepath r) then None else fs_read p g)" for p g xs eng
    by (induction xs arbitrary: g) (auto simp: unlink_def)
  show ?thesis
    using purge_nodes_only [OF assms, of now] d' unfolding purged_def purge_nodes_fold by (simp add: fs)
qed

lemma distinct_objects: "db_ok d \<Longrightarrow> distinct (objects d)"
  unfolding db_ok_def objects_ok_def by (metis distinct_map)

section \<open>Deleting a bucket\<close>

lemma purge_ids_rows:
  assumes "db_ok (node_db n)" "set rs \<subseteq> set (objects (node_db n))" "distinct rs"
  shows "purge_ids (map obj_id rs) now n = (Inr (), foldl (purge_node now) n rs)"
  using assms
proof (induction rs arbitrary: n)
  case (Cons r rs)
  note pr = purge_node_row [OF Cons.prems(1), of r now]
  have "set rs \<subseteq> set (objects (node_db (purge_node now n r)))" using Cons.prems pr by auto
  then show ?case using Cons pr by (simp add: hard_purge_row)
qed simp

lemma list_object_ids_rows:
  "list_object_ids_in_bucket b d = map obj_id (sort_key obj_id (filter (\<lambda>r. obj_bucket_id r = b) (objects d)))"
  unfolding list_object_ids_in_bucket_def select_where_def
  by (rule properties_for_sort) (simp_all)

text \<open>C15: Deleting a bucket other than the default one (which is refused with 409), by its owner, first purges every object of the bucket, active or in the recycle bin,
  with its blob, and tells the peers. When the bucket has no share link it is then removed, and no other bucket or
  object is touched. When it has one the request fails with status 500, with the bucket there and all its
  objects gone.\<close>

theorem delete_bucket_exact:
  assumes "db_ok (node_db n)" and "account_owns_bucket (account_id auth) b (node_db n)"
    and "get_bucket_by_id b (node_db n) = Some x" "bucket_name x \<noteq> ''storage''"
    and "delete_bucket_route auth b now n = (r, n')"
  shows "objects (node_db n') = filter (\<lambda>r. obj_bucket_id r \<noteq> b) (objects (node_db n))
    \<and> (\<forall>p. fs_read p (node_fs n') = (if \<exists>r \<in> set (objects (node_db n)). obj_bucket_id r = b
              \<and> p = absolute_path_for (node_engine n) (filepath r) then None else fs_read p (node_fs n)))
    \<and> (\<forall>r \<in> set (objects (node_db n)). \<forall>p \<in> set (peers (node_db n)).
         obj_bucket_id r = b \<and> is_target b (node_id n) (node_db n) p \<longrightarrow> delete_queued (peer_id p) (filepath r) (node_db n'))
    \<and> share_links (node_db n') = share_links (node_db n)
    \<and> (if \<exists>s \<in> set (share_links (node_db n)). share_bucket_id s = b
       then reply_status r = 500 \<and> buckets (node_db n') = buckets (node_db n)
       else reply_status r = 204 \<and> buckets (node_db n') = filter (\<lambda>y. bucket_id y \<noteq> b) (buckets (node_db n)))"
proof -
  define rs where "rs = sort_key obj_id (filter (\<lambda>r. obj_bucket_id r = b) (objects (node_db n)))"
  define n1 where "n1 = foldl (purge_node now) n rs"
  have rs: "set rs \<subseteq> set (objects (node_db n))" "distinct rs"
    using distinct_objects [OF assms(1)] by (auto simp: rs_def)
  have mem: "r \<in> set rs \<longleftrightarrow> r \<in> set (objects (node_db n)) \<and> obj_bucket_id r = b" for r by (auto simp: rs_def)
  have run: "purge_ids (list_object_ids_in_bucket b (node_db n)) now n = (Inr (), n1)"
    unfolding list_object_ids_rows rs_def [symmetric] n1_def by (rule purge_ids_rows [OF assms(1) rs])
  have pd: "purged n rs n1" unfolding n1_def by (rule purge_nodes [OF assms(1) rs])
  then have objs: "objects (node_db n1) = filter (\<lambda>r. obj_bucket_id r \<noteq> b) (objects (node_db n))"
    unfolding purged_def by (simp add: mem cong: filter_cong)
  have same: "buckets (node_db n1) = buckets (node_db n)" "share_links (node_db n1) = share_links (node_db n)"
    using pd objects_jobs_only_frame unfolding purged_def by blast+
  define del where "del = delete_bucket b (node_db n1)"
  have "get_bucket_by_id b (node_db n1) = Some x" using assms(3) same by (simp add: get_bucket_by_id_def)
  then have del: "del = (if \<exists>s \<in> set (share_links (node_db n)). share_bucket_id s = b then (Inl ForeignKey, node_db n1)
      else (Inr (), (node_db n1)\<lparr>buckets := delete_where (\<lambda>y. bucket_id y = b) (buckets (node_db n)),
              role_perms := delete_where (\<lambda>p. rbp_bucket_id p = b) (role_perms (node_db n1)),
              repl_peers := delete_where (\<lambda>q. bna_bucket_id q = b) (repl_peers (node_db n1))\<rparr>))"
    using assms(4) objs same by (simp add: del_def delete_bucket_def count_where_def)
  have out: "(r, n') = (case del of (Inr _, d1) \<Rightarrow> (status_reply 204, n1\<lparr>node_db := d1\<rparr>)
      | (Inl e, d1) \<Rightarrow> (status_by [([''not found''], 404), ([''cannot delete'', ''still contains''], 409)] e,
          n1\<lparr>node_db := d1\<rparr>))"
    using assms(2-5) run by (simp add: delete_bucket_route_def Let_def del_def)
  have st: "reply_status (status_by [([''not found''], 404), ([''cannot delete'', ''still contains''], 409)] ForeignKey) = 500"
    by code_simp
  have n': "node_fs n' = node_fs n1" "objects (node_db n') = objects (node_db n1)" "outbox (node_db n') = outbox (node_db n1)"
    "share_links (node_db n') = share_links (node_db n)"
    using out same unfolding del by (auto split: if_split_asm)
  have "if \<exists>s \<in> set (share_links (node_db n)). share_bucket_id s = b
       then reply_status r = 500 \<and> buckets (node_db n') = buckets (node_db n)
       else reply_status r = 204 \<and> buckets (node_db n') = filter (\<lambda>y. bucket_id y \<noteq> b) (buckets (node_db n))"
    using out same st unfolding del by (auto simp: delete_where_def status_reply_def split: if_split_asm)
  moreover have "delete_queued p fp (node_db n') = delete_queued p fp (node_db n1)" for p fp
    using n' by (simp add: delete_queued_def)
  moreover have "(\<exists>r \<in> set rs. p = absolute_path_for (node_engine n) (filepath r))
      \<longleftrightarrow> (\<exists>r \<in> set (objects (node_db n)). obj_bucket_id r = b \<and> p = absolute_path_for (node_engine n) (filepath r))" for p
    using mem by blast
  ultimately show ?thesis using pd objs n' mem unfolding purged_def by simp
qed
definition shared_bucket_db :: db where
  "shared_bucket_db = (initial_db 0)\<lparr>accounts := [reader], next_account_id := 8,
     buckets := buckets (initial_db 0) @ [\<lparr>bucket_id = 2, bucket_name = ''b'', bucket_created_utc = 0,
       owner_account_id = Some 7, replicate_to_all = False, bucket_etag_type = Md5, etag_rehash_status = None,
       etag_rehash_processed = 0, etag_rehash_total = 0, etag_rehash_error = None\<rparr>], next_bucket_id := 3,
     objects := [demo_object 1 ''a'' 2 None, demo_object 2 ''a'' 1 None, demo_object 3 ''b'' 2 (Some 1)],
     next_object_id := 4,
     share_links := [\<lparr>share_id = 1, share_token = ''t'', short_code = None, share_bucket_id = 2,
       target_key = ''f/'', target_kind = Folder, access_mode = BucketReaders, expires_at = None,
       share_created_by = 7, share_created_at = 0, revoked_at = Some 5\<rparr>], next_share_id := 2\<rparr>"

definition shared_bucket_node :: node where
  "shared_bucket_node = \<lparr>node_id = ''n1'', node_engine = engine_init ''/d'', node_db = shared_bucket_db,
     node_fs = [(''/d/objects/1.bin'', ''A''), (''/d/objects/2.bin'', ''B'')], node_events = []\<rparr>"

theorem delete_bucket_exact_witness:
  "\<exists>r n'. delete_bucket_route reader 2 9 shared_bucket_node = (r, n') \<and> reply_status r = 500
     \<and> objects (node_db n') = [demo_object 2 ''a'' 1 None] \<and> buckets (node_db n') = buckets shared_bucket_db
     \<and> fs_read ''/d/objects/1.bin'' (node_fs n') = None \<and> fs_read ''/d/objects/2.bin'' (node_fs n') = Some ''B''"
proof -
  let ?n = shared_bucket_node
  let ?x = "buckets shared_bucket_db ! 1"
  obtain r n' where run: "delete_bucket_route reader 2 9 ?n = (r, n')" by force
  have h: "db_ok (node_db ?n)" "account_owns_bucket (account_id reader) 2 (node_db ?n)"
    "get_bucket_by_id 2 (node_db ?n) = Some ?x" "bucket_name ?x \<noteq> ''storage''" by code_simp+
  have e: "filter (\<lambda>r. obj_bucket_id r \<noteq> 2) (objects (node_db ?n)) = [demo_object 2 ''a'' 1 None]"
    "\<exists>s \<in> set (share_links (node_db ?n)). share_bucket_id s = 2" "node_db ?n = shared_bucket_db"
    "\<exists>r \<in> set (objects (node_db ?n)). obj_bucket_id r = 2
       \<and> ''/d/objects/1.bin'' = absolute_path_for (node_engine ?n) (filepath r)"
    "\<not> (\<exists>r \<in> set (objects (node_db ?n)). obj_bucket_id r = 2
       \<and> ''/d/objects/2.bin'' = absolute_path_for (node_engine ?n) (filepath r))"
    "fs_read ''/d/objects/2.bin'' (node_fs ?n) = Some ''B''" by code_simp+
  from delete_bucket_exact [OF h run] run e show ?thesis by auto
qed

section \<open>Emptying the recycle bin\<close>

definition may_purge :: "account_record \<Rightarrow> db \<Rightarrow> object_record \<Rightarrow> bool" where
  "may_purge auth d r \<longleftrightarrow> check_perm (account_id auth) (obj_bucket_id r) Delete d"

definition shown_in :: "int list option \<Rightarrow> object_record \<Rightarrow> bool" where
  "shown_in buckets_shown r \<longleftrightarrow> deleted_at r \<noteq> None
     \<and> (case buckets_shown of None \<Rightarrow> True | Some ids \<Rightarrow> obj_bucket_id r \<in> set ids)"

lemma list_deleted_rows: "list_deleted_objects bs d
    = filter (shown_in bs) (sort_key (\<lambda>r. - deleted_time r) (filter (\<lambda>r. deleted_at r \<noteq> None) (objects d)))"
  by (auto simp: list_deleted_objects_def select_where_def shown_in_def Let_def split: option.split
      intro!: filter_cong filter_True [symmetric] filter_False [symmetric])

lemma set_list_deleted: "set (list_deleted_objects bs d) = {r \<in> set (objects d). shown_in bs r}"
  by (auto simp: list_deleted_rows shown_in_def)

lemma purge_listed_loop:
  assumes "db_ok (node_db n)" "set rs \<subseteq> set (objects (node_db n))" "distinct rs" "objects_jobs_only d (node_db n)"
  shows "foldl (purge_step (purge_listed auth now) obj_id) (resp, n) rs =
    (\<lparr>pr_deleted = pr_deleted resp + int (length (filter (may_purge auth d) rs)),
      pr_failed = pr_failed resp @ map obj_id (filter (\<lambda>r. \<not> may_purge auth d r) rs)\<rparr>,
     foldl (purge_node now) n (filter (may_purge auth d) rs))"
  using assms
proof (induction rs arbitrary: n resp)
  case (Cons r rs)
  note pr = purge_node_row [OF Cons.prems(1), of r now]
  have perm: "check_perm (account_id auth) (obj_bucket_id r) Delete (node_db n) = may_purge auth d r"
    unfolding may_purge_def by (rule check_perm_frame [OF Cons.prems(4)])
  show ?case
  proof (cases "may_purge auth d r")
    case True
    have "purge_listed auth now r n = (True, purge_node now n r)"
      using True perm Cons.prems(1,2) by (simp add: purge_listed_def require_bucket_perm_def hard_purge_row)
    moreover have "set rs \<subseteq> set (objects (node_db (purge_node now n r)))" using Cons.prems pr by auto
    moreover have "objects_jobs_only d (node_db (purge_node now n r))"
      using Cons.prems pr objects_jobs_only_trans by simp
    ultimately show ?thesis using True Cons pr by (simp add: purge_step_def)
  next
    case False
    then have "purge_listed auth now r n = (False, n)"
      using perm by (simp add: purge_listed_def require_bucket_perm_def)
    then show ?thesis using False Cons by (simp add: purge_step_def)
  qed
qed simp

text \<open>C23: Emptying the recycle bin removes exactly the deleted rows of the buckets shown for which the account
  holds the delete permission, with their blobs, tells the peers of each, keeps every active object, and reports
  the number removed and the ids it may not remove.\<close>

theorem purge_all_exact:
  assumes "db_ok (node_db n)" and "recycle_bin_bucket_filter auth bname (node_db n) = Inr bs"
    and "purge_all_recycle_items auth bname now n = (r, n')"
  shows "objects (node_db n') = filter (\<lambda>x. \<not> (shown_in bs x \<and> may_purge auth (node_db n) x)) (objects (node_db n))
    \<and> (\<forall>p. fs_read p (node_fs n') = (if \<exists>x \<in> set (objects (node_db n)). shown_in bs x \<and> may_purge auth (node_db n) x
              \<and> p = absolute_path_for (node_engine n) (filepath x) then None else fs_read p (node_fs n)))
    \<and> (\<forall>x \<in> set (objects (node_db n)). \<forall>p \<in> set (peers (node_db n)). shown_in bs x \<and> may_purge auth (node_db n) x
         \<and> is_target (obj_bucket_id x) (node_id n) (node_db n) p \<longrightarrow> delete_queued (peer_id p) (filepath x) (node_db n'))
    \<and> (\<exists>resp. r = Json 200 resp
         \<and> pr_deleted resp = count_where (\<lambda>x. shown_in bs x \<and> may_purge auth (node_db n) x) (objects (node_db n))
         \<and> set (pr_failed resp) = obj_id ` {x \<in> set (objects (node_db n)). shown_in bs x \<and> \<not> may_purge auth (node_db n) x})"
proof -
  let ?d = "node_db n" and ?rows = "list_deleted_objects bs (node_db n)"
  let ?P = "may_purge auth (node_db n)"
  have dist: "distinct ?rows" using distinct_objects [OF assms(1)] by (simp add: list_deleted_rows)
  have sub: "set ?rows \<subseteq> set (objects ?d)" by (auto simp: set_list_deleted)
  define resp where "resp = \<lparr>pr_deleted = int (length (filter ?P ?rows)), pr_failed = map obj_id (filter (\<lambda>x. \<not> ?P x) ?rows)\<rparr>"
  have run: "r = Json 200 resp" "n' = foldl (purge_node now) n (filter ?P ?rows)"
    using assms(2,3) purge_listed_loop [OF assms(1) sub dist objects_jobs_only_refl, of auth now "\<lparr>pr_deleted = 0, pr_failed = []\<rparr>"]
    by (simp_all add: purge_all_recycle_items_def resp_def)
  have pd: "purged n (filter ?P ?rows) n'"
    unfolding run(2) by (rule purge_nodes [OF assms(1)]) (use sub dist in auto)
  have mem: "x \<in> set (filter ?P ?rows) \<longleftrightarrow> x \<in> set (objects ?d) \<and> shown_in bs x \<and> ?P x" for x
    by (auto simp: set_list_deleted)
  have len: "length (filter ?P ?rows) = length (filter (\<lambda>x. shown_in bs x \<and> ?P x) (objects ?d))"
  proof -
    have "set (filter ?P ?rows) = set (filter (\<lambda>x. shown_in bs x \<and> ?P x) (objects ?d))"
      by (auto simp: set_list_deleted)
    then show ?thesis using dist distinct_objects [OF assms(1)] by (metis distinct_card distinct_filter)
  qed
  have "objects (node_db n') = filter (\<lambda>x. \<not> (shown_in bs x \<and> ?P x)) (objects ?d)"
  proof -
    have "objects (node_db n') = filter (\<lambda>x. x \<notin> set (filter ?P ?rows)) (objects ?d)" using pd unfolding purged_def by blast
    also have "\<dots> = filter (\<lambda>x. \<not> (shown_in bs x \<and> ?P x)) (objects ?d)"
      by (rule filter_cong [OF refl]) (use mem in blast)
    finally show ?thesis .
  qed
  moreover have "(\<exists>x \<in> set (filter ?P ?rows). p = absolute_path_for (node_engine n) (filepath x))
      \<longleftrightarrow> (\<exists>x \<in> set (objects ?d). shown_in bs x \<and> ?P x \<and> p = absolute_path_for (node_engine n) (filepath x))" for p
    using mem by blast
  moreover have "set (pr_failed resp) = obj_id ` {x \<in> set (objects ?d). shown_in bs x \<and> \<not> ?P x}"
    by (auto simp: resp_def set_list_deleted)
  moreover have "pr_deleted resp = count_where (\<lambda>x. shown_in bs x \<and> ?P x) (objects ?d)"
    by (simp add: resp_def count_where_def len)
  ultimately show ?thesis using pd run(1) mem unfolding purged_def by simp
qed

theorem purge_all_exact_witness:
  "\<exists>r n'. purge_all_recycle_items reader None 9 shared_bucket_node = (r, n') \<and> reply_status r = 200
     \<and> map obj_id (objects (node_db n')) = [1, 2]"
proof -
  let ?n = shared_bucket_node
  obtain r n' where run: "purge_all_recycle_items reader None 9 ?n = (r, n')" by force
  have h: "db_ok (node_db ?n)" "recycle_bin_bucket_filter reader None (node_db ?n) = Inr (Some [2])" by code_simp+
  have e: "map obj_id (filter (\<lambda>x. \<not> (shown_in (Some [2]) x \<and> may_purge reader (node_db ?n) x)) (objects (node_db ?n))) = [1, 2]"
    by code_simp
  from purge_all_exact [OF h run] run e show ?thesis by auto
qed

lemma purge_one_objects:
  assumes "db_ok (node_db n)" "objects_jobs_only d (node_db n)" "purge_one auth i now n = (ok, n1)"
  shows "db_ok (node_db n1) \<and> objects_jobs_only d (node_db n1)
    \<and> objects (node_db n1) = filter (\<lambda>x. \<not> (obj_id x = i \<and> deleted_at x \<noteq> None \<and> may_purge auth d x)) (objects (node_db n))"
proof (cases "get_object_by_id i (node_db n)")
  case None
  then have "\<forall>x \<in> set (objects (node_db n)). obj_id x \<noteq> i"
    by (auto simp: get_object_by_id_def row_by_def select_one_def find_None_iff)
  then show ?thesis using assms None by (simp add: purge_one_def)
next
  case (Some x)
  then have x: "x \<in> set (objects (node_db n))" "obj_id x = i"
    unfolding get_object_by_id_def using obj_tbl.row_mem by blast+
  have ids: "y = x" if "y \<in> set (objects (node_db n))" "obj_id y = i" for y
    using that x objects_ok_idD assms(1) unfolding db_ok_def by blast
  have perm: "check_perm (account_id auth) (obj_bucket_id x) Delete (node_db n) = may_purge auth d x"
    unfolding may_purge_def by (rule check_perm_frame [OF assms(2)])
  show ?thesis
  proof (cases "deleted_at x \<noteq> None \<and> may_purge auth d x")
    case True
    have "hard_purge_object i now n = (Inr (), purge_node now n x)" using hard_purge_row [OF assms(1) x(1)] x(2) by blast
    with True have "n1 = purge_node now n x"
      using assms(3) Some perm by (auto simp: purge_one_def require_bucket_perm_def)
    moreover have "filter (\<lambda>y. y \<noteq> x) (objects (node_db n))
        = filter (\<lambda>y. \<not> (obj_id y = i \<and> deleted_at y \<noteq> None \<and> may_purge auth d y)) (objects (node_db n))"
      by (rule filter_cong [OF refl]) (use True ids x in blast)
    ultimately show ?thesis
      using purge_node_row [OF assms(1) x(1), of now] objects_jobs_only_trans [OF assms(2)] by metis
  next
    case False
    then have "n1 = n" using assms(3) Some perm
      by (auto simp: purge_one_def require_bucket_perm_def split: if_split_asm)
    moreover have "filter (\<lambda>y. \<not> (obj_id y = i \<and> deleted_at y \<noteq> None \<and> may_purge auth d y)) (objects (node_db n))
        = objects (node_db n)"
      by (rule filter_True) (use False ids in blast)
    ultimately show ?thesis using assms(1,2) by simp
  qed
qed

lemma purge_ids_loop:
  assumes "db_ok (node_db n)" "objects_jobs_only d (node_db n)"
    "foldl (purge_step (\<lambda>i. purge_one auth i now) id) (resp, n) is = (resp', n')"
  shows "objects (node_db n')
    = filter (\<lambda>x. \<not> (obj_id x \<in> set is \<and> deleted_at x \<noteq> None \<and> may_purge auth d x)) (objects (node_db n))"
  using assms
proof (induction "is" arbitrary: n resp)
  case (Cons i "is")
  obtain ok n1 where one: "purge_one auth i now n = (ok, n1)" by force
  note po = purge_one_objects [OF Cons.prems(1,2) one]
  obtain resp1 where "purge_step (\<lambda>i. purge_one auth i now) id (resp, n) i = (resp1, n1)"
    using one by (cases ok) (simp_all add: purge_step_def)
  then have "foldl (purge_step (\<lambda>i. purge_one auth i now) id) (resp1, n1) is = (resp', n')"
    using Cons.prems(3) by (simp only: foldl_Cons)
  from Cons.IH [OF _ _ this] po show ?case by (auto intro: filter_cong)
qed simp

text \<open>Purging a list of ids removes exactly the rows named in it that are in the recycle bin and in a bucket
  where the account holds the delete permission; an active object is never removed this way, whatever the ids, and
  an empty list or one of more than a thousand ids removes nothing.\<close>

theorem purge_items_exact:
  assumes "db_ok (node_db n)" and "purge_recycle_items auth is now n = (r, n')"
  shows "objects (node_db n') = filter (\<lambda>x. \<not> (length is \<le> 1000 \<and> obj_id x \<in> set is \<and> deleted_at x \<noteq> None
           \<and> may_purge auth (node_db n) x)) (objects (node_db n))
    \<and> reply_status r = (if is = [] \<or> length is > 1000 then 400 else 200)"
proof -
  obtain resp n1 where loop: "foldl (purge_step (\<lambda>i. purge_one auth i now) id) (\<lparr>pr_deleted = 0, pr_failed = []\<rparr>, n) is = (resp, n1)"
    by force
  note objs = purge_ids_loop [OF assms(1) objects_jobs_only_refl loop]
  show ?thesis using assms(2) loop objs
    by (auto simp: purge_recycle_items_def text_reply_def text_response_def split: if_split_asm)
qed

theorem purge_items_exact_witness:
  "\<exists>r n'. purge_recycle_items reader [3, 1, 3, 9] 9 shared_bucket_node = (r, n') \<and> reply_status r = 200
     \<and> map obj_id (objects (node_db n')) = [1, 2]"
proof -
  let ?n = shared_bucket_node
  obtain r n' where run: "purge_recycle_items reader [3, 1, 3, 9] 9 ?n = (r, n')" by force
  have h: "db_ok (node_db ?n)" by code_simp
  have e: "map obj_id (filter (\<lambda>x. \<not> (length [3, 1, 3, 9 :: int] \<le> 1000 \<and> obj_id x \<in> set [3, 1, 3, 9] \<and> deleted_at x \<noteq> None
           \<and> may_purge reader (node_db ?n) x)) (objects (node_db ?n))) = [1, 2]" by code_simp
  from purge_items_exact [OF h run] run e show ?thesis by simp
qed

section \<open>Reading the recycle bin\<close>

lemma owner_may: "account_is_owner a d \<Longrightarrow> check_perm a b act d"
  by (cases act) (simp_all add: check_perm_def effective_perms_def perms_FULL_def)

text \<open>The recycle bin shows only deleted rows, and of each only what the account may read: an account without
  the read permission on a bucket never sees that bucket's deleted objects, by name or in the list of all.\<close>

theorem list_recycle_bin_guarded:
  "case list_recycle_bin auth bname d of
     Json _ rows \<Rightarrow> list_all (\<lambda>r. deleted_at r \<noteq> None \<and> check_perm (account_id auth) (obj_bucket_id r) Read d) rows
   | Raw r \<Rightarrow> rs_status r = 403 \<or> rs_status r = 404
   | Panicked \<Rightarrow> False"
proof -
  show ?thesis
  proof (cases "recycle_bin_bucket_filter auth bname d")
    case (Inl r)
    have "rs_status r = 403 \<or> rs_status r = 404"
      using Inl resolve_bucket_id_status
      by (auto simp: recycle_bin_bucket_filter_def require_bucket_perm_def text_response_def
          split: option.splits sum.splits if_split_asm)
    then show ?thesis using Inl by (simp add: list_recycle_bin_def)
  next
    case (Inr bs)
    have "check_perm (account_id auth) (obj_bucket_id r) Read d" if "shown_in bs r" for r
      using Inr that
      by (auto simp: recycle_bin_bucket_filter_def require_bucket_perm_def shown_in_def owner_may
          split: option.splits sum.splits if_split_asm prod.splits)
    moreover have "deleted_at r \<noteq> None" if "shown_in bs r" for r using that by (simp add: shown_in_def)
    ultimately show ?thesis using Inr by (simp add: list_recycle_bin_def list_all_iff set_list_deleted)
  qed
qed
end
