(* ===== verification/Effects.thy ===== *)
theory Effects
  imports Recycle_Routes
begin

text \<open>
  What an operation may write. A footprint is a set of tables, the objects split by bucket; an operation that
  touches only a footprint keeps the constraints and leaves every table outside it as it was. Each operation of
  the repository has its footprint here, and the footprints of a handler's calls compose.
\<close>

section \<open>Footprints\<close>

datatype table = TObjects int | TAccounts | TRoles | TAccountRoles | TPerms | TSessions | TBuckets | TSettings
  | TPeers | TNodes | TOutbox | TShares | TShareUsers

definition bucket_rows :: "int \<Rightarrow> db \<Rightarrow> object_record list" where
  "bucket_rows b d = filter (\<lambda>r. obj_bucket_id r = b) (objects d)"

fun same_table :: "db \<Rightarrow> db \<Rightarrow> table \<Rightarrow> bool" where
  "same_table d d' (TObjects b) \<longleftrightarrow> bucket_rows b d' = bucket_rows b d"
| "same_table d d' TAccounts \<longleftrightarrow> accounts d' = accounts d"
| "same_table d d' TRoles \<longleftrightarrow> roles d' = roles d"
| "same_table d d' TAccountRoles \<longleftrightarrow> account_roles d' = account_roles d"
| "same_table d d' TPerms \<longleftrightarrow> role_perms d' = role_perms d"
| "same_table d d' TSessions \<longleftrightarrow> sessions d' = sessions d"
| "same_table d d' TBuckets \<longleftrightarrow> buckets d' = buckets d"
| "same_table d d' TSettings \<longleftrightarrow> settings d' = settings d"
| "same_table d d' TPeers \<longleftrightarrow> peers d' = peers d"
| "same_table d d' TNodes \<longleftrightarrow> repl_peers d' = repl_peers d"
| "same_table d d' TOutbox \<longleftrightarrow> outbox d' = outbox d"
| "same_table d d' TShares \<longleftrightarrow> share_links d' = share_links d"
| "same_table d d' TShareUsers \<longleftrightarrow> share_users d' = share_users d"

definition touches :: "table set \<Rightarrow> db \<Rightarrow> db \<Rightarrow> bool" where
  "touches T d d' \<longleftrightarrow> (db_ok d \<longrightarrow> db_ok d' \<and> (\<forall>t. t \<notin> T \<longrightarrow> same_table d d' t))"

lemma same_table_trans: "same_table d d1 t \<Longrightarrow> same_table d1 d2 t \<Longrightarrow> same_table d d2 t"
  by (cases t) simp_all

lemma touches_refl [simp, intro]: "touches T d d"
proof -
  have "same_table d d t" for t by (cases t) simp_all
  then show ?thesis by (simp add: touches_def)
qed

lemma touches_step: "touches T d1 d2 \<Longrightarrow> touches S d d1 \<Longrightarrow> T \<subseteq> S \<Longrightarrow> touches S d d2"
  unfolding touches_def using same_table_trans by blast

lemma touches_mono: "touches T d d' \<Longrightarrow> T \<subseteq> S \<Longrightarrow> touches S d d'"
  unfolding touches_def by blast

lemma touches_ok: "touches T d d' \<Longrightarrow> db_ok d \<Longrightarrow> db_ok d'"
  by (simp add: touches_def)

lemma touches_same: "touches T d d' \<Longrightarrow> db_ok d \<Longrightarrow> t \<notin> T \<Longrightarrow> same_table d d' t"
  by (simp add: touches_def)

text \<open>An operation with a fact for the constraints and one for each table outside its footprint.\<close>

lemma touchesI:
  assumes "db_ok d \<Longrightarrow> db_ok d'" "\<And>t. db_ok d \<Longrightarrow> t \<notin> T \<Longrightarrow> same_table d d' t"
  shows "touches T d d'"
  using assms by (simp add: touches_def)

lemma touches_by:
  assumes "db_ok d \<Longrightarrow> db_ok d'"
    and "(TAccounts \<in> T \<or> accounts d' = accounts d) \<and> (TRoles \<in> T \<or> roles d' = roles d)
      \<and> (TAccountRoles \<in> T \<or> account_roles d' = account_roles d) \<and> (TPerms \<in> T \<or> role_perms d' = role_perms d)
      \<and> (TSessions \<in> T \<or> sessions d' = sessions d) \<and> (TBuckets \<in> T \<or> buckets d' = buckets d)
      \<and> (TSettings \<in> T \<or> settings d' = settings d) \<and> (TPeers \<in> T \<or> peers d' = peers d)
      \<and> (TNodes \<in> T \<or> repl_peers d' = repl_peers d) \<and> (TOutbox \<in> T \<or> outbox d' = outbox d)
      \<and> (TShares \<in> T \<or> share_links d' = share_links d) \<and> (TShareUsers \<in> T \<or> share_users d' = share_users d)
      \<and> (objects d' = objects d \<or> (db_ok d \<longrightarrow> (\<forall>c. TObjects c \<in> T \<or> bucket_rows c d' = bucket_rows c d)))"
  shows "touches T d d'"
proof (rule touchesI [OF assms(1)])
  show "same_table d d' t" if "db_ok d" "t \<notin> T" for t
  proof (cases t)
    case (TObjects c)
    then have "objects d' = objects d \<or> bucket_rows c d' = bucket_rows c d" using assms(2) that by blast
    then show ?thesis unfolding TObjects by (elim disjE) (simp_all add: bucket_rows_def)
  qed (use assms(2) that in simp_all)
qed simp

named_theorems foot \<open>footprints of the operations\<close>
named_theorems foot_fun \<open>footprints of the statements that are functions of the database\<close>

section \<open>Accounts, roles and sessions\<close>

lemma foot_update_account:
  assumes "update_account f i d = (x, d')" "db_ok d \<Longrightarrow> db_ok d'"
  shows "touches {TAccounts} d d'"
  by (rule touches_by [OF assms(2)]) (use assms(1) in \<open>auto simp: update_account_def split: if_split_asm\<close>)

lemma foot_account_updates [foot]:
  "update_account_display_name i n now d = (x1, d') \<Longrightarrow> touches {TAccounts} d d'"
  "set_account_disabled i b now d = (x2, d') \<Longrightarrow> touches {TAccounts} d d'"
  "set_account_password argon salt i pw now d = (x3, d') \<Longrightarrow> touches {TAccounts} d d'"
proof -
  show "update_account_display_name i n now d = (x1, d') \<Longrightarrow> touches {TAccounts} d d'"
    using foot_update_account update_account_display_name_ok unfolding update_account_display_name_def by blast
  show "set_account_disabled i b now d = (x2, d') \<Longrightarrow> touches {TAccounts} d d'"
    using foot_update_account set_account_disabled_ok unfolding set_account_disabled_def by blast
  show "touches {TAccounts} d d'" if r: "set_account_password argon salt i pw now d = (x3, d')"
    using foot_update_account set_account_password_ok [OF r] r
    by (auto simp: set_account_password_def split: sum.splits)
qed

lemma foot_create_account [foot]: "create_account argon salt u pw dn c now d = (x, d') \<Longrightarrow> touches {TAccounts} d d'"
  by (rule touches_by, erule (1) create_account_ok) (auto simp: create_account_def Let_def split: if_split_asm option.splits sum.splits prod.splits)

lemma foot_delete_account [foot]: "delete_account i d = (x, d') \<Longrightarrow> touches {TAccounts, TAccountRoles, TSessions, TBuckets} d d'"
  by (rule touches_by, erule (1) delete_account_ok) (auto simp: delete_account_def Let_def split: if_split_asm option.splits sum.splits prod.splits)

lemma foot_create_role [foot]: "create_role n pos d = (x, d') \<Longrightarrow> touches {TRoles} d d'"
  by (rule touches_by, erule (1) create_role_ok) (auto simp: create_role_def Let_def split: if_split_asm option.splits sum.splits prod.splits)

lemma foot_update_role [foot]: "update_role i n pos d = (x, d') \<Longrightarrow> touches {TRoles} d d'"
  by (rule touches_by, erule (1) update_role_ok) (auto simp: update_role_def Let_def split: if_split_asm option.splits sum.splits prod.splits)

lemma foot_delete_role [foot]: "delete_role i d = (x, d') \<Longrightarrow> touches {TRoles, TAccountRoles, TPerms} d d'"
  by (rule touches_by, erule (1) delete_role_ok) (auto simp: delete_role_def Let_def split: if_split_asm option.splits sum.splits prod.splits)

lemma foot_insert_account_role [foot]: "insert_account_role a r d = (x, d') \<Longrightarrow> touches {TAccountRoles} d d'"
  by (rule touches_by, erule (1) insert_account_role_op_ok) (auto simp: insert_account_role_def Let_def split: if_split_asm option.splits sum.splits prod.splits)

lemma foot_insert_account_roles [foot]: "insert_account_roles a rs d = (x, d') \<Longrightarrow> touches {TAccountRoles} d d'"
  by (induction a rs d rule: insert_account_roles.induct)
     (auto split: prod.splits sum.splits dest: foot_insert_account_role intro: touches_step [OF _ foot_insert_account_role])

lemma foot_set_account_roles [foot]: "set_account_roles a rs d = (x, d') \<Longrightarrow> touches {TAccountRoles} d d'"
proof -
  have "touches {TAccountRoles} d (account_roles_update (delete_where P) d)" for P
    by (rule touches_by, erule delete_account_roles_ok) simp
  then show "set_account_roles a rs d = (x, d') \<Longrightarrow> touches {TAccountRoles} d d'"
    unfolding set_account_roles_def
    by (auto split: prod.splits sum.splits intro: touches_step [OF foot_insert_account_roles])
qed

lemma foot_assign_role [foot]: "assign_role a r d = (x, d') \<Longrightarrow> touches {TAccountRoles} d d'"
  by (auto simp: assign_role_def split: if_split_asm dest: foot)

lemma foot_insert_role_permission [foot]: "insert_role_permission r b p d = (x, d') \<Longrightarrow> touches {TPerms} d d'"
  by (rule touches_by, erule (1) insert_role_permission_ok) (auto simp: insert_role_permission_def Let_def split: if_split_asm option.splits sum.splits prod.splits)

lemma foot_upsert_role_permission [foot]: "upsert_role_permission r b p d = (x, d') \<Longrightarrow> touches {TPerms} d d'"
  by (rule touches_by, erule (1) upsert_role_permission_ok)
     (auto simp: upsert_role_permission_def insert_role_permission_def split: if_split_asm)

lemma foot_insert_role_permissions [foot]: "insert_role_permissions r ps d = (x, d') \<Longrightarrow> touches {TPerms} d d'"
  by (induction r ps d rule: insert_role_permissions.induct)
     (auto split: prod.splits sum.splits dest: foot_insert_role_permission intro: touches_step [OF _ foot_insert_role_permission])

lemma foot_replace_role_permissions [foot]: "replace_role_permissions r ps d = (x, d') \<Longrightarrow> touches {TPerms} d d'"
proof -
  have "touches {TPerms} d (role_perms_update (delete_where P) d)" for P
    by (rule touches_by, erule delete_perms_ok) simp
  then show "replace_role_permissions r ps d = (x, d') \<Longrightarrow> touches {TPerms} d d'"
    unfolding replace_role_permissions_def
    by (auto split: prod.splits sum.splits intro: touches_step [OF foot_insert_role_permissions])
qed

lemma foot_create_session [foot]: "create_session r a ttl now d = (x, d') \<Longrightarrow> touches {TSessions} d d'"
  by (rule touches_by, erule (1) create_session_ok) (auto simp: create_session_def Let_def split: if_split_asm option.splits sum.splits prod.splits)

lemma foot_delete_session [foot_fun]: "touches {TSessions} d (delete_session tok d)" "touches {TSessions} d (delete_sessions_for_account i d)"
  by (rule touches_by, erule delete_session_ok, simp add: delete_session_def)
    (rule touches_by, erule delete_sessions_for_account_ok, simp add: delete_sessions_for_account_def)

lemma foot_resolve_session [foot]: "resolve_session tok now d = (x, d') \<Longrightarrow> touches {TSessions} d d'"
  by (auto simp: resolve_session_def foot_delete_session split: option.splits if_split_asm)

section \<open>Buckets, settings and nodes\<close>

lemma foot_insert_bucket [foot]: "insert_bucket n ow et now d = (x, d') \<Longrightarrow> touches {TBuckets} d d'"
  by (rule touches_by, erule (1) insert_bucket_ok) (auto simp: insert_bucket_def Let_def split: if_split_asm option.splits sum.splits prod.splits)

lemma foot_grant_owner_role [foot]: "grant_owner_role b d = (x, d') \<Longrightarrow> touches {TPerms} d d'"
  by (auto simp: grant_owner_role_def split: option.splits dest: foot)

lemma foot_create_bucket [foot]:
  "create_bucket n ow et now d = (x1, d') \<Longrightarrow> touches {TBuckets, TPerms} d d'"
  "ensure_bucket n now d = (x2, d') \<Longrightarrow> touches {TBuckets, TPerms} d d'"
  unfolding create_bucket_def ensure_bucket_def
  by (auto split: option.splits prod.splits sum.splits
      intro: touches_mono [OF foot_insert_bucket] touches_step [OF foot_grant_owner_role] touches_step [OF foot_insert_bucket])

lemma foot_claim_unowned_buckets [foot]: "claim_unowned_buckets i d = (x, d') \<Longrightarrow> touches {TBuckets} d d'"
  by (rule touches_by, erule (1) claim_unowned_buckets_ok) (auto simp: claim_unowned_buckets_def Let_def split: if_split_asm option.splits sum.splits prod.splits)

lemma foot_rename_bucket [foot]: "rename_bucket b n d = (x, d') \<Longrightarrow> touches {TBuckets} d d'"
  by (rule touches_by, erule (1) rename_bucket_ok) (auto simp: rename_bucket_def Let_def split: if_split_asm option.splits sum.splits prod.splits)

lemma foot_set_bucket_owner [foot]: "set_bucket_owner b i d = (x, d') \<Longrightarrow> touches {TBuckets} d d'"
  by (rule touches_by, erule (1) set_bucket_owner_ok) (auto simp: set_bucket_owner_def Let_def split: if_split_asm option.splits sum.splits prod.splits)

lemma foot_delete_bucket [foot]: "delete_bucket b d = (x, d') \<Longrightarrow> touches {TBuckets, TPerms, TNodes} d d'"
  by (rule touches_by, erule (1) delete_bucket_ok) (auto simp: delete_bucket_def Let_def split: if_split_asm option.splits sum.splits prod.splits)

lemma foot_set_recycle_retention [foot]: "set_recycle_retention v u d = (x, d') \<Longrightarrow> touches {TSettings} d d'"
  by (rule touches_by, erule (1) set_recycle_retention_ok) (auto simp: set_recycle_retention_def Let_def split: if_split_asm option.splits sum.splits prod.splits)

lemma foot_peer [foot_fun]: "touches {TPeers} d (upsert_peer i e d)" "touches {TPeers} d (update_peer_heartbeat i t d)"
  by (rule touches_by, erule upsert_peer_ok, simp add: upsert_peer_def)
    (rule touches_by, erule update_peer_heartbeat_ok, simp add: update_peer_heartbeat_def)

lemma insert_targets_frame [simp]:
  "accounts (insert_targets b ps d) = accounts d" "roles (insert_targets b ps d) = roles d"
  "account_roles (insert_targets b ps d) = account_roles d" "role_perms (insert_targets b ps d) = role_perms d"
  "sessions (insert_targets b ps d) = sessions d" "buckets (insert_targets b ps d) = buckets d"
  "settings (insert_targets b ps d) = settings d" "peers (insert_targets b ps d) = peers d"
  "outbox (insert_targets b ps d) = outbox d" "share_links (insert_targets b ps d) = share_links d"
  "share_users (insert_targets b ps d) = share_users d" "objects (insert_targets b ps d) = objects d"
  by (induction b ps d rule: insert_targets.induct) simp_all

lemma foot_set_bucket_replication [foot]: "set_bucket_replication b all ps d = (x, d') \<Longrightarrow> touches {TBuckets, TNodes} d d'"
  by (rule touches_by, erule (1) set_bucket_replication_ok) (auto simp: set_bucket_replication_def Let_def split: if_split_asm)

lemma foot_ensure_bucket_node_assignment [foot]: "ensure_bucket_node_assignment b p n m d = (x, d') \<Longrightarrow> touches {TNodes} d d'"
  by (rule touches_by, erule (1) ensure_bucket_node_assignment_ok) (auto simp: ensure_bucket_node_assignment_def insert_node_def split: if_split_asm option.splits sum.splits prod.splits)

lemma foot_assign_bucket_node [foot]: "assign_bucket_node b p n m d = (x, d') \<Longrightarrow> touches {TBuckets, TNodes} d d'"
  by (rule touches_by, erule (1) assign_bucket_node_ok) (auto simp: assign_bucket_node_def insert_node_def update_node_def clear_replicate_to_all_def Let_def split: if_split_asm option.splits sum.splits prod.splits)

lemma foot_update_bucket_node [foot]: "update_bucket_node b p n m d = (x, d') \<Longrightarrow> touches {TBuckets, TNodes} d d'"
  by (rule touches_by, erule (1) update_bucket_node_ok) (auto simp: update_bucket_node_def insert_node_def update_node_def clear_replicate_to_all_def Let_def split: if_split_asm option.splits sum.splits prod.splits)

lemma foot_remove_bucket_node [foot]: "remove_bucket_node b p l d = (x, d') \<Longrightarrow> touches {TBuckets, TNodes} d d'"
  by (rule touches_by, erule (1) remove_bucket_node_ok) (auto simp: remove_bucket_node_def insert_node_def update_node_def clear_replicate_to_all_def Let_def split: if_split_asm option.splits sum.splits prod.splits)

lemma foot_bucket_etag [foot]:
  "set_bucket_etag_type b t d = (x1, d') \<Longrightarrow> touches {TBuckets} d d'"
  "begin_bucket_etag_rehash b n d = (x2, d') \<Longrightarrow> touches {TBuckets} d d'"
  by (rule touches_by, erule (1) bucket_etag_ops_ok, simp add: set_bucket_etag_type_def update_bucket_def split: if_split_asm, force)
    (rule touches_by, erule (1) bucket_etag_ops_ok, simp add: begin_bucket_etag_rehash_def update_bucket_def split: if_split_asm, force)

lemma foot_bucket_etag_progress [foot_fun]:
  "touches {TBuckets} d (bump_bucket_etag_rehash_processed b d)"
  "touches {TBuckets} d (finish_bucket_etag_rehash b st e d)"
  by (rule touches_by, erule bucket_etag_progress_ok,
      simp add: bump_bucket_etag_rehash_processed_def finish_bucket_etag_rehash_def update_bucket_def)+

section \<open>Jobs and shares\<close>

lemma foot_objects_jobs:
  assumes "objects_jobs_only d d'" "db_ok d \<Longrightarrow> db_ok d'"
    and "\<And>c. db_ok d \<Longrightarrow> TObjects c \<notin> T \<Longrightarrow> bucket_rows c d' = bucket_rows c d" "TOutbox \<in> T"
  shows "touches T d d'"
proof -
  obtain ob j k where d': "d' = d\<lparr>objects := ob, outbox := j, next_job_id := k\<rparr>"
    using assms(1) unfolding objects_jobs_only_def by blast
  show ?thesis by (rule touches_by [OF assms(2)]) (use assms(3,4) in \<open>auto simp: d'\<close>)
qed

lemma foot_enqueue [foot]:
  assumes "enqueue_for_active_peers opn i fp tag loc now d = (x, d')"
  shows "touches {TOutbox} d d'"
proof (rule foot_objects_jobs)
  show "objects_jobs_only d d'" using enqueue_jobs_only [of d opn i fp tag loc now] assms by simp
  show "bucket_rows c d' = bucket_rows c d" for c using enqueue_frame(4) [OF assms] by (simp add: bucket_rows_def)
qed (use enqueue_ok [OF assms] in simp_all)

lemma set_in_flights_frame: "\<exists>r. foldl (\<lambda>d j. set_in_flight (oj_id j) d) d js = outbox_update (\<lambda>_. r) d"
proof (induction js arbitrary: d)
  case Nil
  have "d = outbox_update (\<lambda>_. outbox d) d" by simp
  then show ?case by (metis foldl_Nil)
next
  case (Cons j js)
  obtain r where "foldl (\<lambda>d j. set_in_flight (oj_id j) d) (set_in_flight (oj_id j) d) js =
      outbox_update (\<lambda>_. r) (set_in_flight (oj_id j) d)" using Cons by blast
  then show ?case by (simp add: set_in_flight_def) blast
qed

lemma foot_jobs [foot]:
  "enqueue_put_for_peer p i fp tag now d = (x1, d') \<Longrightarrow> touches {TOutbox} d d'"
  "claim_outbox_jobs n now d = (x2, d') \<Longrightarrow> touches {TOutbox} d d'"
proof -
  show "enqueue_put_for_peer p i fp tag now d = (x1, d') \<Longrightarrow> touches {TOutbox} d d'"
    by (rule touches_by, erule (1) enqueue_put_for_peer_ok)
       (auto simp: enqueue_put_for_peer_def insert_job_def split: if_split_asm)
  show "touches {TOutbox} d d'" if r: "claim_outbox_jobs n now d = (x2, d')"
  proof -
    obtain t where "d' = outbox_update (\<lambda>_. t) d"
      using r set_in_flights_frame unfolding claim_outbox_jobs_def Let_def by blast
    then show ?thesis by (intro touches_by [OF claim_outbox_jobs_ok [OF r]]) simp_all
  qed
qed

lemma foot_job_done [foot_fun]:
  "touches {TOutbox} d (complete_outbox_job i d)" "touches {TOutbox} d (fail_outbox_job i now d)"
  by (rule touches_by, erule complete_outbox_job_ok, simp add: complete_outbox_job_def)
    (rule touches_by, erule fail_outbox_job_ok, simp add: fail_outbox_job_def)

lemma foot_insert_share [foot]: "insert_share t c b k kd m e cr now d = (x, d') \<Longrightarrow> touches {TShares} d d'"
  by (rule touches_by, erule (1) insert_share_ok) (auto simp: insert_share_def split: if_split_asm option.splits sum.splits prod.splits)

lemma foot_insert_share_users [foot]: "insert_share_users s as d = (x, d') \<Longrightarrow> touches {TShareUsers} d d'"
proof (induction s as d rule: insert_share_users.induct)
  case (2 s a as d)
  have "touches {TShareUsers} d (share_users_update (\<lambda>rows. rows @ [(s, a)]) d)"
    if "(s, a) \<notin> set (share_users d)" "s \<in> share_id ` set (share_links d)" "a \<in> account_id ` set (accounts d)"
    by (rule touches_by, rule insert_share_user_ok) (use that in simp_all)
  with 2 show ?case by (auto split: if_split_asm intro: touches_step)
qed auto

lemma foot_try_create_share:
  "try_create_share ds sh b k kd m e cr as now d = (x, d') \<Longrightarrow> touches {TShares, TShareUsers} d d'"
proof (induction ds sh b k kd m e cr as now d rule: try_create_share.induct)
  case (2 t c ds sh b k kd m e cr as now d)
  obtain y d1 where ins: "insert_share (random_share_code t) (if sh then Some (random_share_code c) else None)
      b k kd m e cr now d = (y, d1)" by force
  note t1 = touches_mono [OF foot_insert_share [OF ins], of "{TShares, TShareUsers}", simplified]
  show ?case
  proof (cases y)
    case (Inl er)
    show ?thesis
      using 2(2) ins t1 touches_step [OF 2(1) [OF refl refl ins [symmetric] Inl] t1]
      by (simp add: Inl split: if_split_asm)
  next
    case (Inr i)
    obtain z d2 where us: "(if m = SpecificUsers then insert_share_users i as d1 else (Inr (), d1)) = (z, d2)" by force
    then have "touches {TShares, TShareUsers} d1 d2"
      by (auto split: if_split_asm dest: foot_insert_share_users intro: touches_mono)
    then have "touches {TShares, TShareUsers} d d2" using t1 touches_step by blast
    moreover have "d' = d2" using 2(2) ins us by (auto simp: Inr Let_def split: sum.splits option.splits)
    ultimately show ?thesis by simp
  qed
qed auto

lemma foot_share [foot]:
  "create_share dr b k kd m e cr as sh now d = (x1, d') \<Longrightarrow> touches {TShares, TShareUsers} d d'"
  "revoke_share i a ow now d = (x2, d') \<Longrightarrow> touches {TShares} d d'"
proof -
  show "create_share dr b k kd m e cr as sh now d = (x1, d') \<Longrightarrow> touches {TShares, TShareUsers} d d'"
    by (auto simp: create_share_def split: if_split_asm dest: foot_try_create_share)
  show "revoke_share i a ow now d = (x2, d') \<Longrightarrow> touches {TShares} d d'"
    by (rule touches_by, erule (1) revoke_share_ok)
       (auto simp: revoke_share_def split: if_split_asm option.splits)
qed

section \<open>Objects\<close>

lemma bucket_rows_update:
  assumes "\<And>r. r \<in> set (objects d) \<Longrightarrow> P r \<Longrightarrow> obj_bucket_id r \<noteq> c" "\<And>r. obj_bucket_id (f r) = obj_bucket_id r"
  shows "bucket_rows c (objects_update (update_where P f) d) = bucket_rows c d"
proof -
  have "filter (\<lambda>r. obj_bucket_id r = c) (update_where P f rows) = filter (\<lambda>r. obj_bucket_id r = c) rows"
    if "\<forall>r \<in> set rows. P r \<longrightarrow> obj_bucket_id r \<noteq> c" for rows
    using that by (induction rows) (simp_all add: update_where_def assms(2))
  then show ?thesis using assms(1) by (simp add: bucket_rows_def)
qed

lemma bucket_rows_delete:
  assumes "\<And>r. r \<in> set (objects d) \<Longrightarrow> P r \<Longrightarrow> obj_bucket_id r \<noteq> c"
  shows "bucket_rows c (delete_object_row P d) = bucket_rows c d"
  using assms by (auto simp: bucket_rows_def delete_where_def intro!: filter_cong)

lemma object_by_id: "db_ok d \<Longrightarrow> get_object_by_id i d = Some r \<Longrightarrow> x \<in> set (objects d) \<Longrightarrow> obj_id x = i \<Longrightarrow> x = r"
proof -
  assume "db_ok d" "get_object_by_id i d = Some r" "x \<in> set (objects d)" "obj_id x = i"
  then show "x = r" using row_of_object by fastforce
qed

text \<open>A change of the object rows only.\<close>

lemma foot_objects:
  assumes "objects_update g (next_object_id_update h d) = d'" "db_ok d \<Longrightarrow> db_ok d'"
    and "\<And>c. db_ok d \<Longrightarrow> TObjects c \<notin> T \<Longrightarrow> bucket_rows c d' = bucket_rows c d"
  shows "touches T d d'"
  by (rule touches_by [OF assms(2)]) (use assms(3) in \<open>auto simp: assms(1) [symmetric]\<close>)

lemma foot_objects_same:
  assumes "objects_update g d = d'" "db_ok d \<Longrightarrow> db_ok d'"
    and "\<And>c. db_ok d \<Longrightarrow> TObjects c \<notin> T \<Longrightarrow> bucket_rows c d' = bucket_rows c d"
  shows "touches T d d'"
proof (rule foot_objects [where g = g and h = "\<lambda>i. i"])
  show "objects_update g (next_object_id_update (\<lambda>i. i) d) = d'" using assms(1) by (cases d) simp
qed (use assms(2,3) in simp_all)

lemma foot_soft_delete_rows:
  assumes "\<And>r. db_ok d \<Longrightarrow> r \<in> set (objects d) \<Longrightarrow> P r \<Longrightarrow> TObjects (obj_bucket_id r) \<in> T"
  shows "touches T d (soft_delete_rows P now d)"
proof (rule foot_objects_same [OF soft_delete_rows_def [symmetric] soft_delete_rows_ok])
  show "bucket_rows c (soft_delete_rows P now d) = bucket_rows c d" if "db_ok d" "TObjects c \<notin> T" for c
    unfolding soft_delete_rows_def by (rule bucket_rows_update) (use assms that in auto)
qed

lemma foot_soft_delete [foot]:
  "soft_delete_object_by_filename k (Some b) now d = (x1, d') \<Longrightarrow> touches {TObjects b} d d'"
  "soft_delete_prefix b pre now d = (x2, d') \<Longrightarrow> touches {TObjects b} d d'"
proof -
  have row: "obj_bucket_id r = b" if "get_object_by_filename_in_bucket k b d = Some y" "obj_id r = obj_id y"
    "db_ok d" "r \<in> set (objects d)" for r y
  proof -
    have y: "y \<in> set (objects d)" "obj_bucket_id y = b"
      using that(1) unfolding get_object_by_filename_in_bucket_def by (auto dest: select_one_Some)
    show ?thesis using object_by_id [OF that(3) row_of_object [OF that(3) y(1)] that(4,2)] y(2) by simp
  qed
  show "touches {TObjects b} d d'" if r: "soft_delete_object_by_filename k (Some b) now d = (x1, d')"
  proof (cases "get_object_by_filename_in_bucket k b d")
    case (Some y)
    then have d': "d' = soft_delete_rows (\<lambda>x. obj_id x = obj_id y) now d"
      using r by (simp add: soft_delete_object_by_filename_def)
    show ?thesis unfolding d' by (rule foot_soft_delete_rows) (use row [OF Some] in simp)
  qed (use r in \<open>simp add: soft_delete_object_by_filename_def\<close>)
  show "soft_delete_prefix b pre now d = (x2, d') \<Longrightarrow> touches {TObjects b} d d'"
    by (auto simp: soft_delete_prefix_def Let_def intro!: foot_soft_delete_rows)
qed

lemma foot_soft_delete_any: "touches (range TObjects) d (snd (soft_delete_object_by_filename k bo now d))"
  by (auto simp: soft_delete_object_by_filename_def Let_def split: option.splits intro!: foot_soft_delete_rows)

lemma foot_insert_row:
  assumes "insert_object_row r d = (x, d')" shows "touches {TObjects (obj_bucket_id r)} d d'"
  using assms
proof (cases rule: insert_object_row_cases)
  case ok
  show ?thesis by (rule foot_objects [OF ok(2) [symmetric] insert_object_row_ok [OF assms]]) (simp_all add: bucket_rows_def ok(2))
qed simp

lemma foot_insert_object [foot]:
  "insert_object_tx fname fp fmt n et tag b now d = (x1, d') \<Longrightarrow> touches {TObjects b} d d'"
  "insert_object_idempotent fname fp fmt n es tag u m b now d = (x2, d') \<Longrightarrow> touches {TObjects b} d d'"
  unfolding insert_object_tx_def insert_object_idempotent_def
  by (auto split: option.splits if_splits prod.splits sum.splits dest!: foot_insert_row)

lemma foot_restore_object [foot]:
  assumes r: "restore_object i now d = (x, d')" and o: "get_object_by_id i d = Some ob"
  shows "touches {TObjects (obj_bucket_id ob)} d d'"
proof -
  have "bucket_rows c (objects_update (update_where (\<lambda>x. obj_id x = i) (\<lambda>x. x\<lparr>deleted_at := None, date_modified := now\<rparr>)) d)
      = bucket_rows c d" if "db_ok d" "TObjects c \<notin> {TObjects (obj_bucket_id ob)}" for c
    by (rule bucket_rows_update) (use object_by_id [OF that(1) o] that(2) in auto)
  moreover consider "d' = d"
    | "d' = objects_update (update_where (\<lambda>x. obj_id x = i) (\<lambda>x. x\<lparr>deleted_at := None, date_modified := now\<rparr>)) d"
    using r unfolding restore_object_def Let_def by (auto split: option.splits if_split_asm)
  ultimately show ?thesis
    by cases (use restore_object_ok [OF r] in \<open>auto intro!: foot_objects_same [OF refl]\<close>)
qed

lemma foot_rename_prefix [foot]:
  assumes r: "rename_prefix b f t now d = (x, d')" shows "touches {TObjects b} d d'"
proof (cases "db_ok d")
  case True
  then have ok: "objects_ok d" by (simp add: db_ok_def)
  from r ok show ?thesis
  proof (cases rule: rename_prefix_cases)
    case (renamed rs)
    have rs: "rs = map (\<lambda>r. (obj_id r, t @ drop (length f) (original_filename r)))
        (filter (\<lambda>r. starts_with (original_filename r) f) (list_keys_under_prefix b f d))"
      using renamed(3) plan_renames_Inr by blast
    have "filter (\<lambda>r. obj_bucket_id r = c) (map (renamed rs now) rows) = filter (\<lambda>r. obj_bucket_id r = c) rows"
      if "set rows \<subseteq> set (objects d)" "c \<noteq> b" for c rows
      using that by (induction rows) (auto simp: renamed_plan [OF ok rs] renamable_def rename_key_def)
    then show ?thesis
      by (intro foot_objects_same [OF renamed(4) [symmetric] rename_prefix_ok [OF r]])
        (simp_all add: bucket_rows_def renamed(4))
  qed simp_all
qed (simp add: touches_def)

section \<open>Purging\<close>

text \<open>Removing rows also clears what the outbox says of them.\<close>

lemma foot_delete_object_row:
  assumes "\<And>r. db_ok d \<Longrightarrow> r \<in> set (objects d) \<Longrightarrow> P r \<Longrightarrow> TObjects (obj_bucket_id r) \<in> T" "TOutbox \<in> T"
  shows "touches T d (delete_object_row P d)"
proof (rule foot_objects_jobs [OF _ delete_object_row_ok])
  show "bucket_rows c (delete_object_row P d) = bucket_rows c d" if "db_ok d" "TObjects c \<notin> T" for c
    by (rule bucket_rows_delete) (use assms(1) that in auto)
qed (simp_all add: assms(2) objects_jobs_only_def delete_object_row_def Let_def)

lemma foot_delete_by_filepath: "touches (insert TOutbox (range TObjects)) d (snd (delete_object_by_filepath fp d))"
  by (simp add: delete_object_by_filepath_def foot_delete_object_row)

lemma foot_purge_object:
  assumes "purge_object eng loc now r (d, f) = (d', f')"
    and "\<And>x. db_ok d \<Longrightarrow> x \<in> set (objects d) \<Longrightarrow> obj_id x = obj_id r \<Longrightarrow> obj_bucket_id x = b"
  shows "touches {TObjects b, TOutbox} d d'"
proof -
  obtain n d1 where enq: "enqueue_for_active_peers DeleteOp (obj_id r) (filepath r) (etag r) loc now d = (n, d1)" by force
  show ?thesis
  proof (cases "db_ok d")
    case True
    have "touches {TObjects b, TOutbox} d1 (delete_object_row (\<lambda>x. obj_id x = obj_id r) d1)"
      by (rule foot_delete_object_row) (use assms(2) True enqueue_frame(4) [OF enq] in auto)
    moreover have "d' = delete_object_row (\<lambda>x. obj_id x = obj_id r) d1"
      using assms(1) by (simp add: purge_object_def enqueue_delete_for_active_peers_def enq Let_def)
    ultimately show ?thesis using touches_step [OF _ touches_mono [OF foot_enqueue [OF enq]]] by simp
  qed (simp add: touches_def)
qed

lemma foot_hard_purge:
  assumes "hard_purge_object i now n = (x, n')" and "get_object_by_id i (node_db n) = Some r"
  shows "touches {TObjects (obj_bucket_id r), TOutbox} (node_db n) (node_db n')"
proof -
  obtain d f where p: "purge_object (node_engine n) (node_id n) now r (node_db n, node_fs n) = (d, f)" by force
  have "obj_id r = i" using assms(2) unfolding get_object_by_id_def by (rule obj_tbl.row_mem [THEN conjunct2])
  then have "touches {TObjects (obj_bucket_id r), TOutbox} (node_db n) d"
    using object_by_id [OF _ assms(2)] by (intro foot_purge_object [OF p]) auto
  then show ?thesis using assms p by (auto simp: hard_purge_object_def)
qed

lemma hard_purge_missing: "get_object_by_id i (node_db n) = None \<Longrightarrow> snd (hard_purge_object i now n) = n"
  by (simp add: hard_purge_object_def)

text \<open>The continuation form, with which a handler's calls are chained.\<close>

lemmas foot_then = foot [THEN touches_step] foot_fun [THEN touches_step]

end
