(* ===== verification/Storage_Routes.thy ===== *)
theory Storage_Routes
  imports Recycle_Routes Relocate Reconcile
begin

text \<open>
  The routes of \<open>src/server/settings_routes.rs\<close> for the storage root: its state, the integrity report, the repair
  and the move; then what a move does, also when its result cannot be recorded.
\<close>

section \<open>Reading\<close>

record storage_settings_view =
  sv_path :: string
  sv_absolute_path :: string
  sv_object_count :: int
  sv_db_object_count :: int
  sv_disk_file_count :: int
  sv_used_bytes :: int
  sv_has_data :: bool
  sv_node_id :: string

definition get_storage_settings ::
  "'a config \<Rightarrow> path option \<Rightarrow> storage_engine \<Rightarrow> fs \<Rightarrow> account_record \<Rightarrow> db \<Rightarrow> storage_settings_view reply \<times> db" where
  "get_storage_settings c cwd eng f auth = owner_only auth (\<lambda>d.
     (case object_stats d of (used, n, _) \<Rightarrow>
        let files = count_disk_files (objects_dir eng) f in
        (Json 200 \<lparr>sv_path = path_display (cfg_storage_root c),
           sv_absolute_path = path_display (absolute_display cwd (cfg_storage_root c)),
           sv_object_count = n, sv_db_object_count = n, sv_disk_file_count = files, sv_used_bytes = used,
           sv_has_data = (n > 0 \<or> used > 0 \<or> files > 0), sv_node_id = cfg_node_id c\<rparr>, d)))"

definition get_storage_integrity :: "storage_engine \<Rightarrow> fs \<Rightarrow> account_record \<Rightarrow> db \<Rightarrow> integrity_report reply \<times> db" where
  "get_storage_integrity eng f auth = owner_only auth (\<lambda>d. (Json 200 (inspect d eng f), d))"

definition post_storage_reconcile ::
  "(string \<Rightarrow> bool) \<Rightarrow> account_record \<Rightarrow> node \<Rightarrow> integrity_report reply \<times> node" where
  "post_storage_reconcile stuck auth n =
     (case require_owner (account_id auth) (node_db n) of
        Inl r \<Rightarrow> (Raw r, n)
      | Inr _ \<Rightarrow> (case reconcile stuck (node_db n) (node_engine n) (node_fs n) of
            (report, f) \<Rightarrow> (Json 200 report, n\<lparr>node_fs := f\<rparr>)))"

section \<open>Changing the storage root\<close>

text \<open>
  What the change touches: the disk, the file that keeps the root, whether the pool of database connections is
  open, and whether the process is about to exit.
\<close>

record host_state =
  hs_disk :: disk
  hs_override :: "string option"
  hs_db_open :: bool
  hs_exiting :: bool

record storage_change =
  sc_absolute_path :: string
  sc_mode :: string

text \<open>
  \<open>None\<close> is a handler that does not end. The database is closed before the move, and stays closed when the move
  fails; \<open>writable\<close> is as for \<open>persist_storage_root\<close>.
\<close>

definition persist_and_exit ::
  "path option \<Rightarrow> bool \<times> bool \<Rightarrow> path \<Rightarrow> string \<Rightarrow> host_state \<Rightarrow> storage_change reply \<times> host_state" where
  "persist_and_exit cwd writable new_path mode h =
     (case persist_storage_root cwd writable new_path (hs_override h) of
        (Inl e, ov) \<Rightarrow> (text_reply 500 e, h\<lparr>hs_override := ov\<rparr>)
      | (Inr _, ov) \<Rightarrow> (Json 202 \<lparr>sc_absolute_path = path_display new_path, sc_mode = mode\<rparr>,
            h\<lparr>hs_override := ov, hs_exiting := True\<rparr>))"

definition put_storage_settings ::
  "(path \<Rightarrow> path \<Rightarrow> int option) \<Rightarrow> 'a config \<Rightarrow> path option \<Rightarrow> bool \<times> bool \<Rightarrow> account_record \<Rightarrow> string \<Rightarrow> string \<Rightarrow>
     db \<Rightarrow> host_state \<Rightarrow> (storage_change reply \<times> host_state) option" where
  "put_storage_settings rename_error c cwd writable auth new_root mode_raw d h =
     (case require_owner (account_id auth) d of
        Inl r \<Rightarrow> Some (Raw r, h)
      | Inr _ \<Rightarrow>
          let mode = trim mode_raw in
          if mode \<noteq> ''move'' \<and> mode \<noteq> ''fresh'' then Some (text_reply 400 ''mode must be move or fresh'', h)
          else
            (case resolve_storage_path cwd new_root of
               Inl e \<Rightarrow> Some (text_reply 400 e, h)
             | Inr new_path \<Rightarrow>
                 let current = absolute_display cwd (cfg_storage_root c) in
                 if new_path = current then Some (status_reply 204, h)
                 else if mode = ''move'' then
                   (if dir_nonempty new_path (hs_disk h) = Inr True
                    then Some (text_reply 409 ''destination already exists and is not empty'', h)
                    else Option.bind (relocate_storage_root rename_error current new_path (hs_disk h)) (\<lambda>(res, t).
                      let h1 = h\<lparr>hs_db_open := False, hs_disk := t\<rparr> in
                      case res of
                        Inl e \<Rightarrow> Some (text_reply 500 e, h1)
                      | Inr _ \<Rightarrow> Some (persist_and_exit cwd writable new_path mode h1)))
                 else
                   (case ensure_storage_layout new_path (hs_disk h) of
                      Inl e \<Rightarrow> Some (text_reply 500 e, h)
                    | Inr t \<Rightarrow> Some (persist_and_exit cwd writable new_path mode (h\<lparr>hs_disk := t\<rparr>)))))"

section \<open>A change of the storage root\<close>

lemma absolute_display_absolute:
  "list_all abs_normal (case cwd of None \<Rightarrow> [] | Some dir \<Rightarrow> [dir]) \<Longrightarrow> cwd \<noteq> None \<or> is_absolute p \<Longrightarrow> is_absolute (absolute_display cwd p)"
  by (cases cwd) (auto simp: absolute_display_def comps_join_def is_absolute_def abs_normal_def)

text \<open>A request of an owner to move the root from \<open>src\<close> to the path \<open>p\<close>, which is free, on a disk in order.\<close>

definition movable :: "(path \<Rightarrow> path \<Rightarrow> int option) \<Rightarrow> path \<Rightarrow> path \<Rightarrow> disk \<Rightarrow> bool" where
  "movable rename_error src p t \<longleftrightarrow> apart src p \<and> disk_tree [RootDir] t
     \<and> entry_at src t = Some DirE \<and> entry_at (src @ [Normal ''objects'']) t = Some DirE
     \<and> (entry_at p t \<noteq> None \<longrightarrow> entry_at p t = Some DirE \<and> dir_names p t = [])
     \<and> (\<forall>q bs. within q p \<and> q \<noteq> [] \<longrightarrow> entry_at q t \<noteq> Some (FileE bs))
     \<and> (case rename_error src p of None \<Rightarrow> True | Some code \<Rightarrow> is_exdev code)"

lemma move_runs:
  assumes "account_is_owner (account_id auth) d" and "trim mode_raw = ''move''"
    and "list_all abs_normal (case cwd of None \<Rightarrow> [] | Some dir \<Rightarrow> [dir])" and "cwd \<noteq> None \<or> is_absolute (cfg_storage_root c)"
    and "resolve_storage_path cwd new_root = Inr p" and "absolute_display cwd (cfg_storage_root c) = src"
    and "movable rename_error src p (hs_disk h)"
  shows "\<exists>t. put_storage_settings rename_error c cwd writable auth new_root mode_raw d h
      = Some (persist_and_exit cwd writable p ''move'' (h\<lparr>hs_db_open := False, hs_disk := t\<rparr>))
    \<and> arrived src p (hs_disk h) t"
proof -
  note m = assms(7) [unfolded movable_def]
  have "is_absolute p" using resolve_abs [OF assms(5,3)] by (simp add: is_absolute_def abs_normal_def)
  moreover have "is_absolute src" using absolute_display_absolute [OF assms(3,4)] assms(6) by simp
  ultimately obtain t where t: "relocate_storage_root rename_error src p (hs_disk h) = Some (Inr (), t)"
    "arrived src p (hs_disk h) t"
    using relocate_arrives [of src p "hs_disk h" rename_error] m by blast
  have "dir_nonempty p (hs_disk h) \<noteq> Inr True" using m by (auto simp: dir_nonempty_def split: option.split)
  moreover have "p \<noteq> src" using m by (auto simp: apart_def within_def)
  ultimately have "put_storage_settings rename_error c cwd writable auth new_root mode_raw d h
      = Some (persist_and_exit cwd writable p ''move'' (h\<lparr>hs_db_open := False, hs_disk := t\<rparr>))"
    using assms(1,2,5,6) t(1) by (simp add: put_storage_settings_def require_owner_def Let_def)
  then show ?thesis using t(2) by blast
qed

text \<open>C14: When an owner moves the storage root to a free place, the whole tree is at the new place and nothing is left at
  the old one, whether the system can rename or the tree has to be copied. If the override file can then be written, the
  answer is 202, the process is about to exit, and a later start that finds this file and has no other setting opens the
  text of the new path without white space at its end, which is the new path unless that ends in white space. If it
  cannot be written, the answer is 500, the database is closed, the process runs on and the override is as before. A free
  place: apart from the old tree, missing or an empty directory, with no file among its ancestors, on a disk in order; a
  rename that fails does so because the places are on different file systems.\<close>

theorem move_storage_arrives:
  assumes "account_is_owner (account_id auth) d" and "trim mode_raw = ''move''"
    and "list_all abs_normal (case cwd of None \<Rightarrow> [] | Some dir \<Rightarrow> [dir])" and "cwd \<noteq> None \<or> is_absolute (cfg_storage_root c)"
    and "resolve_storage_path cwd new_root = Inr p" and "absolute_display cwd (cfg_storage_root c) = src"
    and "movable rename_error src p (hs_disk h)"
  shows "\<exists>r h'. put_storage_settings rename_error c cwd writable auth new_root mode_raw d h = Some (r, h')
    \<and> arrived src p (hs_disk h) (hs_disk h') \<and> \<not> hs_db_open h'
    \<and> (if writable = (True, True) then reply_status r = 202 \<and> hs_exiting h'
         \<and> (\<forall>host cli c'. ho_override host = hs_override h' \<and> parse_cli_overrides (ho_args host) = Some cli
              \<and> cli_storage_root cli = None \<and> ho_env host ''STORAGE_ROOT'' = None \<and> from_env host = Some (Inr c')
              \<longrightarrow> cfg_storage_root c' = path_of (trim (path_display p))
                \<and> (trim (path_display p) = path_display p \<longrightarrow> cfg_storage_root c' = p))
       else reply_status r = 500 \<and> hs_exiting h' = hs_exiting h \<and> hs_override h' = hs_override h)"
proof -
  have p: "abs_normal p" using resolve_abs [OF assms(5,3)] .
  obtain t where t: "put_storage_settings rename_error c cwd writable auth new_root mode_raw d h
      = Some (persist_and_exit cwd writable p ''move'' (h\<lparr>hs_db_open := False, hs_disk := t\<rparr>))"
    "arrived src p (hs_disk h) t" using move_runs [OF assms(1-7)] by blast
  show ?thesis
  proof (cases "writable = (True, True)")
    case True
    obtain s where s: "persist_storage_root cwd (True, True) p (hs_override h) = (Inr (), s)"
      "read_persisted_storage_root s = Some (trim (path_display p))" using persist_reads_back [OF p] by blast
    have "cfg_storage_root c' = path_of (trim (path_display p))
        \<and> (trim (path_display p) = path_display p \<longrightarrow> cfg_storage_root c' = p)"
      if "ho_override host = s" "parse_cli_overrides (ho_args host) = Some cli" "cli_storage_root cli = None"
        "ho_env host ''STORAGE_ROOT'' = None" "from_env host = Some (Inr c')" for host cli c'
    proof -
      have "config_of host cli = Inr c'" using that(2,5) by (simp add: from_env_def)
      from config_root [OF this that(3,4)] have "cfg_storage_root c' = path_of (trim (path_display p))"
        using that(1) s(2) by simp
      then show ?thesis using path_of_display [OF p] by simp
    qed
    then show ?thesis using t s(1) True by (simp add: persist_and_exit_def) blast
  next
    case False
    have "is_absolute p" using p by (simp add: is_absolute_def abs_normal_def)
    then have "\<exists>e. persist_storage_root cwd writable p (hs_override h) = (Inl e, hs_override h)"
      using False by (cases writable) (auto simp: persist_storage_root_def)
    then show ?thesis using t False by (auto simp: persist_and_exit_def text_reply_def text_response_def)
  qed
qed

definition demo_disk :: disk where
  "demo_disk = [([RootDir], DirE), ([RootDir, Normal ''a''], DirE), ([RootDir, Normal ''a'', Normal ''objects''], DirE),
     ([RootDir, Normal ''a'', Normal ''objects'', Normal ''x''], FileE ''1'')]"

definition demo_host_state :: host_state where
  "demo_host_state = \<lparr>hs_disk = demo_disk, hs_override = None, hs_db_open = True, hs_exiting = False\<rparr>"

definition owner_db :: db where
  "owner_db = (initial_db 0)\<lparr>accounts := [reader], account_roles := [(7, 1)]\<rparr>"

lemma demo_disk_tree: "disk_tree [RootDir] demo_disk"
  unfolding disk_tree_def demo_disk_def entry_at_def
  by (auto simp: append_eq_Cons_conv Cons_eq_append_conv split: if_split_asm)

lemma demo_movable: "movable (\<lambda>_ _. Some 18) [RootDir, Normal ''a''] [RootDir, Normal ''b'', Normal ''c''] demo_disk"
proof -
  have "\<forall>q bs. within q [RootDir, Normal ''b'', Normal ''c''] \<and> q \<noteq> [] \<longrightarrow> entry_at q demo_disk \<noteq> Some (FileE bs)"
    by (auto simp: within_def demo_disk_def entry_at_def)
  then show ?thesis
    using demo_disk_tree unfolding movable_def
    by (simp add: apart_def within_def is_exdev_def) (simp add: demo_disk_def entry_at_def)
qed

theorem move_storage_arrives_witness:
  "\<exists>r h'. put_storage_settings (\<lambda>_ _. Some 18) (demo_config\<lparr>cfg_storage_root := [RootDir, Normal ''a'']\<rparr>) None (True, True)
      reader ''/b/./c/'' '' move '' owner_db demo_host_state = Some (r, h')
    \<and> reply_status r = 202
    \<and> entry_at [RootDir, Normal ''b'', Normal ''c'', Normal ''objects'', Normal ''x''] (hs_disk h') = Some (FileE ''1'')
    \<and> entry_at [RootDir, Normal ''a''] (hs_disk h') = None"
proof -
  let ?c = "demo_config\<lparr>cfg_storage_root := [RootDir, Normal ''a'']\<rparr>"
  let ?p = "[RootDir, Normal ''b'', Normal ''c'']" and ?src = "[RootDir, Normal ''a'']"
  have h: "account_is_owner (account_id reader) owner_db" "trim '' move '' = ''move''"
    "list_all abs_normal (case None of None \<Rightarrow> [] | Some dir \<Rightarrow> [dir])" "None \<noteq> (None :: path option) \<or> is_absolute (cfg_storage_root ?c)"
    "resolve_storage_path None ''/b/./c/'' = Inr ?p" "absolute_display None (cfg_storage_root ?c) = ?src" by code_simp+
  have m: "movable (\<lambda>_ _. Some 18) ?src ?p (hs_disk demo_host_state)"
    using demo_movable by (simp add: demo_host_state_def)
  obtain r h' where r: "put_storage_settings (\<lambda>_ _. Some 18) ?c None (True, True)
      reader ''/b/./c/'' '' move '' owner_db demo_host_state = Some (r, h')" "reply_status r = 202"
    "arrived ?src ?p (hs_disk demo_host_state) (hs_disk h')"
    using move_storage_arrives [OF h m, of "(True, True)"] by auto
  have "entry_at (?p @ [Normal ''objects'', Normal ''x'']) (hs_disk h')
      = entry_at (?src @ [Normal ''objects'', Normal ''x'']) demo_disk"
    and "entry_at (?src @ []) (hs_disk h') = None"
    using r(3) by (simp_all only: arrived_def demo_host_state_def host_state.simps)
  then show ?thesis using r(1,2) by (simp add: demo_disk_def entry_at_def)
qed

text \<open>When the file that keeps the root cannot be written after the tree has been moved, the request fails with
  status 500 with the data at the new place, the database closed and the process still running, and the next start
  still opens the old place, where nothing is left.\<close>

theorem move_storage_unrecorded:
  assumes "account_is_owner (account_id auth) d" and "trim mode_raw = ''move''"
    and "list_all abs_normal (case cwd of None \<Rightarrow> [] | Some dir \<Rightarrow> [dir])" and "cwd \<noteq> None \<or> is_absolute (cfg_storage_root c)"
    and "resolve_storage_path cwd new_root = Inr p" and "absolute_display cwd (cfg_storage_root c) = src"
    and "movable rename_error src p (hs_disk h)" and "writable \<noteq> (True, True)"
  shows "\<exists>r h'. put_storage_settings rename_error c cwd writable auth new_root mode_raw d h = Some (r, h')
    \<and> reply_status r = 500 \<and> \<not> hs_db_open h' \<and> hs_exiting h' = hs_exiting h
    \<and> hs_override h' = hs_override h \<and> (\<forall>q. entry_at (src @ q) (hs_disk h') = None)"
proof -
  have p: "abs_normal p" using resolve_abs [OF assms(5,3)] .
  then have "is_absolute p" by (simp add: is_absolute_def abs_normal_def)
  then have "\<exists>e. persist_storage_root cwd writable p (hs_override h) = (Inl e, hs_override h)"
    using assms(8) by (cases writable) (auto simp: persist_storage_root_def)
  then show ?thesis
    using move_runs [OF assms(1-7), of writable]
    by (auto simp: persist_and_exit_def arrived_def text_reply_def text_response_def)
qed

theorem move_storage_unrecorded_witness:
  "\<exists>r h'. put_storage_settings (\<lambda>_ _. Some 18) (demo_config\<lparr>cfg_storage_root := [RootDir, Normal ''a'']\<rparr>) None (True, False)
      reader ''/b/c'' ''move'' owner_db demo_host_state = Some (r, h')
    \<and> reply_status r = 500 \<and> \<not> hs_db_open h' \<and> hs_override h' = None"
proof -
  let ?c = "demo_config\<lparr>cfg_storage_root := [RootDir, Normal ''a'']\<rparr>"
  let ?p = "[RootDir, Normal ''b'', Normal ''c'']" and ?src = "[RootDir, Normal ''a'']"
  have h: "account_is_owner (account_id reader) owner_db" "trim ''move'' = ''move''"
    "list_all abs_normal (case None of None \<Rightarrow> [] | Some dir \<Rightarrow> [dir])" "None \<noteq> (None :: path option) \<or> is_absolute (cfg_storage_root ?c)"
    "resolve_storage_path None ''/b/c'' = Inr ?p" "absolute_display None (cfg_storage_root ?c) = ?src" by code_simp+
  have m: "movable (\<lambda>_ _. Some 18) ?src ?p (hs_disk demo_host_state)"
    using demo_movable by (simp add: demo_host_state_def)
  show ?thesis using move_storage_unrecorded [OF h m, of "(True, False)"] by (auto simp: demo_host_state_def)
qed
end
