(* ===== verification/Serving.thy ===== *)
theory Serving
  imports S3 Upkeep
begin

text \<open>
  What the S3 routes promise: an accepted upload replaces the object of its key, and a range request returns
  exactly the bytes asked for. \<open>Keystore\<close> says what the routes are seen from outside.
\<close>

section \<open>Uploading\<close>

lemma objects_update_cong: "f (objects d) = g (objects d) \<Longrightarrow> objects_update f d = objects_update g d"
  by (cases d) simp

definition is_key_row :: "int \<Rightarrow> string \<Rightarrow> object_record \<Rightarrow> bool" where
  "is_key_row b key r \<longleftrightarrow> obj_active r \<and> obj_bucket_id r = b \<and> original_filename r = key"

definition recycled :: "time \<Rightarrow> object_record \<Rightarrow> object_record" where
  "recycled now r = r\<lparr>deleted_at := Some now, date_modified := now\<rparr>"

lemma soft_delete_by_key:
  assumes "db_ok d"
  shows "snd (soft_delete_object_by_filename key (Some b) now d)
    = objects_update (map (\<lambda>r. if is_key_row b key r then recycled now r else r)) d"
proof -
  have ok: "objects_ok d" using assms by (simp add: db_ok_def)
  show ?thesis
  proof (cases "get_object_by_filename_in_bucket key b d")
    case None
    then have "\<forall>r \<in> set (objects d). \<not> is_key_row b key r"
      by (auto simp: get_object_by_filename_in_bucket_def select_one_None is_key_row_def)
    then have "map (\<lambda>r. if is_key_row b key r then recycled now r else r) (objects d) = objects d"
      by (simp add: map_idI)
    then have "objects_update (map (\<lambda>r. if is_key_row b key r then recycled now r else r)) d = d"
      by simp
    then show ?thesis using None by (simp add: soft_delete_object_by_filename_def)
  next
    case (Some r)
    then have r: "r \<in> set (objects d)" "is_key_row b key r"
      by (auto simp: get_object_by_filename_in_bucket_def is_key_row_def dest: select_one_Some)
    have eq: "obj_id x = obj_id r \<longleftrightarrow> is_key_row b key x" if x: "x \<in> set (objects d)" for x
      using r x objects_ok_idD [OF ok x r(1)] active_keyD [OF ok x r(1)] by (auto simp: is_key_row_def)
    have "objects_update (update_where (\<lambda>x. obj_id x = obj_id r) (recycled now)) d
        = objects_update (map (\<lambda>r. if is_key_row b key r then recycled now r else r)) d"
      by (rule objects_update_cong) (simp add: update_where_def eq)
    then show ?thesis
      using Some by (simp add: soft_delete_object_by_filename_def soft_delete_rows_def recycled_def [abs_def])
  qed
qed

lemma recycled_simps [simp]:
  "obj_id (recycled now r) = obj_id r" "filepath (recycled now r) = filepath r"
  "obj_bucket_id (recycled now r) = obj_bucket_id r" "original_filename (recycled now r) = original_filename r"
  "filesize_bytes (recycled now r) = filesize_bytes r" "etag (recycled now r) = etag r"
  "\<not> obj_active (recycled now r)"
  by (simp_all add: recycled_def obj_active_def)

lemma insert_object_row_fresh:
  assumes "filepath r \<notin> filepath ` set (objects d)" "obj_bucket_id r \<in> bucket_id ` set (buckets d)"
    and "\<forall>x \<in> set (objects d). \<not> is_key_row (obj_bucket_id r) (original_filename r) x"
  shows "insert_object_row r d = (Inr (next_object_id d),
    objects_update (\<lambda>rows. rows @ [r\<lparr>obj_id := next_object_id d\<rparr>]) (next_object_id_update (\<lambda>i. i + 1) d))"
proof -
  have "\<not> (\<exists>x \<in> set (objects d). filepath x = filepath r)" using assms(1) by (metis image_eqI)
  moreover have "\<not> (obj_active r \<and> (\<exists>x \<in> set (objects d). obj_active x \<and> obj_bucket_id x = obj_bucket_id r
      \<and> original_filename x = original_filename r))" using assms(3) by (auto simp: is_key_row_def)
  ultimately show ?thesis
    unfolding insert_object_row_def using assms(2) by (simp only: if_False simp_thms)
qed

text \<open>The row and the state an accepted upload leads to.\<close>

definition new_row :: "lib \<Rightarrow> string \<Rightarrow> string \<Rightarrow> headers \<Rightarrow> string \<Rightarrow> int \<Rightarrow> time \<Rightarrow> node \<Rightarrow> object_record" where
  "new_row L uuid key hs bytes b now n =
     (let fmt = extension_from_filename (lib_lower L) key;
          etype = resolve_etag_type L hs (case bucket_etag_type_of b (node_db n) of Inr t \<Rightarrow> t | Inl _ \<Rightarrow> Md5) in
      \<lparr>obj_id = next_object_id (node_db n), original_filename = key, filepath = relative_filepath uuid fmt,
       file_format = fmt, filesize_bytes = int (length bytes), obj_etag_type = etype,
       etag = blob_hash (lib_digest L) (lib_xof L) etype bytes, date_uploaded = now, date_modified = now,
       obj_bucket_id = b, deleted_at = None\<rparr>)"

definition previous_size :: "string \<Rightarrow> int \<Rightarrow> db \<Rightarrow> int" where
  "previous_size key b d =
     (case get_object_by_filename_in_bucket key b d of Some r \<Rightarrow> filesize_bytes r | None \<Rightarrow> 0)"

lemma quota_error:
  "check_hard_quota b g d = Inl e \<Longrightarrow> err_has e ''quota exceeded''"
proof -
  have "check_rows pr u g rows = Inl e \<Longrightarrow> err_has e ''quota exceeded''" for pr u rows
  proof (induction rows)
    case (Cons row rows)
    have "quota_exceeded_msg row u g = ''quota exceeded'' @ (drop 14 (quota_exceeded_msg row u g))"
      by (simp add: quota_exceeded_msg_def)
    then have "contains (quota_exceeded_msg row u g) ''quota exceeded''" by (metis contains_prefix)
    then show ?case using Cons by (auto simp: err_has_def split: if_split_asm)
  qed simp
  then show "check_hard_quota b g d = Inl e \<Longrightarrow> ?thesis"
    by (auto simp: check_hard_quota_def Let_def split: if_split_asm)
qed

definition put_db :: "object_record \<Rightarrow> string \<Rightarrow> int \<Rightarrow> time \<Rightarrow> db \<Rightarrow> db" where
  "put_db row key b now d = next_object_id_update (\<lambda>i. i + 1)
     (objects_update (\<lambda>rows. map (\<lambda>r. if is_key_row b key r then recycled now r else r) rows @ [row]) d)"

lemma put_db_simps [simp]:
  "objects (put_db row key b now d) = map (\<lambda>r. if is_key_row b key r then recycled now r else r) (objects d) @ [row]"
  "buckets (put_db row key b now d) = buckets d" "peers (put_db row key b now d) = peers d"
  "repl_peers (put_db row key b now d) = repl_peers d" "outbox (put_db row key b now d) = outbox d"
  by (simp_all add: put_db_def)

lemma not_key_recycled [simp]: "\<not> is_key_row b key (recycled now r)"
  by (simp add: is_key_row_def)

lemma insert_after_recycle:
  assumes fresh: "filepath row \<notin> filepath ` set (objects (node_db n))" and b: "b \<in> bucket_id ` set (buckets (node_db n))"
    and row: "row = new_row L uuid key hs bytes b now n"
  shows "insert_object_tx key (filepath row) (file_format row) (filesize_bytes row) (obj_etag_type row)
      (etag row) b now (objects_update (map (\<lambda>r. if is_key_row b key r then recycled now r else r)) (node_db n))
    = (Inr (obj_id row), put_db row key b now (node_db n))"
proof -
  have i: "obj_id row = next_object_id (node_db n)" unfolding row new_row_def Let_def by simp
  define r0 where "r0 = \<lparr>obj_id = 0, original_filename = key, filepath = filepath row, file_format = file_format row,
      filesize_bytes = filesize_bytes row, obj_etag_type = obj_etag_type row, etag = etag row,
      date_uploaded = now, date_modified = now, obj_bucket_id = b, deleted_at = None\<rparr>"
  define d1 where "d1 = objects_update (map (\<lambda>r. if is_key_row b key r then recycled now r else r)) (node_db n)"
  have d1: "objects d1 = map (\<lambda>r. if is_key_row b key r then recycled now r else r) (objects (node_db n))"
    "buckets d1 = buckets (node_db n)" "next_object_id d1 = next_object_id (node_db n)" by (simp_all add: d1_def)
  have r0: "filepath r0 = filepath row" "obj_bucket_id r0 = b" "original_filename r0 = key" by (simp_all add: r0_def)
  have mk: "r0\<lparr>obj_id := next_object_id (node_db n)\<rparr> = row"
    unfolding row new_row_def Let_def r0_def by simp
  have free: "\<forall>x \<in> set (objects d1). \<not> is_key_row (obj_bucket_id r0) (original_filename r0) x"
  proof
    fix x assume "x \<in> set (objects d1)"
    then obtain r where "x = (if is_key_row b key r then recycled now r else r)" unfolding d1 set_map by blast
    then show "\<not> is_key_row (obj_bucket_id r0) (original_filename r0) x"
      unfolding r0 by (cases "is_key_row b key r") (simp_all add: is_key_row_def)
  qed
  have "map filepath (objects d1) = map filepath (objects (node_db n))" unfolding d1 by simp
  then have "filepath ` set (objects d1) = filepath ` set (objects (node_db n))" by (metis set_map)
  then have path: "filepath r0 \<notin> filepath ` set (objects d1)" using fresh r0(1) by simp
  have bk: "obj_bucket_id r0 \<in> bucket_id ` set (buckets d1)" using b by (simp add: r0 d1)
  have "objects_update (\<lambda>rows. rows @ [row]) (next_object_id_update (\<lambda>i. i + 1) d1) = put_db row key b now (node_db n)"
    unfolding d1_def put_db_def by (cases "node_db n") simp
  then show ?thesis
    using insert_object_row_fresh [OF path bk free]
    unfolding insert_object_tx_def i d1_def [symmetric] r0_def [symmetric] mk d1(3) by simp
qed

lemma put_db_ok:
  assumes "db_ok (node_db n)" "filepath row \<notin> filepath ` set (objects (node_db n))"
    "b \<in> bucket_id ` set (buckets (node_db n))" "row = new_row L uuid key hs bytes b now n"
  shows "db_ok (put_db row key b now (node_db n))"
proof -
  have "db_ok (objects_update (map (\<lambda>r. if is_key_row b key r then recycled now r else r)) (node_db n))"
    using soft_delete_ops_ok(1) [OF surjective_pairing assms(1), of key "Some b" now] soft_delete_by_key [OF assms(1)] by simp
  then show ?thesis
    using insert_after_recycle [OF assms(2-4)] unfolding insert_object_tx_def by (rule insert_object_row_ok [rotated])
qed

lemma put_object_cases:
  fixes L :: lib and n :: node
  defines "d \<equiv> node_db n"
  assumes ok: "db_ok d" and b: "b \<in> bucket_id ` set (buckets d)"
    and fresh: "filepath row \<notin> filepath ` set (objects d)"
    and row: "row = new_row L uuid key hs (concat cs) b now n"
  shows "put_object_keyed_in_bucket L uuid key hs (map Inr cs) (Some b) now n =
    (let f = fs_write (absolute_path_for (node_engine n) (filepath row)) (concat cs) (node_fs n) in
     case check_hard_quota b (saturating_sub (filesize_bytes row) (previous_size key b d)) d of
       Inl e \<Rightarrow> (text_response 413 (err_msg e), n\<lparr>node_fs := unlink (node_engine n) (filepath row) f\<rparr>)
     | Inr _ \<Rightarrow>
         (etag_response L 200 (etag row) (obj_etag_type row),
          n\<lparr>node_db := snd (enqueue_for_active_peers Put (obj_id row) (filepath row) (etag row) (node_id n) now
                (put_db row key b now d)),
            node_fs := f,
            node_events := node_events n @ [BytesUploaded (nat (filesize_bytes row)),
              ObjectCreated key (filesize_bytes row)]\<rparr>))"
proof -
  obtain x where x: "get_bucket_by_id b d = Some x"
    using b unfolding get_bucket_by_id_def using bkt_tbl.row_None by (metis not_Some_eq)
  have et: "bucket_etag_type_of b (node_db n) = Inr (bucket_etag_type x)"
    using x by (simp add: bucket_etag_type_of_def d_def)
  have r: "filepath row = relative_filepath uuid (extension_from_filename (lib_lower L) key)"
    "filesize_bytes row = int (length (concat cs))" "obj_bucket_id row = b" "deleted_at row = None"
    "original_filename row = key" "obj_id row = next_object_id d"
    "obj_etag_type row = resolve_etag_type L hs (bucket_etag_type x)"
    "file_format row = extension_from_filename (lib_lower L) key"
    "etag row = blob_hash (lib_digest L) (lib_xof L) (resolve_etag_type L hs (bucket_etag_type x)) (concat cs)"
    unfolding row new_row_def Let_def et d_def by simp_all
  note ins = insert_after_recycle [OF fresh [unfolded d_def] b [unfolded d_def] row, folded d_def]
  define f where "f = fs_write (absolute_path_for (node_engine n) (filepath row)) (concat cs) (node_fs n)"
  have pc: "put_chunks (lib_digest L) (lib_xof L) (lib_lower L) (node_engine n) uuid (map Inr cs) key
      (resolve_etag_type L hs (bucket_etag_type x)) None None (node_fs n)
    = (Inr \<lparr>so_filepath = filepath row, so_file_format = file_format row,
         so_absolute_path = absolute_path_for (node_engine n) (filepath row),
         so_filesize_bytes = filesize_bytes row, so_etag = etag row, so_etag_type = obj_etag_type row\<rparr>, f)"
    unfolding put_chunks_stream Let_def f_def r by simp
  note run = et pc soft_delete_by_key [OF ok, unfolded d_def] ins [unfolded d_def]
  show ?thesis
  proof (cases "check_hard_quota b (saturating_sub (filesize_bytes row) (previous_size key b d)) d")
    case (Inl e)
    then have q: "check_hard_quota b (saturating_sub (filesize_bytes row)
        (case get_object_by_filename_in_bucket key b (node_db n) of None \<Rightarrow> 0 | Some r \<Rightarrow> filesize_bytes r)) (node_db n) = Inl e"
      by (simp add: previous_size_def d_def)
    show ?thesis
      unfolding Let_def Inl f_def [symmetric]
      by (simp add: put_object_keyed_in_bucket_def Let_def et pc q quota_error [OF q])
  next
    case (Inr u)
    then have q: "check_hard_quota b (saturating_sub (filesize_bytes row)
        (case get_object_by_filename_in_bucket key b (node_db n) of None \<Rightarrow> 0 | Some r \<Rightarrow> filesize_bytes r)) (node_db n) = Inr ()"
      by (simp add: previous_size_def d_def)
    show ?thesis
      unfolding Let_def Inr f_def [symmetric]
      by (simp add: put_object_keyed_in_bucket_def Let_def run q enqueue_put_for_active_peers_def d_def)
  qed
qed

lemma put_object_db_ok:
  assumes "db_ok (node_db n)"
  shows "db_ok (node_db (snd (put_object_keyed_in_bucket L uuid key hs body bk now n)))"
proof -
  let ?b = "case bk of Some b \<Rightarrow> Inr b | None \<Rightarrow> default_bucket_id (node_db n)"
  have sd: "db_ok (snd (soft_delete_object_by_filename key (Some b) now (node_db n)))" for b
    by (rule soft_delete_ops_ok(1) [OF surjective_pairing assms])
  have ins: "db_ok d2" if "insert_object_tx key fp fmt sz et tag b now
      (snd (soft_delete_object_by_filename key (Some b) now (node_db n))) = (x, d2)" for fp fmt sz et tag b x d2
    using insert_object_row_ok [OF that [unfolded insert_object_tx_def] sd] .
  have enq: "db_ok (snd (enqueue_put_for_active_peers i fp tag nd now d2))" if "db_ok d2" for i fp tag nd d2
    unfolding enqueue_put_for_active_peers_def by (rule enqueue_ok [OF surjective_pairing that])
  show ?thesis
    unfolding put_object_keyed_in_bucket_def Let_def
    by (simp split: sum.split prod.split add: assms sd, intro allI impI enq, drule (1) ins)
qed

section \<open>The requests of the S3 router\<close>

datatype s3_request = S3Put string string headers stream | S3Get string | S3Delete string | S3List

fun s3_serve :: "lib \<Rightarrow> time \<Rightarrow> s3_request \<Rightarrow> node \<Rightarrow> response \<times> node" where
  "s3_serve L now (S3Put uuid raw hs items) n = put_object L uuid raw hs items now n"
| "s3_serve L now (S3Get raw) n = get_object L raw n"
| "s3_serve L now (S3Delete raw) n = delete_object_route raw now n"
| "s3_serve L now S3List n = (list_objects_xml L n, n)"

text \<open>The bytes of a row's blob, if it is there.\<close>

definition row_blob :: "node \<Rightarrow> object_record \<Rightarrow> string option" where
  "row_blob n r = fs_read (absolute_path_for (node_engine n) (filepath r)) (node_fs n)"

lemma default_bucket_ok:
  assumes "db_ok d"
  obtains b where "default_bucket_id d = Inr b" "b \<in> bucket_id ` set (buckets d)"
proof -
  have "''storage'' \<in> bucket_name ` set (buckets d)" using assms by (simp add: db_ok_def seed_ok_def)
  then obtain y where y: "''storage'' = bucket_name y" "y \<in> set (buckets d)" by (rule imageE)
  from select_one_ex [where P = "\<lambda>x. bucket_name x = ''storage''", OF y(2) y(1) [symmetric]]
  obtain x where "get_bucket_by_name ''storage'' d = Some x" unfolding get_bucket_by_name_def row_by_def by blast
  moreover from this have "x \<in> set (buckets d)"
    unfolding get_bucket_by_name_def row_by_def by (blast dest: select_one_Some)
  ultimately show thesis using that [of "bucket_id x"] by (simp add: default_bucket_id_def)
qed

lemma enqueue_snd_frame [simp]:
  "buckets (snd (enqueue_for_active_peers opn i fp tag loc now d)) = buckets d"
  "peers (snd (enqueue_for_active_peers opn i fp tag loc now d)) = peers d"
  "objects (snd (enqueue_for_active_peers opn i fp tag loc now d)) = objects d"
  using enqueue_frame [OF surjective_pairing, of opn i fp tag loc now d] by simp_all

lemma put_object_default:
  "default_bucket_id (node_db n) = Inr b \<Longrightarrow>
    put_object_keyed L uuid key hs body now n = put_object_keyed_in_bucket L uuid key hs body (Some b) now n"
  by (simp add: put_object_keyed_def put_object_keyed_in_bucket_def)

definition toy_lib :: lib where
  "toy_lib = \<lparr>lib_digest = toy_digest, lib_xof = toy_xof, lib_lower = ascii_lower,
     lib_mime = (\<lambda>_. ''application/octet-stream''), lib_rfc3339 = show_int,
     lib_to_str = Some, lib_header_value = Some\<rparr>"

lemma in_bucket_find: "get_object_by_filename_in_bucket key b d = find (is_key_row b key) (objects d)"
proof -
  have "is_key_row b key = (\<lambda>r. original_filename r = key \<and> obj_bucket_id r = b \<and> obj_active r)"
    by (auto simp: is_key_row_def fun_eq_iff)
  then show ?thesis by (simp add: get_object_by_filename_in_bucket_def select_one_def)
qed

lemma find_recycled: "find (is_key_row b key) (map (\<lambda>x. if is_key_row b key x then recycled now x else x) xs) = None"
  by (induction xs) simp_all

text \<open>An upload that passes the quota replaces the object of its key: the previous version goes to the
  recycle bin, every other row stays, the new row is found under the key with the size and the hash of the
  bytes, its blob is the bytes sent, and one PUT job waits for each peer that should have the bucket. One
  that does not pass is answered 413 and leaves neither row nor blob.\<close>

theorem put_object_replaces:
  assumes ok: "db_ok (node_db n)" and b: "b \<in> bucket_id ` set (buckets (node_db n))"
    and fp: "fp = relative_filepath uuid (extension_from_filename (lib_lower L) key)"
    and fresh: "fp \<notin> filepath ` set (objects (node_db n))"
    and run: "put_object_keyed_in_bucket L uuid key hs (map Inr cs) (Some b) now n = (r, n')"
  shows "if check_hard_quota b (saturating_sub (int (length (concat cs))) (previous_size key b (node_db n))) (node_db n) \<noteq> Inr ()
    then rs_status r = 413 \<and> node_db n' = node_db n
      \<and> (\<forall>p. fs_read p (node_fs n') = (if p = absolute_path_for (node_engine n) fp then None else fs_read p (node_fs n)))
    else rs_status r = 200
      \<and> (\<exists>row. objects (node_db n') = map (\<lambda>x. if is_key_row b key x then recycled now x else x) (objects (node_db n)) @ [row]
          \<and> get_object_by_filename_in_bucket key b (node_db n') = Some row \<and> filepath row = fp
          \<and> filesize_bytes row = int (length (concat cs))
          \<and> etag row = blob_hash (lib_digest L) (lib_xof L) (obj_etag_type row) (concat cs))
      \<and> (\<forall>p. fs_read p (node_fs n') = (if p = absolute_path_for (node_engine n) fp then Some (concat cs) else fs_read p (node_fs n)))
      \<and> (\<exists>js. outbox (node_db n') = outbox (node_db n) @ js
          \<and> map job_peer_id js = map peer_id (filter (is_target b (node_id n) (node_db n)) (peers (node_db n)))
          \<and> list_all (\<lambda>j. job_filepath_uuid j = fp \<and> job_operation j = Put \<and> job_status j = Pending) js)"
proof -
  define row where "row = new_row L uuid key hs (concat cs) b now n"
  have row: "filepath row = fp" "filesize_bytes row = int (length (concat cs))" "obj_id row = next_object_id (node_db n)"
    "etag row = blob_hash (lib_digest L) (lib_xof L) (obj_etag_type row) (concat cs)" "obj_bucket_id row = b"
    "is_key_row b key row"
    unfolding row_def new_row_def Let_def fp by (simp_all add: is_key_row_def obj_active_def)
  have new: "filepath row \<notin> filepath ` set (objects (node_db n))" using fresh row(1) by simp
  note out = run [unfolded put_object_cases [OF ok b new row_def] Let_def row(2)]
  show ?thesis
  proof (cases "check_hard_quota b (saturating_sub (int (length (concat cs))) (previous_size key b (node_db n))) (node_db n)")
    case (Inl e)
    then show ?thesis using out by (auto simp: text_response_def unlink_def row(1))
  next
    case (Inr u)
    define d2 where "d2 = put_db row key b now (node_db n)"
    have ok2: "db_ok d2" unfolding d2_def by (rule put_db_ok [OF ok new b row_def])
    have objs: "objects d2 = map (\<lambda>x. if is_key_row b key x then recycled now x else x) (objects (node_db n)) @ [row]"
      by (simp add: d2_def)
    have row_d2: "row \<in> set (objects d2)" by (simp add: objs)
    then have got: "get_object_by_id (obj_id row) d2 = Some row"
      using ok2 unfolding get_object_by_id_def by (intro obj_tbl.row_of_mem) (simp_all add: db_ok_def objects_ok_def)
    obtain k d3 where enq: "enqueue_for_active_peers Put (obj_id row) fp (etag row) (node_id n) now d2 = (k, d3)" by force
    have out: "r = etag_response L 200 (etag row) (obj_etag_type row)" "node_db n' = d3"
      "node_fs n' = fs_write (absolute_path_for (node_engine n) fp) (concat cs) (node_fs n)"
      using out Inr enq unfolding d2_def row(1) by auto
    note fr = enqueue_frame [OF enq]
    have "get_object_by_filename_in_bucket key b d3 = Some row"
      unfolding in_bucket_find fr(4) objs by (simp add: find_append find_recycled row(6))
    moreover have "filter (is_target (obj_bucket_id row) (node_id n) d2) (peers d2)
        = filter (is_target b (node_id n) (node_db n)) (peers (node_db n))"
    proof -
      have "is_target b (node_id n) d2 = is_target b (node_id n) (node_db n)"
        by (rule ext, rule is_target_frame) (simp_all add: d2_def)
      then show ?thesis by (simp add: row(5) d2_def)
    qed
    ultimately show ?thesis
      using enqueue_jobs [OF ok2 got enq] Inr out fr(4) objs row
      by (auto simp: etag_response_def list_all_iff d2_def)
  qed
qed

theorem put_object_replaces_witness:
  "\<exists>r n'. put_object_keyed_in_bucket toy_lib ''u1'' ''a/x.txt'' [] [Inr ''he'', Inr ''llo''] (Some 1) 5
      (demo_node ''n1'' (initial_db 0) []) = (r, n') \<and> rs_status r = 200
    \<and> fs_read ''/data/objects/u1.txt'' (node_fs n') = Some ''hello''"
proof -
  let ?n = "demo_node ''n1'' (initial_db 0) []"
  let ?fp = "''objects/u1.txt''"
  obtain r n' where run: "put_object_keyed_in_bucket toy_lib ''u1'' ''a/x.txt'' [] (map Inr [''he'', ''llo'']) (Some 1) 5 ?n = (r, n')"
    by force
  have pre: "db_ok (node_db ?n)" "1 \<in> bucket_id ` set (buckets (node_db ?n))"
    "?fp = relative_filepath ''u1'' (extension_from_filename (lib_lower toy_lib) ''a/x.txt'')"
    "?fp \<notin> filepath ` set (objects (node_db ?n))" by code_simp+
  have q: "check_hard_quota 1 (saturating_sub (int (length (concat [''he'', ''llo'']))) (previous_size ''a/x.txt'' 1 (node_db ?n))) (node_db ?n) = Inr ()"
    "absolute_path_for (node_engine ?n) ?fp = ''/data/objects/u1.txt''" "concat [''he'', ''llo''] = ''hello''" by code_simp+
  have "rs_status r = 200 \<and> fs_read ''/data/objects/u1.txt'' (node_fs n') = Some ''hello''"
    using put_object_replaces [OF pre run] q by simp
  then show ?thesis using run by auto
qed

section \<open>Range requests\<close>

text \<open>The three forms of a single byte range, how a client writes them, and the bytes they mean.\<close>

datatype byte_range = FromTo nat nat | From nat | Last nat

fun show_range :: "byte_range \<Rightarrow> string" where
  "show_range (FromTo a b) = ''bytes='' @ show_nat a @ ''-'' @ show_nat b"
| "show_range (From a) = ''bytes='' @ show_nat a @ ''-''"
| "show_range (Last k) = ''bytes=-'' @ show_nat k"

fun slice :: "byte_range \<Rightarrow> string \<Rightarrow> string option" where
  "slice (FromTo a b) bs = (if a < length bs \<and> a \<le> b then Some (take (b - a + 1) (drop a bs)) else None)"
| "slice (From a) bs = (if a < length bs then Some (drop a bs) else None)"
| "slice (Last k) bs = (if 0 < k then Some (drop (length bs - k) bs) else None)"

fun range_fits :: "byte_range \<Rightarrow> bool" where
  "range_fits (FromTo a b) \<longleftrightarrow> int a \<le> U64_MAX \<and> int b \<le> U64_MAX"
| "range_fits (From a) \<longleftrightarrow> int a \<le> U64_MAX"
| "range_fits (Last k) \<longleftrightarrow> int k \<le> U64_MAX"

lemma digit_plain: "is_ascii_digit c \<Longrightarrow> plain_char c \<and> c \<noteq> CHR '','' \<and> c \<noteq> CHR ''-''"
  by (auto simp: is_ascii_digit_def plain_char_def Let_def)

lemma show_nat_chars: "c \<in> set (show_nat n) \<Longrightarrow> plain_char c \<and> c \<noteq> CHR '','' \<and> c \<noteq> CHR ''-''"
  using show_nat_digits [of n] digit_plain by (auto simp: list_all_iff)

text \<open>Parsing a header of the shape \<open>bytes=u\<close> comes down to parsing \<open>u\<close>.\<close>

lemma parse_bytes_range_unit:
  assumes "\<forall>c \<in> set u. plain_char c \<and> c \<noteq> CHR '',''"
  shows "parse_bytes_range (''bytes='' @ u) len = (if len = 0 then None
      else (case strip_prefix u ''-'' of
              Some k_s \<Rightarrow> (case parse_u64 k_s of None \<Rightarrow> None
                 | Some k \<Rightarrow> if k = 0 then None else Some (len - min k len, len - 1))
            | None \<Rightarrow> (case split_once (CHR ''-'') u of None \<Rightarrow> None
                 | Some (a_s, e_s) \<Rightarrow> (case parse_u64 a_s of None \<Rightarrow> None
                     | Some a \<Rightarrow> if a \<ge> len then None
                        else (case (if e_s = [] then Some (len - 1) else map_option (\<lambda>e. min e (len - 1)) (parse_u64 e_s)) of
                                None \<Rightarrow> None | Some e \<Rightarrow> if e < a then None else Some (a, e))))))"
proof -
  have "list_all plain_char ''bytes=''" by code_simp
  then have "plain_char c" if "c \<in> set (''bytes='' @ u)" for c
    using that assms unfolding list_all_iff set_append by blast
  then have "trim (''bytes='' @ u) = ''bytes='' @ u" by (rule trim_all_plain)
  moreover have "trim u = u" using assms by (intro trim_all_plain) blast
  moreover have "split_on (CHR '','') u = [u]" using assms by (intro split_on_single) blast
  moreover have "strip_prefix (''bytes='' @ u) ''bytes='' = Some u" by (rule strip_prefix_append)
  ultimately show ?thesis unfolding parse_bytes_range_def by simp
qed

lemma parse_show_range:
  assumes "range_fits rg" and "len > 0"
  shows "parse_bytes_range (show_range rg) (int len) =
    (case rg of
       FromTo a b \<Rightarrow> if a < len \<and> a \<le> b then Some (int a, min (int b) (int len - 1)) else None
     | From a \<Rightarrow> if a < len then Some (int a, int len - 1) else None
     | Last k \<Rightarrow> if 0 < k then Some (int (len - k), int len - 1) else None)"
proof (cases rg)
  case (FromTo a b)
  have ch: "\<forall>c \<in> set (show_nat a @ ''-'' @ show_nat b). plain_char c \<and> c \<noteq> CHR '',''"
    using show_nat_chars by (auto simp: plain_char_def)
  have "strip_prefix (show_nat a @ ''-'' @ show_nat b) ''-'' = None"
    using show_nat_hd [of a] by (auto simp: strip_prefix_def starts_with_def)
  moreover have "split_once (CHR ''-'') (show_nat a @ ''-'' @ show_nat b) = Some (show_nat a, show_nat b)"
    using show_nat_chars [of _ a] by (auto simp: split_once_Some)
  ultimately show ?thesis
    using assms parse_bytes_range_unit [OF ch, where len = "int len"] unfolding FromTo
    by (auto simp: parse_u64_show_nat min_def split: if_split_asm)
next
  case (From a)
  have ch: "\<forall>c \<in> set (show_nat a @ ''-''). plain_char c \<and> c \<noteq> CHR '',''"
    using show_nat_chars by (auto simp: plain_char_def)
  have "strip_prefix (show_nat a @ ''-'') ''-'' = None"
    using show_nat_hd [of a] by (auto simp: strip_prefix_def starts_with_def)
  moreover have "split_once (CHR ''-'') (show_nat a @ ''-'') = Some (show_nat a, [])"
    using show_nat_chars [of _ a] by (auto simp: split_once_Some)
  ultimately show ?thesis
    using assms parse_bytes_range_unit [OF ch, where len = "int len"] unfolding From
    by (simp add: parse_u64_show_nat)
next
  case (Last k)
  have ch: "\<forall>c \<in> set (''-'' @ show_nat k). plain_char c \<and> c \<noteq> CHR '',''"
    using show_nat_chars by (auto simp: plain_char_def)
  have "show_range (Last k) = ''bytes='' @ (''-'' @ show_nat k)" by simp
  moreover have "strip_prefix (''-'' @ show_nat k) ''-'' = Some (show_nat k)" by (rule strip_prefix_append)
  ultimately show ?thesis
    using assms parse_bytes_range_unit [OF ch, where len = "int len"] unfolding Last
    by (auto simp: parse_u64_show_nat min_def)
qed

text \<open>C25: A download of an object with a range header, in any of the three forms of a single byte range: an empty
  object is answered 200 with its (no) bytes whatever the range says; otherwise the answer is 206 with exactly the bytes
  the range means, bounds past the end cut off, and 416 when the range begins past the end, ends before it begins or
  asks for the last 0 bytes. The blob is assumed present, with the size its row tells.\<close>

theorem get_range_exact:
  assumes "get_object_by_filename key (node_db n) = Some x" and "row_blob n x = Some bs"
    and "int (length bs) = filesize_bytes x"
    and "header_get ''range'' hs = Some v" and "lib_to_str L v = Some (show_range rg)" and "range_fits rg"
  shows "let r = fst (get_object_keyed_with_headers L key hs n) in
    if bs = [] then rs_status r = 200 \<and> rs_body r = []
    else (case slice rg bs of Some part \<Rightarrow> rs_status r = 206 \<and> rs_body r = part | None \<Rightarrow> rs_status r = 416)"
proof -
  have len: "max (filesize_bytes x) 0 = int (length bs)" using assms(3) by simp
  have op: "open_read (node_engine n) (filepath x) (node_fs n) = Inr bs"
    using assms(2) by (simp add: open_read_def row_blob_def)
  have width: "nat (int b - int a + 1) = b - a + 1" if "a \<le> b" for a b :: nat
    using that by simp
  show ?thesis
  proof (cases "bs = []")
    case True
    have "parse_bytes_range w 0 = None" for w by (simp add: parse_bytes_range_def Let_def split: option.split)
    then show ?thesis using True len op assms(1,4,5) by (simp add: get_object_keyed_with_headers_def Let_def)
  next
    case False
    then have l: "0 < length bs" by simp
    show ?thesis
      using l parse_show_range [OF assms(6) l]
      by (cases rg) (auto simp: get_object_keyed_with_headers_def assms(1,4,5) len op Let_def min_def
          take_all_iff width split: if_split_asm)
  qed
qed

theorem get_range_exact_witness:
  "let n = demo_node ''n1'' (initial_db 0\<lparr>objects := [(demo_object 1 ''a/x'' 1 None)\<lparr>filesize_bytes := 5\<rparr>]\<rparr>)
      [(''/data/objects/1.bin'', ''hello'')];
     r = fst (get_object_keyed_with_headers toy_lib ''a/x'' [(''range'', ''bytes=1-3'')] n) in
   rs_status r = 206 \<and> rs_body r = ''ell''"
proof -
  let ?x = "(demo_object 1 ''a/x'' 1 None)\<lparr>filesize_bytes := 5\<rparr>"
  let ?n = "demo_node ''n1'' (initial_db 0\<lparr>objects := [?x]\<rparr>) [(''/data/objects/1.bin'', ''hello'')]"
  have "get_object_by_filename ''a/x'' (node_db ?n) = Some ?x" "row_blob ?n ?x = Some ''hello''"
    "int (length ''hello'') = filesize_bytes ?x"
    "header_get ''range'' [(''range'', ''bytes=1-3'')] = Some ''bytes=1-3''"
    "lib_to_str toy_lib ''bytes=1-3'' = Some (show_range (FromTo 1 3))" "range_fits (FromTo 1 3)" by code_simp+
  from get_range_exact [OF this] show ?thesis by (simp add: Let_def)
qed

end
