(* ===== verification/Api.thy ===== *)
theory Api
  imports Effects Storage_Routes Serving
begin

text \<open>
  The HTTP interface as a whole: the routers of \<open>src/server\<close> as a table of calls with their methods and paths,
  the dispatch of a call to its handler behind the session extractor, and the calls that need no session. Then what
  each call may write, as a function of the account's permissions, and that no call writes anything else.
\<close>

section \<open>What a call carries\<close>

text \<open>
  The handlers' libraries and what they read of the machine: the state of the overlay, socket addresses as text,
  the working directory, the archive and picture encoders, the password hash, the embedded files, and which files
  refuse to be removed.
\<close>

record ('a, 'h) env =
  env_app :: "'a app"
  env_wg :: wg_status
  env_addr_text :: "'a \<Rightarrow> string"
  env_addr_port :: "'a \<Rightarrow> int"
  env_cwd :: "path option"
  env_archiver :: archiver
  env_pid :: nat
  env_qr :: qr_lib
  env_argon :: "string \<Rightarrow> string \<Rightarrow> string + string"
  env_phc :: "string \<Rightarrow> string + 'h"
  env_argon_verify :: "string \<Rightarrow> 'h \<Rightarrow> bool"
  env_asset :: "string \<Rightarrow> string option"
  env_lossy :: "string \<Rightarrow> string"
  env_stuck :: "string \<Rightarrow> bool"

text \<open>
  The calls behind the session extractor, grouped as the routers are, one constructor for each handler, with its
  path, query and body. Random bytes a handler draws (a file name, a salt, passwords, share codes) come with the call.
\<close>

datatype bucket_call =
  ListBuckets | CreateBucket string | PatchBucket int "string option" "int option" | DeleteBucket int
  | GetReplication int | PutReplication int bool "string list" | ListNodes int
  | AddNode int "string option" "string option" f64 "quota_mode option"
  | PatchNode int string "f64 option" "quota_mode option" | DeleteNode int string
  | PutEtag int etag_type string

datatype admin_call =
  ListAccounts | CreateAccount string string string "string option" "int list option" | AccountDirectory
  | PatchAccount int "string option" "bool option" | DeleteAccount int | RegeneratePassword string string int
  | SetRoles int "int list" | ListRoles | CreateRole string "int option"
  | PatchRole int "string option" "int option" | DeleteRole int | GetRolePermissions int
  | PutRolePermissions int "(int \<times> crud_perms) list"

datatype settings_call =
  GetStorageSettings | GetIntegrity | PostReconcile | GetRecycleSettings
  | PutRecycleSettings int retention_unit

datatype recycle_call =
  ListRecycleBin "string option" | PurgeItems "int list" | PurgeAll "string option" | RestoreItem int
  | HardDelete int

datatype share_call =
  CreateShare "nat \<Rightarrow> nat list \<times> nat list" create_share_body
  | ListShares "string option" string | RevokeShare int

datatype object_call =
  Stats | ListObjects "string option" | ListLevel list_query | DeleteFolder "string option" string
  | RenameFolder "string option" string string | FolderArchive string "string option" string string
  | GetContent string "string option" headers | PutContent string string "string option" headers stream
  | DeleteContent string "string option" | MediaLink "string option" string share_target_kind | ListPeers
  | WgQr "string option"

datatype account_call =
  Bucket bucket_call | Admin admin_call | Settings settings_call | Recycle recycle_call | Share share_call | Object object_call

text \<open>The method and the path of each call, as the three routers give them.\<close>

fun bucket_endpoint :: "bucket_call \<Rightarrow> string \<times> string" where
  "bucket_endpoint ListBuckets = (''GET'', ''/api/v1/buckets'')"
| "bucket_endpoint (CreateBucket _) = (''POST'', ''/api/v1/buckets'')"
| "bucket_endpoint (PatchBucket _ _ _) = (''PATCH'', ''/api/v1/buckets/:id'')"
| "bucket_endpoint (DeleteBucket _) = (''DELETE'', ''/api/v1/buckets/:id'')"
| "bucket_endpoint (GetReplication _) = (''GET'', ''/api/v1/buckets/:id/replication'')"
| "bucket_endpoint (PutReplication _ _ _) = (''PUT'', ''/api/v1/buckets/:id/replication'')"
| "bucket_endpoint (ListNodes _) = (''GET'', ''/api/v1/buckets/:id/nodes'')"
| "bucket_endpoint (AddNode _ _ _ _ _) = (''POST'', ''/api/v1/buckets/:id/nodes'')"
| "bucket_endpoint (PatchNode _ _ _ _) = (''PATCH'', ''/api/v1/buckets/:id/nodes/:node_id'')"
| "bucket_endpoint (DeleteNode _ _) = (''DELETE'', ''/api/v1/buckets/:id/nodes/:node_id'')"
| "bucket_endpoint (PutEtag _ _ _) = (''PUT'', ''/api/v1/buckets/:id/etag'')"

fun admin_endpoint :: "admin_call \<Rightarrow> string \<times> string" where
  "admin_endpoint ListAccounts = (''GET'', ''/api/v1/accounts'')"
| "admin_endpoint (CreateAccount _ _ _ _ _) = (''POST'', ''/api/v1/accounts'')"
| "admin_endpoint AccountDirectory = (''GET'', ''/api/v1/accounts/directory'')"
| "admin_endpoint (PatchAccount _ _ _) = (''PATCH'', ''/api/v1/accounts/:id'')"
| "admin_endpoint (DeleteAccount _) = (''DELETE'', ''/api/v1/accounts/:id'')"
| "admin_endpoint (RegeneratePassword _ _ _) = (''POST'', ''/api/v1/accounts/:id/regenerate-password'')"
| "admin_endpoint (SetRoles _ _) = (''PUT'', ''/api/v1/accounts/:id/roles'')"
| "admin_endpoint ListRoles = (''GET'', ''/api/v1/roles'')"
| "admin_endpoint (CreateRole _ _) = (''POST'', ''/api/v1/roles'')"
| "admin_endpoint (PatchRole _ _ _) = (''PATCH'', ''/api/v1/roles/:id'')"
| "admin_endpoint (DeleteRole _) = (''DELETE'', ''/api/v1/roles/:id'')"
| "admin_endpoint (GetRolePermissions _) = (''GET'', ''/api/v1/roles/:id/permissions'')"
| "admin_endpoint (PutRolePermissions _ _) = (''PUT'', ''/api/v1/roles/:id/permissions'')"

fun settings_endpoint :: "settings_call \<Rightarrow> string \<times> string" where
  "settings_endpoint GetStorageSettings = (''GET'', ''/api/v1/settings/storage'')"
| "settings_endpoint GetIntegrity = (''GET'', ''/api/v1/settings/storage/integrity'')"
| "settings_endpoint PostReconcile = (''POST'', ''/api/v1/settings/storage/integrity/reconcile'')"
| "settings_endpoint GetRecycleSettings = (''GET'', ''/api/v1/settings/recycle'')"
| "settings_endpoint (PutRecycleSettings _ _) = (''PUT'', ''/api/v1/settings/recycle'')"

fun recycle_endpoint :: "recycle_call \<Rightarrow> string \<times> string" where
  "recycle_endpoint (ListRecycleBin _) = (''GET'', ''/api/v1/recycle-bin'')"
| "recycle_endpoint (PurgeItems _) = (''POST'', ''/api/v1/recycle-bin/purge'')"
| "recycle_endpoint (PurgeAll _) = (''POST'', ''/api/v1/recycle-bin/purge-all'')"
| "recycle_endpoint (RestoreItem _) = (''POST'', ''/api/v1/recycle-bin/:id/restore'')"
| "recycle_endpoint (HardDelete _) = (''DELETE'', ''/api/v1/recycle-bin/:id'')"

fun share_endpoint :: "share_call \<Rightarrow> string \<times> string" where
  "share_endpoint (CreateShare _ _) = (''POST'', ''/api/v1/shares'')"
| "share_endpoint (ListShares _ _) = (''GET'', ''/api/v1/shares'')"
| "share_endpoint (RevokeShare _) = (''DELETE'', ''/api/v1/shares/:id'')"

fun object_endpoint :: "object_call \<Rightarrow> string \<times> string" where
  "object_endpoint Stats = (''GET'', ''/api/v1/stats'')"
| "object_endpoint (ListObjects _) = (''GET'', ''/api/v1/objects'')"
| "object_endpoint (ListLevel _) = (''GET'', ''/api/v1/objects/list'')"
| "object_endpoint (DeleteFolder _ _) = (''DELETE'', ''/api/v1/folders'')"
| "object_endpoint (RenameFolder _ _ _) = (''POST'', ''/api/v1/folders/rename'')"
| "object_endpoint (FolderArchive _ _ _ _) = (''GET'', ''/api/v1/folders/archive'')"
| "object_endpoint (GetContent _ _ _) = (''GET'', ''/api/v1/objects/content/*key'')"
| "object_endpoint (PutContent _ _ _ _ _) = (''PUT'', ''/api/v1/objects/*key'')"
| "object_endpoint (DeleteContent _ _) = (''DELETE'', ''/api/v1/objects/*key'')"
| "object_endpoint (MediaLink _ _ _) = (''POST'', ''/api/v1/media-links'')"
| "object_endpoint ListPeers = (''GET'', ''/api/v1/peers'')"
| "object_endpoint (WgQr _) = (''GET'', ''/api/v1/wg/qr'')"

fun account_endpoint :: "account_call \<Rightarrow> string \<times> string" where
  "account_endpoint (Bucket c) = bucket_endpoint c"
| "account_endpoint (Admin c) = admin_endpoint c"
| "account_endpoint (Settings c) = settings_endpoint c"
| "account_endpoint (Recycle c) = recycle_endpoint c"
| "account_endpoint (Share c) = share_endpoint c"
| "account_endpoint (Object c) = object_endpoint c"

section \<open>Dispatch\<close>

text \<open>
  The outcome of a call: the status of its response, the node after it, and the task \<open>run_bucket_rehash\<close> it
  started, if any. The three adapters are for handlers on the database, on the node, and with a plain response.
\<close>

record outcome =
  oc_status :: int
  oc_node :: node
  oc_task :: "(int \<times> etag_type) option"

definition on_db :: "(db \<Rightarrow> 'r reply \<times> db) \<Rightarrow> node \<Rightarrow> outcome" where
  "on_db h n = (case h (node_db n) of (r, d) \<Rightarrow> \<lparr>oc_status = reply_status r, oc_node = n\<lparr>node_db := d\<rparr>, oc_task = None\<rparr>)"

definition on_node :: "(node \<Rightarrow> 'r reply \<times> node) \<Rightarrow> node \<Rightarrow> outcome" where
  "on_node h n = (case h n of (r, n') \<Rightarrow> \<lparr>oc_status = reply_status r, oc_node = n', oc_task = None\<rparr>)"

definition on_resp :: "(node \<Rightarrow> response \<times> node) \<Rightarrow> node \<Rightarrow> outcome" where
  "on_resp h n = (case h n of (r, n') \<Rightarrow> \<lparr>oc_status = rs_status r, oc_node = n', oc_task = None\<rparr>)"

fun run_bucket :: "('a, 'h) env \<Rightarrow> account_record \<Rightarrow> bucket_call \<Rightarrow> time \<Rightarrow> node \<Rightarrow> outcome" where
  "run_bucket E auth ListBuckets now n = on_db (list_buckets_route auth) n"
| "run_bucket E auth (CreateBucket nm) now n = on_db (create_bucket_route (app_config (env_app E)) auth nm now) n"
| "run_bucket E auth (PatchBucket b nm ow) now n = on_db (patch_bucket_route auth b nm ow) n"
| "run_bucket E auth (DeleteBucket b) now n = on_node (delete_bucket_route auth b now) n"
| "run_bucket E auth (GetReplication b) now n = on_db (get_bucket_replication_route auth b) n"
| "run_bucket E auth (PutReplication b all ids) now n =
     on_db (put_bucket_replication_route (app_config (env_app E)) auth b all ids) n"
| "run_bucket E auth (ListNodes b) now n =
     on_db (list_bucket_nodes_route (app_config (env_app E)) (env_cwd E) auth b) n"
| "run_bucket E auth (AddNode b given ep gb mode) now n =
     on_db (add_bucket_node_route (env_addr_text E) (env_addr_port E) (app_config (env_app E)) auth b given ep gb mode) n"
| "run_bucket E auth (PatchNode b i gb mode) now n = on_db (patch_bucket_node_route auth b i gb mode) n"
| "run_bucket E auth (DeleteNode b i) now n = on_db (delete_bucket_node_route (app_config (env_app E)) auth b i) n"
| "run_bucket E auth (PutEtag b et mode) now n =
     (case put_bucket_etag_route auth b et mode (node_db n) of
        ((r, task), d) \<Rightarrow> \<lparr>oc_status = reply_status r, oc_node = n\<lparr>node_db := d\<rparr>, oc_task = task\<rparr>)"

fun run_admin :: "('a, 'h) env \<Rightarrow> account_record \<Rightarrow> admin_call \<Rightarrow> time \<Rightarrow> node \<Rightarrow> outcome" where
  "run_admin E auth ListAccounts now n = on_db (list_accounts_route auth) n"
| "run_admin E auth (CreateAccount salt r16 r32 dname rs) now n =
     on_db (create_account_route (env_argon E) salt r16 r32 auth dname rs now) n"
| "run_admin E auth AccountDirectory now n = on_db (list_account_directory_route auth) n"
| "run_admin E auth (PatchAccount i dname dis) now n = on_db (patch_account_route auth i dname dis now) n"
| "run_admin E auth (DeleteAccount i) now n = on_db (delete_account_route auth i) n"
| "run_admin E auth (RegeneratePassword salt r32 i) now n =
     on_db (regenerate_password_route (env_argon E) salt r32 auth i now) n"
| "run_admin E auth (SetRoles i rs) now n = on_db (set_roles_route auth i rs) n"
| "run_admin E auth ListRoles now n = on_db (list_roles_route auth) n"
| "run_admin E auth (CreateRole nm pos) now n = on_db (create_role_route auth nm pos) n"
| "run_admin E auth (PatchRole i nm pos) now n = on_db (patch_role_route auth i nm pos) n"
| "run_admin E auth (DeleteRole i) now n = on_db (delete_role_route auth i) n"
| "run_admin E auth (GetRolePermissions i) now n = on_db (get_role_permissions_route auth i) n"
| "run_admin E auth (PutRolePermissions i ps) now n = on_db (put_role_permissions_route auth i ps) n"

fun run_settings :: "('a, 'h) env \<Rightarrow> account_record \<Rightarrow> settings_call \<Rightarrow> time \<Rightarrow> node \<Rightarrow> outcome" where
  "run_settings E auth GetStorageSettings now n =
     on_db (get_storage_settings (app_config (env_app E)) (env_cwd E) (node_engine n) (node_fs n) auth) n"
| "run_settings E auth GetIntegrity now n = on_db (get_storage_integrity (node_engine n) (node_fs n) auth) n"
| "run_settings E auth PostReconcile now n = on_node (post_storage_reconcile (env_stuck E) auth) n"
| "run_settings E auth GetRecycleSettings now n = on_db (get_recycle_settings auth) n"
| "run_settings E auth (PutRecycleSettings v u) now n = on_db (put_recycle_settings auth v u) n"

fun run_recycle :: "('a, 'h) env \<Rightarrow> account_record \<Rightarrow> recycle_call \<Rightarrow> time \<Rightarrow> node \<Rightarrow> outcome" where
  "run_recycle E auth (ListRecycleBin bname) now n = on_db (\<lambda>d. (list_recycle_bin auth bname d, d)) n"
| "run_recycle E auth (PurgeItems ids) now n = on_node (purge_recycle_items auth ids now) n"
| "run_recycle E auth (PurgeAll bname) now n = on_node (purge_all_recycle_items auth bname now) n"
| "run_recycle E auth (RestoreItem i) now n = on_db (restore_recycle_item auth i now) n"
| "run_recycle E auth (HardDelete i) now n = on_node (hard_delete_recycle_item auth i now) n"

fun run_share :: "('a, 'h) env \<Rightarrow> account_record \<Rightarrow> share_call \<Rightarrow> time \<Rightarrow> node \<Rightarrow> outcome" where
  "run_share E auth (CreateShare draw body) now n = on_node (create_share_route draw auth body now) n"
| "run_share E auth (ListShares bname key) now n = on_node (list_shares_route auth bname key now) n"
| "run_share E auth (RevokeShare i) now n = on_node (revoke_share_route auth i now) n"

fun run_object :: "('a, 'h) env \<Rightarrow> account_record \<Rightarrow> object_call \<Rightarrow> time \<Rightarrow> node \<Rightarrow> outcome" where
  "run_object E auth Stats now n = on_node (stats_route (env_app E) (env_wg E) auth) n"
| "run_object E auth (ListObjects bname) now n = on_node (objects_route auth bname) n"
| "run_object E auth (ListLevel q) now n = on_node (objects_list_route (env_app E) auth q) n"
| "run_object E auth (DeleteFolder bname pre) now n = on_node (delete_folder_route auth bname pre now) n"
| "run_object E auth (RenameFolder bname f t) now n = on_node (rename_folder_route auth bname f t now) n"
| "run_object E auth (FolderArchive uuid bname pre fmt) now n =
     on_resp (folder_archive_route (env_app E) (env_archiver E) (env_pid E) uuid auth bname pre fmt) n"
| "run_object E auth (GetContent key bname hs) now n = on_resp (web_get_object_content (env_app E) auth key bname hs) n"
| "run_object E auth (PutContent uuid key bname hs body) now n =
     on_resp (web_put_object (env_app E) auth uuid key bname hs body now) n"
| "run_object E auth (DeleteContent key bname) now n = on_resp (web_delete_object auth key bname now) n"
| "run_object E auth (MediaLink bname key kind) now n = on_node (create_media_link (env_app E) auth bname key kind now) n"
| "run_object E auth ListPeers now n = on_node (peers_route auth) n"
| "run_object E auth (WgQr ep) now n = on_node (wg_qr_route (env_app E) (env_addr_text E) (env_qr E) auth ep) n"

fun run_call :: "('a, 'h) env \<Rightarrow> account_record \<Rightarrow> account_call \<Rightarrow> time \<Rightarrow> node \<Rightarrow> outcome" where
  "run_call E auth (Bucket c) now n = run_bucket E auth c now n"
| "run_call E auth (Admin c) now n = run_admin E auth c now n"
| "run_call E auth (Settings c) now n = run_settings E auth c now n"
| "run_call E auth (Recycle c) now n = run_recycle E auth c now n"
| "run_call E auth (Share c) now n = run_share E auth c now n"
| "run_call E auth (Object c) now n = run_object E auth c now n"

text \<open>A request: the session first, then the handler.\<close>

definition serve_account ::
  "('a, 'h) env \<Rightarrow> headers \<Rightarrow> account_call \<Rightarrow> time \<Rightarrow> node \<Rightarrow> outcome" where
  "serve_account E hs call now n =
     (case auth_account (app_lib (env_app E)) hs now (node_db n) of
        (Inl r, d) \<Rightarrow> \<lparr>oc_status = rs_status r, oc_node = n\<lparr>node_db := d\<rparr>, oc_task = None\<rparr>
      | (Inr account, d) \<Rightarrow> run_call E account call now (n\<lparr>node_db := d\<rparr>))"


section \<open>The calls without a session\<close>

text \<open>
  Signing in and out, the routes that serve a share by its token or its short code, media by an access token, and
  the pages of the web interface. The routes of a share use the session when there is one.
\<close>

datatype open_call =
  AuthStatus | Bootstrap string string string string "string option" | Login string string string | Logout
  | ShareMetaByToken string "string option" | ShareMetaByCode string "string option"
  | ShareListByToken string string "string option" | ShareListByCode string string "string option"
  | ShareContentByToken string string "string option" | ShareContentByCode string string "string option"
  | SharePageToken string | SharePageCode string
  | MediaContent string "string option" string | Asset string

fun open_endpoint :: "open_call \<Rightarrow> string \<times> string" where
  "open_endpoint AuthStatus = (''GET'', ''/api/v1/auth/status'')"
| "open_endpoint (Bootstrap _ _ _ _ _) = (''POST'', ''/api/v1/auth/bootstrap'')"
| "open_endpoint (Login _ _ _) = (''POST'', ''/api/v1/auth/login'')"
| "open_endpoint Logout = (''POST'', ''/api/v1/auth/logout'')"
| "open_endpoint (ShareMetaByToken _ _) = (''GET'', ''/api/v1/shares/by-token/:token'')"
| "open_endpoint (ShareMetaByCode _ _) = (''GET'', ''/api/v1/shares/by-code/:code'')"
| "open_endpoint (ShareListByToken _ _ _) = (''GET'', ''/api/v1/shares/by-token/:token/list'')"
| "open_endpoint (ShareListByCode _ _ _) = (''GET'', ''/api/v1/shares/by-code/:code/list'')"
| "open_endpoint (ShareContentByToken _ _ _) = (''GET'', ''/api/v1/shares/by-token/:token/content/*key'')"
| "open_endpoint (ShareContentByCode _ _ _) = (''GET'', ''/api/v1/shares/by-code/:code/content/*key'')"
| "open_endpoint (SharePageToken _) = (''GET'', ''/share/:token'')"
| "open_endpoint (SharePageCode _) = (''GET'', ''/s/:code'')"
| "open_endpoint (MediaContent _ _ _) = (''GET'', ''/api/v1/media/content/*key'')"
| "open_endpoint (Asset p) = (''GET'', p)"

definition with_viewer ::
  "('a, 'h) env \<Rightarrow> headers \<Rightarrow> time \<Rightarrow> (account_record option \<Rightarrow> node \<Rightarrow> response \<times> node) \<Rightarrow> node \<Rightarrow> unit reply \<times> node" where
  "with_viewer E hs now handler =
     with_optional_account (env_app E) hs now (\<lambda>account n. case handler account n of (r, n') \<Rightarrow> (Raw r, n'))"

fun serve_open :: "('a, 'h) env \<Rightarrow> headers \<Rightarrow> open_call \<Rightarrow> time \<Rightarrow> node \<Rightarrow> outcome" where
  "serve_open E hs AuthStatus now n = on_db (auth_status (app_lib (env_app E)) hs now) n"
| "serve_open E hs (Bootstrap salt r16 r32 session_bytes dname) now n =
     on_db (auth_bootstrap (env_argon E) salt r16 r32 session_bytes dname now) n"
| "serve_open E hs (Login session_bytes username password) now n =
     on_db (auth_login (env_phc E) (env_argon_verify E) session_bytes username password now) n"
| "serve_open E hs Logout now n =
     on_resp (\<lambda>n. case auth_logout (app_lib (env_app E)) hs (node_db n) of (r, d) \<Rightarrow> (r, n\<lparr>node_db := d\<rparr>)) n"
| "serve_open E hs (ShareMetaByToken tok access) now n =
     on_node (with_optional_account (env_app E) hs now (\<lambda>account. share_meta_by_token (env_app E) account tok access now)) n"
| "serve_open E hs (ShareMetaByCode code access) now n =
     on_node (with_optional_account (env_app E) hs now (\<lambda>account. share_meta_by_code (env_app E) account code access now)) n"
| "serve_open E hs (ShareListByToken tok pre access) now n =
     on_node (with_optional_account (env_app E) hs now
       (\<lambda>account. share_list_by_token (env_app E) account tok pre access now)) n"
| "serve_open E hs (ShareListByCode code pre access) now n =
     on_node (with_optional_account (env_app E) hs now
       (\<lambda>account. share_list_by_code (env_app E) account code pre access now)) n"
| "serve_open E hs (ShareContentByToken tok key access) now n =
     on_node (with_viewer E hs now (\<lambda>account. share_content_by_token (env_app E) account tok key access hs now)) n"
| "serve_open E hs (ShareContentByCode code key access) now n =
     on_node (with_viewer E hs now (\<lambda>account. share_content_by_code (env_app E) account code key access hs now)) n"
| "serve_open E hs (SharePageToken _) now n = on_resp (\<lambda>n. (serve_share_html (env_asset E) (env_lossy E), n)) n"
| "serve_open E hs (SharePageCode _) now n = on_resp (\<lambda>n. (serve_share_html (env_asset E) (env_lossy E), n)) n"
| "serve_open E hs (MediaContent key bname access) now n =
     on_resp (media_content_by_access (env_app E) key bname access hs now) n"
| "serve_open E hs (Asset p) now n =
     on_resp (\<lambda>n. (static_or_spa (app_lib (env_app E)) (env_asset E) (env_lossy E) p, n)) n"

section \<open>The access matrix\<close>

text \<open>What a call of an account may write, from the roles and grants of the database before it.\<close>

definition may :: "bool \<Rightarrow> table set \<Rightarrow> table set" where
  "may P T = (if P then T else {})"

definition in_bucket :: "string option \<Rightarrow> db \<Rightarrow> (int \<Rightarrow> bool) \<Rightarrow> (int \<Rightarrow> table set) \<Rightarrow> table set" where
  "in_bucket bname d P T =
     (case resolve_bucket_id bname d of Inl _ \<Rightarrow> {} | Inr (b, _) \<Rightarrow> may (P b) (T b))"

definition deletable :: "int \<Rightarrow> db \<Rightarrow> table set" where
  "deletable a d = insert TOutbox {TObjects b | b. check_perm a b Delete d}"

fun bucket_writes :: "int \<Rightarrow> bucket_call \<Rightarrow> db \<Rightarrow> table set" where
  "bucket_writes a (CreateBucket _) d = may (account_is_owner a d) {TBuckets, TPerms, TNodes}"
| "bucket_writes a (PatchBucket b _ _) d = may (account_owns_bucket a b d) {TBuckets}"
| "bucket_writes a (DeleteBucket b) d = may (account_owns_bucket a b d) {TObjects b, TOutbox, TBuckets, TPerms, TNodes}"
| "bucket_writes a (PutReplication b _ _) d = may (can_edit_bucket_replication a b d) {TBuckets, TNodes}"
| "bucket_writes a (ListNodes b) d = may (can_edit_bucket_replication a b d) {TNodes}"
| "bucket_writes a (AddNode b _ _ _ _) d = may (can_edit_bucket_replication a b d) {TPeers, TBuckets, TNodes}"
| "bucket_writes a (PatchNode b _ _ _) d = may (can_edit_bucket_replication a b d) {TBuckets, TNodes}"
| "bucket_writes a (DeleteNode b _) d = may (can_edit_bucket_replication a b d) {TBuckets, TNodes}"
| "bucket_writes a (PutEtag b _ _) d = may (can_edit_bucket_replication a b d) {TBuckets}"
| "bucket_writes a ListBuckets d = {}"
| "bucket_writes a (GetReplication _) d = {}"

fun admin_writes :: "int \<Rightarrow> admin_call \<Rightarrow> db \<Rightarrow> table set" where
  "admin_writes a (CreateAccount _ _ _ _ _) d = may (account_is_owner a d) {TAccounts, TAccountRoles}"
| "admin_writes a (PatchAccount _ _ _) d = may (account_is_owner a d) {TAccounts, TSessions}"
| "admin_writes a (DeleteAccount i) d = may (account_created_by i a d) {TAccounts, TAccountRoles, TSessions, TBuckets}"
| "admin_writes a (RegeneratePassword _ _ _) d = may (account_is_owner a d) {TAccounts, TSessions}"
| "admin_writes a (SetRoles _ _) d = may (account_is_owner a d) {TAccountRoles}"
| "admin_writes a (CreateRole _ _) d = may (account_is_owner a d) {TRoles}"
| "admin_writes a (PatchRole _ _ _) d = may (account_is_owner a d) {TRoles}"
| "admin_writes a (DeleteRole _) d = may (account_is_owner a d) {TRoles, TAccountRoles, TPerms}"
| "admin_writes a (PutRolePermissions _ _) d = may (account_is_owner a d) {TPerms}"
| "admin_writes a ListAccounts d = {}"
| "admin_writes a AccountDirectory d = {}"
| "admin_writes a ListRoles d = {}"
| "admin_writes a (GetRolePermissions _) d = {}"

fun settings_writes :: "int \<Rightarrow> settings_call \<Rightarrow> db \<Rightarrow> table set" where
  "settings_writes a (PutRecycleSettings _ _) d = may (account_is_owner a d) {TSettings}"
| "settings_writes a GetStorageSettings d = {}"
| "settings_writes a GetIntegrity d = {}"
| "settings_writes a PostReconcile d = {}"
| "settings_writes a GetRecycleSettings d = {}"

fun recycle_writes :: "int \<Rightarrow> recycle_call \<Rightarrow> db \<Rightarrow> table set" where
  "recycle_writes a (PurgeItems _) d = deletable a d"
| "recycle_writes a (PurgeAll _) d = deletable a d"
| "recycle_writes a (RestoreItem i) d = (case get_object_by_id i d of None \<Rightarrow> {}
     | Some r \<Rightarrow> may (check_perm a (obj_bucket_id r) Update d) {TObjects (obj_bucket_id r)})"
| "recycle_writes a (HardDelete i) d = (case get_object_by_id i d of None \<Rightarrow> {}
     | Some r \<Rightarrow> may (check_perm a (obj_bucket_id r) Delete d) {TObjects (obj_bucket_id r), TOutbox})"
| "recycle_writes a (ListRecycleBin _) d = {}"

fun share_writes :: "int \<Rightarrow> share_call \<Rightarrow> db \<Rightarrow> table set" where
  "share_writes a (CreateShare _ body) d =
     in_bucket (csb_bucket body) d (\<lambda>b. check_perm a b Read d) (\<lambda>b. {TShares, TShareUsers})"
| "share_writes a (RevokeShare i) d = (case get_share_by_id i d of None \<Rightarrow> {}
     | Some s \<Rightarrow> may (account_is_owner a d \<or> check_perm a (share_bucket_id s) Read d) {TShares})"
| "share_writes a (ListShares _ _) d = {}"

fun object_writes :: "int \<Rightarrow> object_call \<Rightarrow> db \<Rightarrow> table set" where
  "object_writes a (DeleteFolder bname _) d = in_bucket bname d (\<lambda>b. check_perm a b Delete d) (\<lambda>b. {TObjects b})"
| "object_writes a (RenameFolder bname _ _) d = in_bucket bname d (\<lambda>b. check_perm a b Update d) (\<lambda>b. {TObjects b})"
| "object_writes a (PutContent _ _ bname _ _) d =
     in_bucket bname d (\<lambda>b. check_perm a b Create d \<or> check_perm a b Update d) (\<lambda>b. {TObjects b, TOutbox})"
| "object_writes a (DeleteContent _ bname) d = in_bucket bname d (\<lambda>b. check_perm a b Delete d) (\<lambda>b. {TObjects b})"
| "object_writes a Stats d = {}"
| "object_writes a (ListObjects _) d = {}"
| "object_writes a (ListLevel _) d = {}"
| "object_writes a (FolderArchive _ _ _ _) d = {}"
| "object_writes a (GetContent _ _ _) d = {}"
| "object_writes a (MediaLink _ _ _) d = {}"
| "object_writes a ListPeers d = {}"
| "object_writes a (WgQr _) d = {}"

fun writes :: "int \<Rightarrow> account_call \<Rightarrow> db \<Rightarrow> table set" where
  "writes a (Bucket c) d = bucket_writes a c d"
| "writes a (Admin c) d = admin_writes a c d"
| "writes a (Settings c) d = settings_writes a c d"
| "writes a (Recycle c) d = recycle_writes a c d"
| "writes a (Share c) d = share_writes a c d"
| "writes a (Object c) d = object_writes a c d"

end
