(* ===== verification/Confinement.thy ===== *)
theory Confinement
  imports Api
begin

text \<open>
  Every call writes only what the access matrix \<open>writes\<close> gives its account: one lemma for each handler, composed
  from the footprints of the operations it runs.
\<close>

section \<open>Guards\<close>

named_theorems call_foot \<open>footprints of the handlers\<close>

text \<open>
  A handler is a chain of calls: each that is in the premises says what it touches, and the goal for its result
  becomes the goal for its argument.
\<close>

declare foot [dest!] touches_step [elim!]

lemmas foot_calls [intro!] = foot_fun [THEN touches_step]

lemma may_touches: "(\<not> P \<Longrightarrow> d' = d) \<Longrightarrow> (P \<Longrightarrow> touches T d d') \<Longrightarrow> touches (may P T) d d'"
  by (cases P) (auto simp: may_def)

lemma owner_only_touches:
  assumes "owner_only auth h d = (r, d')" "\<And>r d'. h d = (r, d') \<Longrightarrow> touches T d d'"
  shows "touches (may (account_is_owner (account_id auth) d) T) d d'"
  using assms by (auto simp: owner_only_def require_owner_def intro!: may_touches split: if_split_asm)

lemma editor_only_touches:
  assumes "editor_only auth b h d = (r, d')" "\<And>r d'. h d = (r, d') \<Longrightarrow> touches T d d'"
  shows "touches (may (can_edit_bucket_replication (account_id auth) b d) T) d d'"
  using assms by (auto simp: editor_only_def require_replication_editor_def intro!: may_touches split: if_split_asm)

lemma on_db_touches: "(\<And>r d'. h (node_db n) = (r, d') \<Longrightarrow> touches T (node_db n) d') \<Longrightarrow> touches T (node_db n) (node_db (oc_node (on_db h n)))"
  by (simp add: on_db_def split: prod.split)

lemma on_node_touches: "(\<And>r n'. h n = (r, n') \<Longrightarrow> touches T (node_db n) (node_db n')) \<Longrightarrow> touches T (node_db n) (node_db (oc_node (on_node h n)))"
  by (simp add: on_node_def split: prod.split)

lemma on_resp_touches: "(\<And>r n'. h n = (r, n') \<Longrightarrow> touches T (node_db n) (node_db n')) \<Longrightarrow> touches T (node_db n) (node_db (oc_node (on_resp h n)))"
  by (simp add: on_resp_def split: prod.split)

section \<open>Accounts and roles\<close>

lemma foot_create_account_route [call_foot]:
  "create_account_route argon salt r16 r32 auth dname rs now d = (r, d') \<Longrightarrow>
     touches (may (account_is_owner (account_id auth) d) {TAccounts, TAccountRoles}) d d'"
  unfolding create_account_route_def
  by (erule owner_only_touches) (auto simp: Let_def split: prod.splits sum.splits option.splits)

lemma foot_patch_account_route [call_foot]:
  "patch_account_route auth i dname dis now d = (r, d') \<Longrightarrow>
     touches (may (account_is_owner (account_id auth) d) {TAccounts, TSessions}) d d'"
  unfolding patch_account_route_def
  by (erule owner_only_touches) (auto simp: Let_def split: prod.splits sum.splits option.splits if_splits)

lemma foot_delete_account_route [call_foot]:
  "delete_account_route auth i d = (r, d') \<Longrightarrow>
     touches (may (account_created_by i (account_id auth) d) {TAccounts, TAccountRoles, TSessions, TBuckets}) d d'"
  unfolding delete_account_route_def
  by (rule may_touches) (auto split: prod.splits sum.splits bool.splits if_splits)

lemma foot_regenerate_password_route [call_foot]:
  "regenerate_password_route argon salt r32 auth i now d = (r, d') \<Longrightarrow>
     touches (may (account_is_owner (account_id auth) d) {TAccounts, TSessions}) d d'"
  unfolding regenerate_password_route_def
  by (erule owner_only_touches) (auto simp: Let_def split: prod.splits sum.splits option.splits if_splits)

lemma foot_role_routes [call_foot]:
  "set_roles_route auth i rs d = (r1, d') \<Longrightarrow> touches (may (account_is_owner (account_id auth) d) {TAccountRoles}) d d'"
  "create_role_route auth nm pos d = (r2, d') \<Longrightarrow> touches (may (account_is_owner (account_id auth) d) {TRoles}) d d'"
  "patch_role_route auth i nmo pos d = (r3, d') \<Longrightarrow> touches (may (account_is_owner (account_id auth) d) {TRoles}) d d'"
  "delete_role_route auth i d = (r4, d') \<Longrightarrow>
     touches (may (account_is_owner (account_id auth) d) {TRoles, TAccountRoles, TPerms}) d d'"
  "put_role_permissions_route auth i ps d = (r5, d') \<Longrightarrow> touches (may (account_is_owner (account_id auth) d) {TPerms}) d d'"
  unfolding set_roles_route_def create_role_route_def patch_role_route_def delete_role_route_def put_role_permissions_route_def
  by (erule owner_only_touches, auto simp: Let_def split: prod.splits sum.splits option.splits if_splits)+

section \<open>Buckets and settings\<close>

lemma foot_create_bucket_route [call_foot]:
  "create_bucket_route c auth nm now d = (r, d') \<Longrightarrow>
     touches (may (account_is_owner (account_id auth) d) {TBuckets, TPerms, TNodes}) d d'"
  unfolding create_bucket_route_def
  by (erule owner_only_touches) (auto simp: Let_def split: prod.splits sum.splits option.splits)

lemma foot_patch_bucket_route [call_foot]:
  "patch_bucket_route auth i nm ow d = (r, d') \<Longrightarrow>
     touches (may (account_owns_bucket (account_id auth) i d) {TBuckets}) d d'"
  unfolding patch_bucket_route_def
  by (rule may_touches) (auto split: prod.splits sum.splits option.splits if_splits)

lemma foot_node_routes [call_foot]:
  "put_bucket_replication_route c auth b all ids d = (r1, d') \<Longrightarrow>
     touches (may (can_edit_bucket_replication (account_id auth) b d) {TBuckets, TNodes}) d d'"
  "list_bucket_nodes_route c cwd auth b d = (r2, d') \<Longrightarrow>
     touches (may (can_edit_bucket_replication (account_id auth) b d) {TNodes}) d d'"
  "patch_bucket_node_route auth b i gb mode d = (r3, d') \<Longrightarrow>
     touches (may (can_edit_bucket_replication (account_id auth) b d) {TBuckets, TNodes}) d d'"
  "delete_bucket_node_route c auth b i d = (r4, d') \<Longrightarrow>
     touches (may (can_edit_bucket_replication (account_id auth) b d) {TBuckets, TNodes}) d d'"
proof -
  have ens: "touches {TNodes} d (snd (ensure_bucket_node_assignment b p n m d))" for b p n m d
    by (rule foot_ensure_bucket_node_assignment [OF prod.collapse [symmetric]])
  show "put_bucket_replication_route c auth b all ids d = (r1, d') \<Longrightarrow>
     touches (may (can_edit_bucket_replication (account_id auth) b d) {TBuckets, TNodes}) d d'"
    unfolding put_bucket_replication_route_def
    by (erule editor_only_touches) (auto split: prod.splits sum.splits intro: touches_step [OF ens])
  show "list_bucket_nodes_route c cwd auth b d = (r2, d') \<Longrightarrow>
     touches (may (can_edit_bucket_replication (account_id auth) b d) {TNodes}) d d'"
    unfolding list_bucket_nodes_route_def
    by (erule editor_only_touches) (auto simp: Let_def ens split: option.splits)
  show "patch_bucket_node_route auth b i gb mode d = (r3, d') \<Longrightarrow>
     touches (may (can_edit_bucket_replication (account_id auth) b d) {TBuckets, TNodes}) d d'"
    unfolding patch_bucket_node_route_def
    by (erule editor_only_touches) (auto split: prod.splits sum.splits option.splits)
  show "delete_bucket_node_route c auth b i d = (r4, d') \<Longrightarrow>
     touches (may (can_edit_bucket_replication (account_id auth) b d) {TBuckets, TNodes}) d d'"
    unfolding delete_bucket_node_route_def
    by (erule editor_only_touches) (auto split: prod.splits sum.splits)
qed

lemma foot_add_bucket_node_route [call_foot]:
  "add_bucket_node_route at ap c auth b given ep gb mode d = (r, d') \<Longrightarrow>
     touches (may (can_edit_bucket_replication (account_id auth) b d) {TPeers, TBuckets, TNodes}) d d'"
proof -
  have "touches {TPeers} d d1" if "resolve_new_node at ap c given ep d = (x, d1)" for x d d1
    using that foot_fun unfolding resolve_new_node_def Let_def
    by (auto split: option.splits sum.splits if_splits)
  note [dest!] = this
  show "add_bucket_node_route at ap c auth b given ep gb mode d = (r, d') \<Longrightarrow>
     touches (may (can_edit_bucket_replication (account_id auth) b d) {TPeers, TBuckets, TNodes}) d d'"
    unfolding add_bucket_node_route_def
    by (erule editor_only_touches) (auto split: prod.splits sum.splits)
qed

lemma foot_put_bucket_etag_route [call_foot]:
  "put_bucket_etag_route auth b et mode d = (r, d') \<Longrightarrow>
     touches (may (can_edit_bucket_replication (account_id auth) b d) {TBuckets}) d d'"
  unfolding put_bucket_etag_route_def require_replication_editor_def
  by (rule may_touches) (auto simp: Let_def split: prod.splits sum.splits option.splits if_splits)

lemma foot_put_recycle_settings [call_foot]:
  "put_recycle_settings auth v u d = (r, d') \<Longrightarrow> touches (may (account_is_owner (account_id auth) d) {TSettings}) d d'"
  unfolding put_recycle_settings_def by (erule owner_only_touches) (auto split: prod.splits sum.splits)

text \<open>The handlers that only read.\<close>

lemma reading_handlers [call_foot]:
  "list_buckets_route auth d = (r1, d') \<Longrightarrow> d' = d" "get_bucket_replication_route auth b d = (r2, d') \<Longrightarrow> d' = d"
  "list_accounts_route auth d = (r3, d') \<Longrightarrow> d' = d" "list_account_directory_route auth d = (r4, d') \<Longrightarrow> d' = d"
  "list_roles_route auth d = (r5, d') \<Longrightarrow> d' = d" "get_role_permissions_route auth i d = (r6, d') \<Longrightarrow> d' = d"
  "get_storage_settings c cwd eng f auth d = (r7, d') \<Longrightarrow> d' = d" "get_storage_integrity eng f auth d = (r8, d') \<Longrightarrow> d' = d"
  "get_recycle_settings auth d = (r9, d') \<Longrightarrow> d' = d"
  unfolding list_buckets_route_def get_bucket_replication_route_def list_accounts_route_def list_account_directory_route_def
    list_roles_route_def get_role_permissions_route_def get_storage_settings_def get_storage_integrity_def
    get_recycle_settings_def owner_only_def editor_only_def
  by (auto simp: Let_def split: sum.splits prod.splits)

lemma reading_node_handlers [call_foot]:
  "post_storage_reconcile stuck auth n = (r1, n') \<Longrightarrow> node_db n' = node_db n"
  "list_shares_route auth bname key now n = (r2, n') \<Longrightarrow> node_db n' = node_db n"
  "stats_route A wg auth n = (r3, n') \<Longrightarrow> node_db n' = node_db n"
  "objects_route auth bname n = (r4, n') \<Longrightarrow> node_db n' = node_db n"
  "objects_list_route A auth q n = (r5, n') \<Longrightarrow> node_db n' = node_db n"
  "folder_archive_route A X pid uuid auth bname pre fmt n = (r6, n') \<Longrightarrow> node_db n' = node_db n"
  "get_object_keyed_with_headers L key hs n = (r7, n') \<Longrightarrow> node_db n' = node_db n"
  "create_media_link A auth bname key kind now n = (r8, n') \<Longrightarrow> node_db n' = node_db n"
  "peers_route auth n = (r9, n') \<Longrightarrow> node_db n' = node_db n"
  "wg_qr_route A at Q auth ep n = (r10, n') \<Longrightarrow> node_db n' = node_db n"
  unfolding post_storage_reconcile_def list_shares_route_def stats_route_def objects_route_def objects_list_route_def
    folder_archive_route_def get_object_keyed_with_headers_def create_media_link_def peers_route_def wg_qr_route_def
  by (auto simp: Let_def split: sum.splits prod.splits option.splits if_splits share_target_kind.splits)

lemma web_get_object_content_reads [call_foot]:
  "web_get_object_content A auth key bname hs n = (r, n') \<Longrightarrow> node_db n' = node_db n"
  unfolding web_get_object_content_def
  by (auto split: sum.splits prod.splits option.splits dest: reading_node_handlers)

section \<open>Purging\<close>

lemma rows_of_touched:
  assumes "touches T d d'" "db_ok d" "x \<in> set (objects d')" "TObjects (obj_bucket_id x) \<notin> T"
  shows "x \<in> set (objects d)"
proof -
  have "bucket_rows (obj_bucket_id x) d' = bucket_rows (obj_bucket_id x) d"
    using touches_same [OF assms(1,2,4)] by simp
  moreover have "x \<in> set (bucket_rows (obj_bucket_id x) d')" using assms(3) by (simp add: bucket_rows_def)
  ultimately show ?thesis by (simp add: bucket_rows_def)
qed

text \<open>The permissions read the accounts' roles and the buckets' owners only.\<close>

lemma check_perm_touched:
  assumes "touches T d d'" "db_ok d" "{TRoles, TAccountRoles, TPerms, TBuckets} \<inter> T = {}"
  shows "check_perm a b act d' = check_perm a b act d"
proof -
  have "roles d' = roles d" "account_roles d' = account_roles d" "role_perms d' = role_perms d" "buckets d' = buckets d"
    using touches_same [OF assms(1,2), of TRoles] touches_same [OF assms(1,2), of TAccountRoles]
      touches_same [OF assms(1,2), of TPerms] touches_same [OF assms(1,2), of TBuckets] assms(3) by simp_all
  then show ?thesis
    by (simp add: check_perm_def effective_perms_def account_owns_bucket_def account_is_owner_def get_bucket_by_id_def
        get_role_def)
qed

lemma touches_by_ok: "(db_ok d \<Longrightarrow> touches T d d') \<Longrightarrow> touches T d d'"
  by (auto simp: touches_def)

lemma hard_purge_touches:
  assumes run: "hard_purge_object i now n = (x, n')" and T: "touches T d (node_db n)" "TOutbox \<in> T"
    and rows: "\<And>r. db_ok d \<Longrightarrow> r \<in> set (objects d) \<Longrightarrow> obj_id r = i \<Longrightarrow> TObjects (obj_bucket_id r) \<in> T"
  shows "touches T d (node_db n')"
proof (rule touches_by_ok)
  assume ok: "db_ok d"
  show ?thesis
  proof (cases "get_object_by_id i (node_db n)")
    case None
    then show ?thesis using T run hard_purge_missing [OF None, of now] by simp
  next
    case (Some r)
    then have r: "r \<in> set (objects (node_db n))" "obj_id r = i"
      unfolding get_object_by_id_def using obj_tbl.row_mem by blast+
    then have "TObjects (obj_bucket_id r) \<in> T" using rows_of_touched [OF T(1) ok r(1)] rows [OF ok] by blast
    then show ?thesis using touches_step [OF foot_hard_purge [OF run Some] T(1)] T(2) by simp
  qed
qed

lemma purge_ids_touches:
  assumes "purge_ids is now n = (x, n')" "touches T d (node_db n)" "TOutbox \<in> T"
    and "\<And>r. db_ok d \<Longrightarrow> r \<in> set (objects d) \<Longrightarrow> obj_id r \<in> set is \<Longrightarrow> TObjects (obj_bucket_id r) \<in> T"
  shows "touches T d (node_db n')"
  using assms
proof (induction "is" arbitrary: n)
  case (Cons i "is")
  obtain y n1 where h: "hard_purge_object i now n = (y, n1)" by force
  have t1: "touches T d (node_db n1)" using Cons.prems(4) by (intro hard_purge_touches [OF h Cons.prems(2,3)]) simp
  show ?case
  proof (cases y)
    case (Inl e)
    then show ?thesis using Cons.prems(1) h t1 by simp
  next
    case (Inr u)
    then show ?thesis using Cons.prems h t1 by (intro Cons.IH [of n1]) simp_all
  qed
qed simp

lemma foot_delete_bucket_route [call_foot]:
  assumes "delete_bucket_route auth b now n = (r, n')"
  shows "touches (may (account_owns_bucket (account_id auth) b (node_db n)) {TObjects b, TOutbox, TBuckets, TPerms, TNodes})
           (node_db n) (node_db n')"
proof (rule may_touches)
  show "node_db n' = node_db n" if "\<not> account_owns_bucket (account_id auth) b (node_db n)"
    using assms that by (simp add: delete_bucket_route_def)
  let ?T = "{TObjects b, TOutbox, TBuckets, TPerms, TNodes}"
  obtain y n1 where p: "purge_ids (list_object_ids_in_bucket b (node_db n)) now n = (y, n1)" by force
  have "touches ?T (node_db n) (node_db n1)"
  proof (rule purge_ids_touches [OF p])
    show "TObjects (obj_bucket_id r) \<in> ?T" if "db_ok (node_db n)" "r \<in> set (objects (node_db n))"
      "obj_id r \<in> set (list_object_ids_in_bucket b (node_db n))" for r
      using that objects_ok_idD unfolding list_object_ids_rows db_ok_def by fastforce
  qed simp_all
  then show "touches ?T (node_db n) (node_db n')"
    using assms p by (auto simp: delete_bucket_route_def Let_def split: if_split_asm sum.split_asm prod.split_asm)
qed

lemma foot_restore_recycle_item [call_foot]:
  "restore_recycle_item auth i now d = (r, d') \<Longrightarrow> touches (case get_object_by_id i d of None \<Rightarrow> {}
     | Some r \<Rightarrow> may (check_perm (account_id auth) (obj_bucket_id r) Update d) {TObjects (obj_bucket_id r)}) d d'"
  unfolding restore_recycle_item_def require_bucket_perm_def
  by (auto split: option.splits intro!: may_touches split: if_split_asm prod.split_asm sum.split_asm)


lemma foot_hard_delete_recycle_item [call_foot]:
  "hard_delete_recycle_item auth i now n = (r, n') \<Longrightarrow> touches (case get_object_by_id i (node_db n) of None \<Rightarrow> {}
     | Some r \<Rightarrow> may (check_perm (account_id auth) (obj_bucket_id r) Delete (node_db n)) {TObjects (obj_bucket_id r), TOutbox})
       (node_db n) (node_db n')"
  unfolding hard_delete_recycle_item_def require_bucket_perm_def
  by (auto split: option.splits intro!: may_touches split: if_split_asm prod.split_asm sum.split_asm)
     (metis foot_hard_purge)+

text \<open>A purge of several items checks the permission for each, on the database as it is then.\<close>

lemma purge_step_touches:
  assumes "\<And>n ok n1. touches T d (node_db n) \<Longrightarrow> purge x n = (ok, n1) \<Longrightarrow> touches T d (node_db n1)"
    and "touches T d (node_db (snd s))"
  shows "touches T d (node_db (snd (purge_step purge id_of s x)))"
  using assms unfolding purge_step_def by (auto split: prod.splits bool.splits)

lemma purge_loop_touches:
  assumes "\<And>x n ok n1. x \<in> set xs \<Longrightarrow> touches T d (node_db n) \<Longrightarrow> purge x n = (ok, n1) \<Longrightarrow> touches T d (node_db n1)"
    and "touches T d (node_db (snd s))"
  shows "touches T d (node_db (snd (foldl (purge_step purge id_of) s xs)))"
  using assms
proof (induction xs arbitrary: s)
  case (Cons x xs)
  have "touches T d (node_db (snd (purge_step purge id_of s x)))"
    by (rule purge_step_touches) (use Cons.prems in auto)
  then have "touches T d (node_db (snd (foldl (purge_step purge id_of) (purge_step purge id_of s x) xs)))"
  proof (rule Cons.IH [rotated])
    show "touches T d (node_db n1)" if "y \<in> set xs" "touches T d (node_db m)" "purge y m = (ok, n1)" for y m ok n1
      by (rule Cons.prems(1) [OF _ that(2,3)]) (simp add: that(1))
  qed
  then show ?case by simp
qed simp

lemma deletable_perms: "{TRoles, TAccountRoles, TPerms, TBuckets} \<inter> deletable a d = {}"
  by (auto simp: deletable_def)

lemma purge_one_touches:
  assumes "purge_one auth i now n = (ok, n1)" "touches (deletable (account_id auth) d) d (node_db n)"
  shows "touches (deletable (account_id auth) d) d (node_db n1)"
proof (rule touches_by_ok)
  assume "db_ok d"
  note perm = check_perm_touched [OF assms(2) this deletable_perms, of "account_id auth"]
  show ?thesis
  proof (cases "node_db n1 = node_db n")
    case False
    then obtain ob x where ob: "get_object_by_id i (node_db n) = Some ob" "check_perm (account_id auth) (obj_bucket_id ob) Delete (node_db n)"
      "hard_purge_object i now n = (x, n1)"
      using assms(1) unfolding purge_one_def require_bucket_perm_def
      by (auto split: option.split_asm if_split_asm prod.split_asm)
    then have "{TObjects (obj_bucket_id ob), TOutbox} \<subseteq> deletable (account_id auth) d" using perm by (auto simp: deletable_def)
    then show ?thesis using touches_step [OF foot_hard_purge [OF ob(3,1)] assms(2)] by simp
  qed (use assms(2) in simp)
qed

lemma purge_listed_touches:
  assumes "purge_listed auth now ob n = (ok, n1)" "touches (deletable (account_id auth) d) d (node_db n)" "ob \<in> set (objects d)"
  shows "touches (deletable (account_id auth) d) d (node_db n1)"
proof (rule touches_by_ok)
  assume k: "db_ok d"
  note perm = check_perm_touched [OF assms(2) k deletable_perms, of "account_id auth"]
  show ?thesis
  proof (cases "node_db n1 = node_db n")
    case False
    then obtain x where h: "check_perm (account_id auth) (obj_bucket_id ob) Delete (node_db n)" "hard_purge_object (obj_id ob) now n = (x, n1)"
      using assms(1) unfolding purge_listed_def require_bucket_perm_def by (auto split: if_split_asm prod.split_asm)
    show ?thesis
    proof (rule hard_purge_touches [OF h(2) assms(2)])
      show "TObjects (obj_bucket_id r) \<in> deletable (account_id auth) d" if "r \<in> set (objects d)" "obj_id r = obj_id ob" for r
      proof -
        have "r = ob" using objects_ok_idD that assms(3) k unfolding db_ok_def by blast
        then show ?thesis using h(1) perm by (simp add: deletable_def)
      qed
    qed (simp add: deletable_def)
  qed (use assms(2) in simp)
qed

lemma foot_purge_items [call_foot]:
  "purge_recycle_items auth is now n = (r1, n') \<Longrightarrow> touches (deletable (account_id auth) (node_db n)) (node_db n) (node_db n')"
  "purge_all_recycle_items auth bname now n = (r2, n') \<Longrightarrow> touches (deletable (account_id auth) (node_db n)) (node_db n) (node_db n')"
proof -
  have "touches (deletable (account_id auth) (node_db n)) (node_db n)
      (node_db (snd (foldl (purge_step (\<lambda>i. purge_one auth i now) id) (\<lparr>pr_deleted = 0, pr_failed = []\<rparr>, n) is)))"
    by (rule purge_loop_touches) (auto intro: purge_one_touches)
  then show "purge_recycle_items auth is now n = (r1, n') \<Longrightarrow>
      touches (deletable (account_id auth) (node_db n)) (node_db n) (node_db n')"
    by (auto simp: purge_recycle_items_def split: if_split_asm prod.split_asm)
  have "touches (deletable (account_id auth) (node_db n)) (node_db n)
      (node_db (snd (foldl (purge_step (purge_listed auth now) obj_id) (\<lparr>pr_deleted = 0, pr_failed = []\<rparr>, n)
        (list_deleted_objects bs (node_db n)))))" for bs
    by (rule purge_loop_touches) (auto intro: purge_listed_touches simp: set_list_deleted)
  then show "purge_all_recycle_items auth bname now n = (r2, n') \<Longrightarrow>
      touches (deletable (account_id auth) (node_db n)) (node_db n) (node_db n')"
    by (auto simp: purge_all_recycle_items_def split: sum.split_asm prod.split_asm) (metis snd_conv)
qed

section \<open>Shares and objects\<close>

lemma in_bucket_touches:
  assumes "\<And>b name. resolve_bucket_id bname d = Inr (b, name) \<Longrightarrow> \<not> P b \<Longrightarrow> d' = d"
    and "\<And>b name. resolve_bucket_id bname d = Inr (b, name) \<Longrightarrow> P b \<Longrightarrow> touches (T b) d d'"
    and "\<And>r. resolve_bucket_id bname d = Inl r \<Longrightarrow> d' = d"
  shows "touches (in_bucket bname d P T) d d'"
proof (cases "resolve_bucket_id bname d")
  case (Inr p)
  then show ?thesis using assms(1,2) by (cases p) (auto simp: in_bucket_def intro!: may_touches)
qed (use assms(3) in auto)

lemma foot_create_share_route [call_foot]:
  "create_share_route draw auth body now n = (r, n') \<Longrightarrow>
     touches (in_bucket (csb_bucket body) (node_db n) (\<lambda>b. check_perm (account_id auth) b Read (node_db n)) (\<lambda>b. {TShares, TShareUsers}))
       (node_db n) (node_db n')"
  by (rule in_bucket_touches)
    (auto simp: create_share_route_def require_bucket_perm_def Let_def split: sum.splits prod.splits if_splits)

lemma foot_revoke_share_route [call_foot]:
  "revoke_share_route auth i now n = (r, n') \<Longrightarrow>
     touches (case get_share_by_id i (node_db n) of None \<Rightarrow> {} | Some s \<Rightarrow>
       may (account_is_owner (account_id auth) (node_db n) \<or> check_perm (account_id auth) (share_bucket_id s) Read (node_db n)) {TShares})
       (node_db n) (node_db n')"
  by (auto simp: revoke_share_route_def require_bucket_perm_def Let_def intro!: may_touches
      split: option.splits sum.splits prod.splits if_splits bool.splits)

lemma foot_delete_folder_route [call_foot]:
  "delete_folder_route auth bname pre now n = (r, n') \<Longrightarrow>
     touches (in_bucket bname (node_db n) (\<lambda>b. check_perm (account_id auth) b Delete (node_db n)) (\<lambda>b. {TObjects b}))
       (node_db n) (node_db n')"
  by (rule in_bucket_touches)
    (auto simp: delete_folder_route_def bucket_guard_def require_bucket_perm_def split: sum.splits prod.splits if_splits)

lemma foot_rename_folder_route [call_foot]:
  "rename_folder_route auth bname f t now n = (r, n') \<Longrightarrow>
     touches (in_bucket bname (node_db n) (\<lambda>b. check_perm (account_id auth) b Update (node_db n)) (\<lambda>b. {TObjects b}))
       (node_db n) (node_db n')"
  by (rule in_bucket_touches)
    (auto simp: rename_folder_route_def bucket_guard_def require_bucket_perm_def split: sum.splits prod.splits if_splits)

lemma foot_put_object:
  assumes "put_object_keyed_in_bucket L uuid key hs body (Some b) now n = (r, n')"
  shows "touches {TObjects b, TOutbox} (node_db n) (node_db n')"
proof -
  have sd: "touches {TObjects b} d (snd (soft_delete_object_by_filename key (Some b) now d))" for d
    by (rule foot_soft_delete(1) [OF prod.collapse [symmetric]])
  have ins: "touches {TObjects b} d1 d2" if "insert_object_tx key fp fmt sz et tag b now d1 = (x, d2)" for fp fmt sz et tag x d1 d2
    using that by (rule foot_insert_object(1))
  have enq: "touches {TOutbox} d (snd (enqueue_put_for_active_peers i fp tag nd now d))" for i fp tag nd d
    unfolding enqueue_put_for_active_peers_def by (rule foot_enqueue [OF prod.collapse [symmetric]])
  show ?thesis
    using assms unfolding put_object_keyed_in_bucket_def Let_def
    by (auto split: sum.splits prod.splits if_splits dest!: ins
        intro!: touches_step [OF enq] touches_step [OF sd])
qed

lemma foot_delete_object:
  "delete_object_keyed_in_bucket key (Some b) now n = (r, n') \<Longrightarrow> touches {TObjects b} (node_db n) (node_db n')"
  using foot_soft_delete(1) [OF prod.collapse [symmetric]] by (auto simp: delete_object_keyed_in_bucket_def)

lemma foot_web_objects [call_foot]:
  "web_put_object A auth uuid key bname hs body now n = (r1, n') \<Longrightarrow>
     touches (in_bucket bname (node_db n) (\<lambda>b. check_perm (account_id auth) b Create (node_db n) \<or> check_perm (account_id auth) b Update (node_db n))
         (\<lambda>b. {TObjects b, TOutbox})) (node_db n) (node_db n')"
  "web_delete_object auth key bname now n = (r2, n') \<Longrightarrow>
     touches (in_bucket bname (node_db n) (\<lambda>b. check_perm (account_id auth) b Delete (node_db n)) (\<lambda>b. {TObjects b}))
       (node_db n) (node_db n')"
  by (rule in_bucket_touches, auto simp: web_put_object_def web_delete_object_def bucket_guard_def require_bucket_perm_def Let_def
      split: sum.splits prod.splits if_splits dest: foot_put_object foot_delete_object)+

section \<open>Every call\<close>

lemmas outcome_touches = on_db_touches on_node_touches on_resp_touches

lemma bucket_calls: "touches (bucket_writes (account_id auth) c (node_db n)) (node_db n) (node_db (oc_node (run_bucket E auth c now n)))"
proof (cases c)
  case (PutEtag b et mode)
  then show ?thesis by (auto split: prod.split dest: foot_put_bucket_etag_route)
qed (auto intro!: outcome_touches dest: call_foot)

lemma admin_calls: "touches (admin_writes (account_id auth) c (node_db n)) (node_db n) (node_db (oc_node (run_admin E auth c now n)))"
  by (cases c) (auto intro!: outcome_touches dest: call_foot)

lemma settings_calls: "touches (settings_writes (account_id auth) c (node_db n)) (node_db n) (node_db (oc_node (run_settings E auth c now n)))"
  by (cases c) (auto intro!: outcome_touches dest: call_foot)

lemma recycle_calls: "touches (recycle_writes (account_id auth) c (node_db n)) (node_db n) (node_db (oc_node (run_recycle E auth c now n)))"
  by (cases c) (auto intro!: outcome_touches dest: call_foot simp del: option.case)

lemma share_calls: "touches (share_writes (account_id auth) c (node_db n)) (node_db n) (node_db (oc_node (run_share E auth c now n)))"
  by (cases c) (auto intro!: outcome_touches dest: call_foot)

lemma object_calls: "touches (object_writes (account_id auth) c (node_db n)) (node_db n) (node_db (oc_node (run_object E auth c now n)))"
  by (cases c) (auto intro!: outcome_touches dest: call_foot)

lemma run_call_touches: "touches (writes (account_id auth) c (node_db n)) (node_db n) (node_db (oc_node (run_call E auth c now n)))"
  by (cases c) (simp_all only: writes.simps run_call.simps bucket_calls admin_calls settings_calls recycle_calls share_calls object_calls)

text \<open>The hints are for the handlers only.\<close>

declare foot [rule del] touches_step [rule del] foot_calls [rule del]

end
