(* ===== verification/Authority.thy ===== *)
theory Authority
  imports Access Confinement
begin

text \<open>
  What the access matrix means for the accounts: who can change the objects of a bucket, the accounts and the roles,
  and that nobody but an owner can give himself a permission.
\<close>

section \<open>Ownership\<close>

definition owners :: "db \<Rightarrow> (int \<times> int option) list" where
  "owners d = map (\<lambda>b. (bucket_id b, owner_account_id b)) (buckets d)"

lemma owns_owners: "account_owns_bucket a b d \<longleftrightarrow> map_of (owners d) b = Some (Some a)"
proof -
  have "Option.bind (row_by bucket_id b rows) owner_account_id = Some a
      \<longleftrightarrow> map_of (map (\<lambda>b. (bucket_id b, owner_account_id b)) rows) b = Some (Some a)" for rows
    by (induction rows) (simp_all add: row_by_def select_one_def)
  then show ?thesis by (simp add: account_owns_bucket_def get_bucket_by_id_def owners_def)
qed

text \<open>The account has no more authority than before: no new role, grant or bucket.\<close>

definition no_gain :: "int \<Rightarrow> db \<Rightarrow> db \<Rightarrow> bool" where
  "no_gain a d d' \<longleftrightarrow> roles d' = roles d \<and> set (account_roles d') \<subseteq> set (account_roles d)
     \<and> set (role_perms d') \<subseteq> set (role_perms d)
     \<and> (\<forall>b. map_of (owners d') b = Some (Some a) \<longrightarrow> map_of (owners d) b = Some (Some a))"

lemma no_gain_refl [simp]: "no_gain a d d"
  by (simp add: no_gain_def)

lemma no_gain_trans: "no_gain a d d1 \<Longrightarrow> no_gain a d1 d2 \<Longrightarrow> no_gain a d d2"
  unfolding no_gain_def by (simp, blast)

lemma no_gain_perms:
  assumes "no_gain a d d'" "check_perm a b act d'" shows "check_perm a b act d"
proof -
  have r: "get_role r d' = get_role r d" for r using assms(1) by (simp add: no_gain_def get_role_def)
  have "account_is_owner a d" if "account_is_owner a d'"
    using that assms(1) unfolding account_is_owner_def count_where_pos r by (auto simp: no_gain_def)
  then show ?thesis
    using assms unfolding check_perm_char no_gain_def owns_owners by blast
qed

lemma untouched_authority:
  assumes "touches T d d'" "db_ok d" "{TRoles, TAccountRoles, TPerms} \<inter> T = {}" "owners d' = owners d"
  shows "no_gain a d d'"
  using assms(3,4) touches_same [OF assms(1,2), of TRoles] touches_same [OF assms(1,2), of TAccountRoles]
    touches_same [OF assms(1,2), of TPerms]
  by (simp add: no_gain_def)

lemma same_owners: "touches T d d' \<Longrightarrow> db_ok d \<Longrightarrow> TBuckets \<notin> T \<Longrightarrow> owners d' = owners d"
  using touches_same [of T d d' TBuckets] by (simp add: owners_def)

lemma owners_update_buckets [simp]:
  "(\<And>x. bucket_id (f x) = bucket_id x) \<Longrightarrow> (\<And>x. owner_account_id (f x) = owner_account_id x) \<Longrightarrow>
    owners (buckets_update (update_where P f) d) = owners d"
  by (simp add: owners_def update_where_def)

lemma owners_frame [simp]: "owners (repl_peers_update g d) = owners d" "owners (peers_update h d) = owners d"
  "owners (insert_targets b ps d) = owners d"
  by (simp_all add: owners_def)

named_theorems owners_kept \<open>operations that keep the owners of the buckets\<close>

lemma node_ops_owners [owners_kept]:
  "set_bucket_replication b all ps d = (x1, d') \<Longrightarrow> owners d' = owners d"
  "ensure_bucket_node_assignment b p n m d = (x2, d') \<Longrightarrow> owners d' = owners d"
  "assign_bucket_node b p n m d = (x3, d') \<Longrightarrow> owners d' = owners d"
  "update_bucket_node b p no mo d = (x4, d') \<Longrightarrow> owners d' = owners d"
  "remove_bucket_node b p loc d = (x5, d') \<Longrightarrow> owners d' = owners d"
  "set_bucket_etag_type b t d = (x6, d') \<Longrightarrow> owners d' = owners d"
  "begin_bucket_etag_rehash b k d = (x7, d') \<Longrightarrow> owners d' = owners d"
  "rename_bucket b nm d = (x8, d') \<Longrightarrow> owners d' = owners d"
proof -
  show "set_bucket_replication b all ps d = (x1, d') \<Longrightarrow> owners d' = owners d"
    by (auto simp: set_bucket_replication_def Let_def split: if_split_asm)
  show "ensure_bucket_node_assignment b p n m d = (x2, d') \<Longrightarrow> owners d' = owners d"
    by (auto simp: ensure_bucket_node_assignment_def insert_node_def split: if_split_asm)
  show "assign_bucket_node b p n m d = (x3, d') \<Longrightarrow> owners d' = owners d"
    by (auto simp: assign_bucket_node_def insert_node_def update_node_def clear_replicate_to_all_def Let_def split: if_split_asm)
  show "update_bucket_node b p no mo d = (x4, d') \<Longrightarrow> owners d' = owners d"
    by (auto simp: update_bucket_node_def update_node_def clear_replicate_to_all_def Let_def split: if_split_asm option.split_asm)
  show "remove_bucket_node b p loc d = (x5, d') \<Longrightarrow> owners d' = owners d"
    by (auto simp: remove_bucket_node_def clear_replicate_to_all_def split: if_split_asm)
  show "set_bucket_etag_type b t d = (x6, d') \<Longrightarrow> owners d' = owners d"
    by (auto simp: set_bucket_etag_type_def update_bucket_def split: if_split_asm)
  show "begin_bucket_etag_rehash b k d = (x7, d') \<Longrightarrow> owners d' = owners d"
    by (auto simp: begin_bucket_etag_rehash_def update_bucket_def split: if_split_asm)
  show "rename_bucket b nm d = (x8, d') \<Longrightarrow> owners d' = owners d"
    by (auto simp: rename_bucket_def Let_def split: if_split_asm option.split_asm)
qed

lemma upsert_peer_owners [simp]: "owners (upsert_peer i e d) = owners d"
  by (simp add: upsert_peer_def)

lemma node_routes_owners:
  "put_bucket_replication_route c auth b all ids d = (r1, d') \<Longrightarrow> owners d' = owners d"
  "list_bucket_nodes_route c cwd auth b d = (r2, d') \<Longrightarrow> owners d' = owners d"
  "add_bucket_node_route at ap c auth b given ep gb mode d = (r3, d') \<Longrightarrow> owners d' = owners d"
  "patch_bucket_node_route auth b i gbo mode d = (r4, d') \<Longrightarrow> owners d' = owners d"
  "delete_bucket_node_route c auth b i d = (r5, d') \<Longrightarrow> owners d' = owners d"
  "put_bucket_etag_route auth b et md d = (r6, d') \<Longrightarrow> owners d' = owners d"
proof -
  have ens: "owners (snd (ensure_bucket_node_assignment b p n m d)) = owners d" for b p n m d
    by (rule node_ops_owners(2) [OF prod.collapse [symmetric]])
  have new: "owners d1 = owners d" if "resolve_new_node at ap c given ep d = (x, d1)" for x d d1
    using that unfolding resolve_new_node_def Let_def by (auto split: option.splits sum.splits if_splits)
  show "put_bucket_replication_route c auth b all ids d = (r1, d') \<Longrightarrow> owners d' = owners d"
    by (auto simp: put_bucket_replication_route_def editor_only_def ens split: sum.splits prod.splits dest: owners_kept)
  show "list_bucket_nodes_route c cwd auth b d = (r2, d') \<Longrightarrow> owners d' = owners d"
    by (auto simp: list_bucket_nodes_route_def editor_only_def ens Let_def split: sum.splits option.splits)
  show "add_bucket_node_route at ap c auth b given ep gb mode d = (r3, d') \<Longrightarrow> owners d' = owners d"
    by (auto simp: add_bucket_node_route_def editor_only_def split: sum.splits prod.splits dest!: owners_kept new)
  show "patch_bucket_node_route auth b i gbo mode d = (r4, d') \<Longrightarrow> owners d' = owners d"
    by (auto simp: patch_bucket_node_route_def editor_only_def split: sum.splits prod.splits option.splits dest!: owners_kept)
  show "delete_bucket_node_route c auth b i d = (r5, d') \<Longrightarrow> owners d' = owners d"
    by (auto simp: delete_bucket_node_route_def editor_only_def split: sum.splits prod.splits dest!: owners_kept)
  show "put_bucket_etag_route auth b et md d = (r6, d') \<Longrightarrow> owners d' = owners d"
    by (auto simp: put_bucket_etag_route_def Let_def split: sum.splits prod.splits option.splits if_splits dest!: owners_kept)
qed

lemma map_of_owner_changed:
  "map_of (map (\<lambda>(j, ow). (j, if j = i then Some x else ow)) os) b =
     (if b = i then map_option (\<lambda>_. Some x) (map_of os b) else map_of os b)"
  by (induction os) auto

lemma patch_bucket_no_gain:
  assumes run: "patch_bucket_route auth i nm ow d = (r, d')" and ok: "db_ok d"
  shows "no_gain (account_id auth) d d'"
proof (cases "account_owns_bucket (account_id auth) i d")
  case True
  have set_owner: "map_of (owners d2) b = Some (Some (account_id auth)) \<Longrightarrow> map_of (owners d) b = Some (Some (account_id auth))"
    if "set_bucket_owner i x d1 = (y, d2)" "owners d1 = owners d" for x y d1 d2 b
  proof -
    have "d2 = d1 \<or> owners d2 = map (\<lambda>(j, ow). (j, if j = i then Some x else ow)) (owners d1)"
      using that(1) unfolding set_bucket_owner_def Let_def
      by (auto simp: owners_def update_where_def comp_def split: option.splits if_split_asm)
    then show "map_of (owners d2) b = Some (Some (account_id auth)) \<Longrightarrow> map_of (owners d) b = Some (Some (account_id auth))"
      using True that(2) by (auto simp: owns_owners map_of_owner_changed split: if_split_asm)
  qed
  have "map_of (owners d') b = Some (Some (account_id auth)) \<Longrightarrow> map_of (owners d) b = Some (Some (account_id auth))" for b
    using run set_owner node_ops_owners(8)
    unfolding patch_bucket_route_def
    by (auto split: option.split_asm if_split_asm sum.split_asm prod.split_asm)
  moreover have "roles d' = roles d" "account_roles d' = account_roles d" "role_perms d' = role_perms d"
    using touches_same [OF foot_patch_bucket_route [OF run] ok, of TRoles] touches_same [OF foot_patch_bucket_route [OF run] ok, of TAccountRoles]
      touches_same [OF foot_patch_bucket_route [OF run] ok, of TPerms] True by (simp_all add: may_def)
  ultimately show ?thesis by (simp add: no_gain_def)
next
  case False
  then have "d' = d" using run by (auto simp: patch_bucket_route_def split: if_split_asm)
  then show ?thesis by simp
qed

lemma delete_account_no_gain: "delete_account_route auth i d = (r, d') \<Longrightarrow> no_gain a d d'"
proof -
  have "no_gain a d d1" if "delete_account i d = (x, d1)" for x d1
  proof (cases "d1 = d")
    case False
    have "owners d1 = map (\<lambda>(j, ow). (j, if ow = Some i then None else ow)) (owners d)"
      using that False by (auto simp: delete_account_def owners_def update_where_def split: if_split_asm)
    moreover have "map_of (map (\<lambda>(j, ow). (j, if ow = Some i then None else ow)) os) b = Some (Some a) \<Longrightarrow> map_of os b = Some (Some a)"
      for os :: "(int \<times> int option) list" and b
      by (induction os) (auto split: if_split_asm)
    ultimately show ?thesis
      using that by (auto simp: delete_account_def no_gain_def set_delete_where split: if_split_asm)
  qed simp
  then show "delete_account_route auth i d = (r, d') \<Longrightarrow> no_gain a d d'"
    by (auto simp: delete_account_route_def split: if_split_asm prod.split_asm sum.split_asm bool.split_asm)
qed

lemma delete_bucket_no_gain:
  assumes run: "delete_bucket_route auth i now n = (r, n')" and ok: "db_ok (node_db n)"
  shows "no_gain a (node_db n) (node_db n')"
proof -
  have del: "no_gain a d d1" if "delete_bucket i d = (x, d1)" for x d d1
  proof (cases "d1 = d")
    case False
    have "owners d1 = filter (\<lambda>p. fst p \<noteq> i) (owners d)"
      using that False by (auto simp: delete_bucket_def owners_def delete_where_def filter_map comp_def split: if_split_asm option.split_asm)
    moreover have "map_of (filter (\<lambda>p. fst p \<noteq> i) os) b = (if b = i then None else map_of os b)" for os :: "(int \<times> int option) list" and b
      by (induction os) auto
    ultimately show ?thesis
      using that by (auto simp: delete_bucket_def no_gain_def set_delete_where split: if_split_asm option.split_asm)
  qed simp
  have purge: "no_gain a (node_db n) (node_db n1)" if "purge_ids is now n = (y, n1)" for "is" y n1
  proof -
    have t: "touches (insert TOutbox (range TObjects)) (node_db n) (node_db n1)"
      by (rule purge_ids_touches [OF that]) auto
    then show ?thesis by (rule untouched_authority [OF _ ok]) (use same_owners [OF t ok] in auto)
  qed
  show ?thesis
    using run unfolding delete_bucket_route_def Let_def
    by (auto split: if_split_asm sum.split_asm prod.split_asm dest!: purge del intro: no_gain_trans)
qed

section \<open>Requests\<close>

text \<open>The account of a request is the one of its session; finding it changes nothing.\<close>

lemma serve_account_runs:
  assumes "fst (auth_account (app_lib (env_app E)) hs now (node_db n)) = Inr auth"
  shows "serve_account E hs c now n = run_call E auth c now n"
proof -
  have "snd (auth_account (app_lib (env_app E)) hs now (node_db n)) = node_db n"
    using assms by (auto simp: auth_account_def resolve_session_def split: option.splits if_splits)
  moreover obtain d where "auth_account (app_lib (env_app E)) hs now (node_db n) = (Inr auth, d)"
    using assms by (metis fst_conv surj_pair)
  ultimately show ?thesis by (simp add: serve_account_def)
qed

text \<open>C3: A call of the HTTP interface that goes through the session extractor (all of them but PUT /settings/storage,
  which ends the process) keeps the constraints of the schema, and confines itself: without a valid session it is refused
  with status 401, starts no task and leaves every table but the sessions as it was; with one it is the call of the
  session's account, and every table outside those that the access matrix gives this account for this call, on the
  permissions the database had before, is left as it was.\<close>

theorem requests_confined:
  assumes "db_ok (node_db n)" and "serve_account E hs c now n = out"
  shows "db_ok (node_db (oc_node out))
    \<and> (case fst (auth_account (app_lib (env_app E)) hs now (node_db n)) of
        Inl r \<Rightarrow> oc_status out = 401 \<and> oc_task out = None
          \<and> (\<forall>t. t \<noteq> TSessions \<longrightarrow> same_table (node_db n) (node_db (oc_node out)) t)
      | Inr auth \<Rightarrow> out = run_call E auth c now n
          \<and> (\<forall>t. t \<notin> writes (account_id auth) c (node_db n) \<longrightarrow> same_table (node_db n) (node_db (oc_node out)) t))"
proof (cases "fst (auth_account (app_lib (env_app E)) hs now (node_db n))")
  case (Inl r)
  then have "oc_status out = 401 \<and> oc_task out = None \<and> touches {TSessions} (node_db n) (node_db (oc_node out))"
    using assms(2) by (auto simp: serve_account_def auth_account_def text_response_def split: option.splits prod.splits
        dest: foot_resolve_session)
  then show ?thesis using Inl assms(1) by (simp add: touches_def)
next
  case (Inr auth)
  then have out: "out = run_call E auth c now n" using assms(2) serve_account_runs by blast
  then show ?thesis using Inr assms(1) run_call_touches [of auth c n E now] by (simp add: touches_def)
qed

lemma touches_bucket_rows: "touches T d d' \<Longrightarrow> db_ok d \<Longrightarrow> TObjects b \<notin> T \<Longrightarrow> bucket_rows b d' = bucket_rows b d"
  using touches_same [of T d d' "TObjects b"] by simp

lemma owns_may: "account_owns_bucket a b d \<Longrightarrow> check_perm a b act d"
  by (cases act) (simp_all add: check_perm_char)

lemma writes_objects:
  "TObjects b \<in> writes a c d \<Longrightarrow> check_perm a b Create d \<or> check_perm a b Update d \<or> check_perm a b Delete d"
proof (cases c)
  case (Bucket x)
  then show "TObjects b \<in> writes a c d \<Longrightarrow> ?thesis" by (cases x) (auto simp: may_def owns_may split: if_split_asm)
next
  case (Admin x)
  then show "TObjects b \<in> writes a c d \<Longrightarrow> ?thesis" by (cases x) (auto simp: may_def split: if_split_asm)
next
  case (Settings x)
  then show "TObjects b \<in> writes a c d \<Longrightarrow> ?thesis" by (cases x) (auto simp: may_def split: if_split_asm)
next
  case (Recycle x)
  then show "TObjects b \<in> writes a c d \<Longrightarrow> ?thesis"
    by (cases x) (auto simp: may_def deletable_def split: if_split_asm option.split_asm)
next
  case (Share x)
  then show "TObjects b \<in> writes a c d \<Longrightarrow> ?thesis"
    by (cases x) (auto simp: may_def in_bucket_def split: if_split_asm option.split_asm sum.split_asm)
next
  case (Object x)
  then show "TObjects b \<in> writes a c d \<Longrightarrow> ?thesis"
    by (cases x) (auto simp: may_def in_bucket_def split: if_split_asm sum.split_asm)
qed

text \<open>C5: An account with none of the create, update and delete permissions on a bucket cannot change its objects: no
  request of it, of any kind and with any content, inserts, changes, deletes, restores or purges a row of the bucket.\<close>

theorem bucket_integrity:
  assumes "db_ok (node_db n)" and "fst (auth_account (app_lib (env_app E)) hs now (node_db n)) = Inr auth"
    and "\<not> check_perm (account_id auth) b Create (node_db n)" "\<not> check_perm (account_id auth) b Update (node_db n)"
      "\<not> check_perm (account_id auth) b Delete (node_db n)"
  shows "bucket_rows b (node_db (oc_node (serve_account E hs c now n))) = bucket_rows b (node_db n)"
  unfolding serve_account_runs [OF assms(2)]
  by (rule touches_bucket_rows [OF run_call_touches assms(1)]) (use writes_objects assms(3-5) in blast)

lemma writes_identity:
  assumes "t \<in> writes a c d" "t \<in> {TAccounts, TRoles, TAccountRoles, TSettings}" "\<not> account_is_owner a d"
  shows "\<exists>i. c = Admin (DeleteAccount i) \<and> account_created_by i a d"
proof (cases c)
  case (Admin x)
  then show ?thesis using assms by (cases x) (auto simp: may_def split: if_split_asm)
next
  case (Bucket x)
  then show ?thesis using assms by (cases x) (auto simp: may_def split: if_split_asm)
next
  case (Settings x)
  then show ?thesis using assms by (cases x) (auto simp: may_def split: if_split_asm)
next
  case (Recycle x)
  then show ?thesis using assms by (cases x) (auto simp: may_def deletable_def split: if_split_asm option.split_asm)
next
  case (Share x)
  then show ?thesis using assms by (cases x) (auto simp: may_def in_bucket_def split: if_split_asm option.split_asm sum.split_asm)
next
  case (Object x)
  then show ?thesis using assms by (cases x) (auto simp: may_def in_bucket_def split: if_split_asm sum.split_asm)
qed

lemma identity_kept:
  assumes "touches T d d'" "db_ok d" "{TAccounts, TRoles, TAccountRoles, TSettings} \<inter> T = {}"
  shows "accounts d' = accounts d \<and> roles d' = roles d \<and> account_roles d' = account_roles d \<and> settings d' = settings d"
  using touches_same [OF assms(1,2), of TAccounts] touches_same [OF assms(1,2), of TRoles]
    touches_same [OF assms(1,2), of TAccountRoles] touches_same [OF assms(1,2), of TSettings] assms(3) by auto

text \<open>C11: Accounts, roles, role assignments and settings are for owners: a request of an account without an owner role
  leaves all four tables as they were, except that the creator of an account can delete it.\<close>

theorem identity_owner_only:
  assumes "db_ok (node_db n)" and "fst (auth_account (app_lib (env_app E)) hs now (node_db n)) = Inr auth"
    and "\<not> account_is_owner (account_id auth) (node_db n)"
    and "\<And>i. c = Admin (DeleteAccount i) \<Longrightarrow> \<not> account_created_by i (account_id auth) (node_db n)"
    and "node_db (oc_node (serve_account E hs c now n)) = d'"
  shows "accounts d' = accounts (node_db n) \<and> roles d' = roles (node_db n)
    \<and> account_roles d' = account_roles (node_db n) \<and> settings d' = settings (node_db n)"
  using identity_kept [OF run_call_touches assms(1), of auth c E now] writes_identity [OF _ _ assms(3), of _ c] assms(4,5)
  unfolding serve_account_runs [OF assms(2)] by blast

lemma outcome_db [simp]:
  "node_db (oc_node (on_db h n)) = snd (h (node_db n))" "node_db (oc_node (on_node k n)) = node_db (snd (k n))"
  by (simp_all add: on_db_def on_node_def split: prod.split)

lemma authority_kept:
  assumes "touches T d d'" "db_ok d" "{TRoles, TAccountRoles, TPerms, TBuckets} \<inter> T = {}"
  shows "no_gain a d d'"
  using untouched_authority [OF assms(1,2)] same_owners [OF assms(1,2)] assms(3) by auto

lemma bucket_call_gains_nothing:
  assumes ok: "db_ok (node_db n)" and no: "\<not> account_is_owner (account_id auth) (node_db n)"
  shows "no_gain (account_id auth) (node_db n) (node_db (oc_node (run_bucket E auth x now n)))"
proof -
  let ?n' = "oc_node (run_bucket E auth x now n)"
  note t = bucket_calls [of auth x n E now]
  have keep: ?thesis if "owners (node_db ?n') = owners (node_db n)"
    "{TRoles, TAccountRoles, TPerms} \<inter> bucket_writes (account_id auth) x (node_db n) = {}"
    using untouched_authority [OF t ok that(2,1)] .
  show ?thesis
  proof (cases x)
    case (PatchBucket i nm ow)
    then show ?thesis using patch_bucket_no_gain [OF prod.collapse [symmetric] ok] by simp
  next
    case (DeleteBucket i)
    then show ?thesis using delete_bucket_no_gain [OF prod.collapse [symmetric] ok] by simp
  next
    case (CreateBucket nm)
    then show ?thesis using no authority_kept [OF t ok] by (simp add: may_def)
  next
    case (PutReplication b all ids)
    then show ?thesis using node_routes_owners(1) [OF prod.collapse [symmetric]] by (intro keep) (simp_all add: may_def)
  next
    case (ListNodes b)
    then show ?thesis using node_routes_owners(2) [OF prod.collapse [symmetric]] by (intro keep) (simp_all add: may_def)
  next
    case (AddNode b given ep gb mode)
    then show ?thesis using node_routes_owners(3) [OF prod.collapse [symmetric]] by (intro keep) (simp_all add: may_def)
  next
    case (PatchNode b i gb mode)
    then show ?thesis using node_routes_owners(4) [OF prod.collapse [symmetric]] by (intro keep) (simp_all add: may_def)
  next
    case (DeleteNode b i)
    then show ?thesis using node_routes_owners(5) [OF prod.collapse [symmetric]] by (intro keep) (simp_all add: may_def)
  next
    case (PutEtag b et md)
    obtain r task d where p: "put_bucket_etag_route auth b et md (node_db n) = ((r, task), d)" by (metis prod.exhaust)
    show ?thesis by (rule keep) (use node_routes_owners(6) [OF p] in \<open>simp_all add: PutEtag p may_def\<close>)
  qed (use authority_kept [OF t ok] in simp_all)
qed

lemma admin_call_gains_nothing:
  assumes ok: "db_ok (node_db n)" and no: "\<not> account_is_owner (account_id auth) (node_db n)"
  shows "no_gain (account_id auth) (node_db n) (node_db (oc_node (run_admin E auth x now n)))"
proof (cases x)
  case (DeleteAccount i)
  then show ?thesis using delete_account_no_gain [OF prod.collapse [symmetric]] by simp
qed (use no authority_kept [OF admin_calls [of auth x n E now] ok] in \<open>simp_all add: may_def\<close>)

lemma non_owner_gains_nothing:
  assumes ok: "db_ok (node_db n)" and no: "\<not> account_is_owner (account_id auth) (node_db n)"
  shows "no_gain (account_id auth) (node_db n) (node_db (oc_node (run_call E auth c now n)))"
proof (cases c)
  case (Bucket x)
  then show ?thesis using bucket_call_gains_nothing [OF assms] by simp
next
  case (Admin x)
  then show ?thesis using admin_call_gains_nothing [OF assms] by simp
next
  case (Settings x)
  then show ?thesis using no by (intro authority_kept [OF run_call_touches ok]) (cases x; simp add: may_def)
next
  case (Recycle x)
  then show ?thesis
    by (intro authority_kept [OF run_call_touches ok]) (cases x; auto simp: may_def deletable_def split: option.split_asm if_split_asm)
next
  case (Share x)
  then show ?thesis
    by (intro authority_kept [OF run_call_touches ok])
      (cases x; auto simp: may_def in_bucket_def split: option.split_asm if_split_asm sum.split_asm)
next
  case (Object x)
  then show ?thesis
    by (intro authority_kept [OF run_call_touches ok]) (cases x; auto simp: may_def in_bucket_def split: if_split_asm sum.split_asm)
qed

text \<open>C4: No request lets an account without an owner role give itself a permission: whatever it may do on a bucket
  afterwards, it might do before.\<close>

theorem no_escalation:
  assumes "db_ok (node_db n)" and "fst (auth_account (app_lib (env_app E)) hs now (node_db n)) = Inr auth"
    and "\<not> account_is_owner (account_id auth) (node_db n)"
    and "check_perm (account_id auth) b act (node_db (oc_node (serve_account E hs c now n)))"
  shows "check_perm (account_id auth) b act (node_db n)"
  using no_gain_perms [OF non_owner_gains_nothing [OF assms(1,3)]] assms(4) unfolding serve_account_runs [OF assms(2)] .

section \<open>Witnesses\<close>

text \<open>The owner of bucket 2, signed in, who has no rights on bucket 1.\<close>

definition demo_env :: "(string, string) env" where
  "demo_env = \<lparr>env_app = demo_app, env_wg = wg_status_default, env_addr_text = id, env_addr_port = (\<lambda>_. 50051), env_cwd = None,
     env_archiver = demo_archiver, env_pid = 1,
     env_qr = \<lparr>ql_code = (\<lambda>s. Inr []), ql_png = (\<lambda>n ps. Inr []), ql_base64 = id\<rparr>,
     env_argon = (\<lambda>salt pw. Inr (salt @ pw)), env_phc = Inr, env_argon_verify = (\<lambda>pw h. pw = h),
     env_asset = (\<lambda>p. None), env_lossy = id, env_stuck = (\<lambda>p. False)\<rparr>"

definition signed_in_node :: node where
  "signed_in_node = shared_bucket_node\<lparr>node_db := shared_bucket_db\<lparr>
     sessions := [\<lparr>token = ''tok'', session_account_id = 7, expires_utc = 100\<rparr>]\<rparr>\<rparr>"

definition session_headers :: headers where
  "session_headers = [(''cookie'', ''mys3_session=tok'')]"

lemma signed_in:
  "db_ok (node_db signed_in_node)"
  "fst (auth_account (app_lib (env_app demo_env)) session_headers 9 (node_db signed_in_node)) = Inr reader"
  "\<not> account_is_owner (account_id reader) (node_db signed_in_node)"
  by code_simp+

theorem requests_confined_witness:
  "let out = serve_account demo_env session_headers (Object (PutContent ''u'' ''k'' None [] [Inr ''x''])) 9 signed_in_node in
   db_ok (node_db (oc_node out)) \<and> roles (node_db (oc_node out)) = roles (node_db signed_in_node)"
proof -
  let ?c = "Object (PutContent ''u'' ''k'' None [] [Inr ''x''])"
  have "TRoles \<notin> writes (account_id reader) ?c (node_db signed_in_node)"
    by (simp add: in_bucket_def may_def split: sum.split)
  with requests_confined [OF signed_in(1), of demo_env session_headers ?c 9] show ?thesis
    unfolding Let_def signed_in(2) by fastforce
qed

theorem bucket_integrity_witness:
  "bucket_rows 1 (node_db (oc_node (serve_account demo_env session_headers
       (Object (PutContent ''u'' ''k'' None [] [Inr ''x''])) 9 signed_in_node))) = bucket_rows 1 (node_db signed_in_node)"
  by (rule bucket_integrity [OF signed_in(1,2)]) code_simp+

theorem identity_owner_only_witness:
  "roles (node_db (oc_node (serve_account demo_env session_headers (Admin (CreateRole ''x'' None)) 9 signed_in_node)))
     = roles (node_db signed_in_node)"
  using identity_owner_only [OF signed_in, of "Admin (CreateRole ''x'' None)", OF _ refl] by simp

theorem no_escalation_witness: "check_perm (account_id reader) 2 Read (node_db signed_in_node)"
proof (rule no_escalation [OF signed_in, of 2 Read "Bucket (PatchBucket 2 (Some ''b2'') None)"])
  show "check_perm (account_id reader) 2 Read (node_db (oc_node (serve_account demo_env session_headers
      (Bucket (PatchBucket 2 (Some ''b2'') None)) 9 signed_in_node)))" by code_simp
qed

end
