(* ===== verification/Server.thy ===== *)
theory Server
  imports Authority Wireguard
begin

text \<open>
  The whole node: how \<open>src/main.rs\<close> starts it, the events it serves once it runs -- requests of the HTTP interface
  and of the S3 one, calls of other nodes, ticks of the workers -- and what holds whatever events arrive in whatever
  order. Each handler, each tick and each task is one step.
\<close>

section \<open>Starting\<close>

text \<open>
  The database is the one the migrations leave; the storage directory exists afterwards. The first failure ends the
  start. What runs afterwards is the node, the rehash tasks its handlers spawned, and the workers, of which only the
  purge worker can end early: \<open>rn_purging\<close> says that it has not.
\<close>

record 'a running =
  rn_node :: node
  rn_wg :: wg_status
  rn_http :: 'a
  rn_grpc :: 'a
  rn_tasks :: "(int \<times> etag_type) list"
  rn_purging :: bool

definition start_node ::
  "'a wg_lib \<Rightarrow> 'a config \<Rightarrow> db \<Rightarrow> fs \<Rightarrow> 'a running res \<times> db" where
  "start_node W c d f =
     (let d1 = seed_peers_from_config (map (\<lambda>p. (seed_id p, seed_endpoint p)) (cluster_peers c)) d in
      case ensure_local_node (cfg_node_id c) (wl_addr_text W (grpc_bind_addr c)) d1 of
        (Inl e, d2) \<Rightarrow> (Inl e, d2)
      | (Inr _, d2) \<Rightarrow>
          (Inr \<lparr>rn_node = \<lparr>node_id = cfg_node_id c, node_engine = engine_init (path_display (cfg_storage_root c)),
                  node_db = d2, node_fs = f, node_events = []\<rparr>,
                rn_wg = fst (wireguard_start W c), rn_http = http_bind c, rn_grpc = grpc_bind c, rn_tasks = [],
                rn_purging = True\<rparr>, d2))"

section \<open>Running\<close>

record ('a, 'h) machine =
  mc_env :: "('a, 'h) env"
  mc_sigv4_optional :: "string option"
  mc_minus_secs :: "time \<Rightarrow> int \<Rightarrow> time option"

text \<open>
  The method and the path of an S3 request. The request that is signed comes with the call it means.
\<close>

fun s3_endpoint :: "s3_request \<Rightarrow> string \<times> string" where
  "s3_endpoint S3List = (''GET'', ''/storage/objects'')"
| "s3_endpoint (S3Put _ _ _ _) = (''PUT'', ''/storage/objects/*key'')"
| "s3_endpoint (S3Get _) = (''GET'', ''/storage/objects/*key'')"
| "s3_endpoint (S3Delete _) = (''DELETE'', ''/storage/objects/*key'')"

text \<open>
  A worker's tick carries what the network does with each job and the peers; an anti-entropy tick the digests the
  peers answer.
\<close>

datatype node_event =
  AccountRequest headers account_call time
  | OpenRequest headers open_call time
  | S3Request request s3_request time
  | ReplicateRpc "object_chunk list" time
  | DeleteRpc string string
  | PingRpc string string time
  | PurgeTick time
  | RehashRun nat time
  | WorkerTick "int \<Rightarrow> delivery" cluster time
  | AntiEntropyTick "string \<Rightarrow> (string \<times> string) list option" time

definition with_outcome :: "outcome \<Rightarrow> 'a running \<Rightarrow> 'a running" where
  "with_outcome oc s = s\<lparr>rn_node := oc_node oc,
     rn_tasks := rn_tasks s @ (case oc_task oc of None \<Rightarrow> [] | Some t \<Rightarrow> [t])\<rparr>"

text \<open>A tick whose cutoff cannot be computed panics, which ends the task of the worker and nothing else.\<close>

definition purge_tick :: "('a, 'h) machine \<Rightarrow> time \<Rightarrow> 'a running \<Rightarrow> 'a running" where
  "purge_tick M now s =
     (if \<not> rn_purging s then s
      else
        (let n = rn_node s in
         case purge_once (mc_minus_secs M) (node_engine n) (node_id n) now (node_db n, node_fs n) of
           None \<Rightarrow> s\<lparr>rn_purging := False\<rparr>
         | Some (_, d, f) \<Rightarrow> s\<lparr>rn_node := n\<lparr>node_db := d, node_fs := f\<rparr>\<rparr>))"

definition rehash_run :: "lib \<Rightarrow> int \<Rightarrow> etag_type \<Rightarrow> time \<Rightarrow> node \<Rightarrow> node" where
  "rehash_run L b et now n =
     n\<lparr>node_db := run_bucket_rehash (lib_digest L) (lib_xof L) (node_engine n) (node_id n) (node_fs n) b et now (node_db n)\<rparr>"

fun react :: "('a, 'h) machine \<Rightarrow> node_event \<Rightarrow> 'a running \<Rightarrow> 'a running" where
  "react M (AccountRequest hs c now) s = with_outcome (serve_account (mc_env M) hs c now (rn_node s)) s"
| "react M (OpenRequest hs c now) s = with_outcome (serve_open (mc_env M) hs c now (rn_node s)) s"
| "react M (S3Request rq c now) s =
     (let A = env_app (mc_env M) in
      s\<lparr>rn_node := snd (auth_sigv4_mw (app_lib A) (app_media A) (app_config A) (mc_sigv4_optional M) rq
          (s3_serve (app_lib A) now c) (rn_node s))\<rparr>)"
| "react M (ReplicateRpc cs now) s =
     (let L = app_lib (env_app (mc_env M)) in
      s\<lparr>rn_node := snd (replicate_object (lib_digest L) (lib_xof L) (lib_lower L) cs now (rn_node s))\<rparr>)"
| "react M (DeleteRpc fp tag) s = s\<lparr>rn_node := snd (delete_object fp tag (rn_node s))\<rparr>"
| "react M (PingRpc i ip now) s = s\<lparr>rn_node := snd (ping_node i ip now (rn_node s))\<rparr>"
| "react M (PurgeTick now) s = purge_tick M now s"
| "react M (RehashRun k now) s =
     (if k < length (rn_tasks s) then
        (case rn_tasks s ! k of (b, et) \<Rightarrow>
           s\<lparr>rn_node := rehash_run (app_lib (env_app (mc_env M))) b et now (rn_node s),
             rn_tasks := take k (rn_tasks s) @ drop (Suc k) (rn_tasks s)\<rparr>)
      else s)"
| "react M (WorkerTick net peers_of now) s =
     (let L = app_lib (env_app (mc_env M)) in
      s\<lparr>rn_node := fst (worker_tick (lib_digest L) (lib_xof L) (lib_lower L) net now (rn_node s, peers_of))\<rparr>)"
| "react M (AntiEntropyTick remote now) s =
     s\<lparr>rn_node := (rn_node s)\<lparr>node_db := anti_entropy_round (node_id (rn_node s)) remote now (node_db (rn_node s))\<rparr>\<rparr>"

fun serve_events :: "('a, 'h) machine \<Rightarrow> node_event list \<Rightarrow> 'a running \<Rightarrow> 'a running" where
  "serve_events M [] s = s"
| "serve_events M (e # es) s = serve_events M es (react M e s)"

inductive server_step :: "('a, 'h) machine \<Rightarrow> 'a running \<Rightarrow> 'a running \<Rightarrow> bool" for M where
  "server_step M s (react M e s)"

lemma serve_events_steps: "(server_step M)\<^sup>*\<^sup>* s (serve_events M es s)"
  by (induction es arbitrary: s) (auto intro: converse_rtranclp_into_rtranclp server_step.intros)

section \<open>What the events write\<close>

lemma foot_optional_auth: "touches {TSessions} d (snd (optional_auth L hs now d))"
  using foot_resolve_session [OF prod.collapse [symmetric]] by (auto simp: optional_auth_def split: option.split)

lemma with_optional_account_touches:
  assumes "with_optional_account A hs now h n = (r, n')" "\<And>a m r m'. h a m = (r, m') \<Longrightarrow> node_db m' = node_db m"
  shows "touches {TSessions} (node_db n) (node_db n')"
proof -
  obtain a d where o: "optional_auth (app_lib A) hs now (node_db n) = (a, d)" by force
  then have "node_db n' = d" using assms by (force simp: with_optional_account_def)
  then show ?thesis using foot_optional_auth [of "node_db n" "app_lib A" hs now] o by simp
qed

lemma share_handlers_read:
  "share_meta_by_token A a tok access now n = (r1, n') \<Longrightarrow> node_db n' = node_db n"
  "share_meta_by_code A a code access now n = (r2, n') \<Longrightarrow> node_db n' = node_db n"
  "share_list_by_token A a tok pre access now n = (r3, n') \<Longrightarrow> node_db n' = node_db n"
  "share_list_by_code A a code pre access now n = (r4, n') \<Longrightarrow> node_db n' = node_db n"
  "share_content_by_token A a tok key access hs now n = (r5, n') \<Longrightarrow> node_db n' = node_db n"
  "share_content_by_code A a code key access hs now n = (r6, n') \<Longrightarrow> node_db n' = node_db n"
  unfolding share_meta_by_token_def share_meta_by_code_def share_list_by_token_def share_list_by_code_def
    share_content_by_token_def share_content_by_code_def content_for_share_def
  by (auto split: sum.splits option.splits if_splits dest: reading_node_handlers(7))

lemma open_share_touches:
  "touches {TSessions} (node_db n) (node_db (snd (with_optional_account A hs now (\<lambda>a. share_meta_by_token A a tok access now) n)))"
  "touches {TSessions} (node_db n) (node_db (snd (with_optional_account A hs now (\<lambda>a. share_meta_by_code A a tok access now) n)))"
  "touches {TSessions} (node_db n) (node_db (snd (with_optional_account A hs now (\<lambda>a. share_list_by_token A a tok pre access now) n)))"
  "touches {TSessions} (node_db n) (node_db (snd (with_optional_account A hs now (\<lambda>a. share_list_by_code A a tok pre access now) n)))"
  by (rule with_optional_account_touches [OF prod.collapse [symmetric]], rule share_handlers_read, assumption)+

lemma media_content_reads: "media_content_by_access A key bname access hs now n = (r, n') \<Longrightarrow> node_db n' = node_db n"
  unfolding media_content_by_access_def
  by (auto split: sum.splits option.splits if_splits prod.splits media_grant.splits dest: reading_node_handlers(7))

lemma foot_auth_bootstrap:
  "auth_bootstrap argon salt r16 r32 sb dname now d = (r, d') \<Longrightarrow> touches {TAccounts, TAccountRoles, TBuckets, TSessions} d d'"
proof -
  note [dest!] = foot and [elim!] = touches_step
  show "auth_bootstrap argon salt r16 r32 sb dname now d = (r, d') \<Longrightarrow> touches {TAccounts, TAccountRoles, TBuckets, TSessions} d d'"
    unfolding auth_bootstrap_def by (auto split: if_split_asm prod.split_asm sum.split_asm option.split_asm)
qed

lemma foot_auth_login: "auth_login phc av sb u pw now d = (r, d') \<Longrightarrow> touches {TSessions} d d'"
proof -
  note [dest!] = foot
  show "auth_login phc av sb u pw now d = (r, d') \<Longrightarrow> touches {TSessions} d d'"
    unfolding auth_login_def by (auto split: if_split_asm prod.split_asm sum.split_asm option.split_asm bool.split_asm)
qed

definition open_tables :: "open_call \<Rightarrow> table set" where
  "open_tables c = (case c of Bootstrap _ _ _ _ _ \<Rightarrow> {TAccounts, TAccountRoles, TBuckets, TSessions} | _ \<Rightarrow> {TSessions})"

lemma serve_open_touches: "touches (open_tables c) (node_db n) (node_db (oc_node (serve_open E hs c now n)))"
proof -
  have viewer: "touches {TSessions} (node_db n) (node_db n')"
    if "with_viewer E hs now h n = (r, n')" "\<And>a m r m'. h a m = (r, m') \<Longrightarrow> node_db m' = node_db m" for h r n'
    using that(1) unfolding with_viewer_def by (rule with_optional_account_touches) (use that(2) in \<open>auto split: prod.split_asm\<close>)
  show ?thesis
  proof (cases c)
    case AuthStatus
    have "snd (auth_status (app_lib (env_app E)) hs now (node_db n)) = snd (optional_auth (app_lib (env_app E)) hs now (node_db n))"
      by (simp add: auth_status_def optional_auth_def Let_def split: prod.split option.split)
    then show ?thesis using AuthStatus foot_optional_auth by (simp add: open_tables_def)
  next
    case (ShareContentByToken tok key access)
    have "touches {TSessions} (node_db n) (node_db (snd (with_viewer E hs now (\<lambda>account. share_content_by_token (env_app E) account tok key access hs now) n)))"
      by (rule viewer [OF prod.collapse [symmetric]]) (rule share_handlers_read)
    then show ?thesis by (simp add: ShareContentByToken open_tables_def)
  next
    case (ShareContentByCode code key access)
    have "touches {TSessions} (node_db n) (node_db (snd (with_viewer E hs now (\<lambda>account. share_content_by_code (env_app E) account code key access hs now) n)))"
      by (rule viewer [OF prod.collapse [symmetric]]) (rule share_handlers_read)
    then show ?thesis by (simp add: ShareContentByCode open_tables_def)
  next
    case Logout
    have "touches {TSessions} (node_db n) (snd (auth_logout (app_lib (env_app E)) hs (node_db n)))"
      by (auto simp: auth_logout_def foot_delete_session split: option.split)
    then show ?thesis using Logout by (auto simp: open_tables_def on_resp_def split: prod.split)
  next
    case (MediaContent key bname access)
    then show ?thesis
      by (auto simp: open_tables_def intro!: on_resp_touches dest: media_content_reads)
  next
    case (Bootstrap salt r16 r32 sb dname)
    then show ?thesis using foot_auth_bootstrap [OF prod.collapse [symmetric]] by (simp add: open_tables_def)
  next
    case (Login sb u pw)
    then show ?thesis using foot_auth_login [OF prod.collapse [symmetric]] by (simp add: open_tables_def)
  qed (simp_all add: open_tables_def open_share_touches on_resp_def)
qed

text \<open>The tables of an account are out of reach of everything but the requests of the HTTP interface.\<close>

definition storage_tables :: "table set" where
  "storage_tables = range TObjects \<union> {TBuckets, TPerms, TPeers, TOutbox}"

lemma storage_step: "touches T d1 d2 \<Longrightarrow> touches storage_tables d d1 \<Longrightarrow> T \<subseteq> storage_tables \<Longrightarrow> touches storage_tables d d2"
  by (rule touches_step)

lemma in_storage_tables [simp]: "TObjects b \<in> storage_tables" "TOutbox \<in> storage_tables" "TBuckets \<in> storage_tables"
  "TPerms \<in> storage_tables" "TPeers \<in> storage_tables" "range TObjects \<subseteq> storage_tables"
  by (auto simp: storage_tables_def)

lemma s3_serve_touches: "touches storage_tables (node_db n) (node_db (snd (s3_serve L now c n)))"
proof (cases c)
  case (S3Put uuid raw hs cs)
  have "touches storage_tables (node_db n) (node_db n')" if "put_object_keyed L uuid key hs body now n = (r, n')" for key body r n'
  proof (cases "default_bucket_id (node_db n)")
    case (Inl e)
    then show ?thesis using that by (auto simp: put_object_keyed_def put_object_keyed_in_bucket_def Let_def)
  next
    case (Inr b)
    then have "put_object_keyed L uuid key hs body now n = put_object_keyed_in_bucket L uuid key hs body (Some b) now n"
      by (simp add: put_object_keyed_def put_object_keyed_in_bucket_def)
    then show ?thesis using that by (intro touches_mono [OF foot_put_object [of L uuid key hs body b now n r n']]) simp_all
  qed
  then show ?thesis by (auto simp: S3Put put_object_def split: sum.split) (metis prod.collapse)
next
  case (S3Delete raw)
  then show ?thesis
    using touches_mono [OF foot_soft_delete_any in_storage_tables(6)]
    by (auto simp: delete_object_route_def delete_object_keyed_def delete_object_keyed_in_bucket_def split: sum.split)
next
  case (S3Get raw)
  have "node_db (snd (get_object L raw n)) = node_db n"
    using reading_node_handlers(7) [OF prod.collapse [symmetric]]
    by (auto simp: get_object_def get_object_keyed_def split: sum.split)
  then show ?thesis by (simp add: S3Get)
qed simp

lemma sigv4_touches:
  "touches T (node_db n) (node_db (snd (run n))) \<Longrightarrow> touches T (node_db n) (node_db (snd (auth_sigv4_mw L M c opt rq run n)))"
  by (auto simp: auth_sigv4_mw_def require_sigv4_def Let_def split: sum.split)

lemma replicate_object_touches: "touches storage_tables (node_db n) (node_db (snd (replicate_object digest xof lower cs now n)))"
proof -
  note [dest!] = foot and [elim!] = touches_step
  show ?thesis
    unfolding replicate_object_def Let_def
    by (auto split: prod.split sum.split option.split)
qed

lemma rpc_touches:
  "touches storage_tables (node_db n) (node_db (snd (delete_object fp tag n)))"
  "touches storage_tables (node_db n) (node_db (snd (ping_node i ip now n)))"
  using touches_mono [OF foot_delete_by_filepath, of storage_tables "node_db n" fp]
    touches_step [OF foot_peer(2) touches_mono [OF foot_peer(1)], of storage_tables "node_db n"]
  by (simp_all add: delete_object_def ping_node_def note_heartbeat_def)

lemma foldl_touches:
  assumes "\<And>x d1. x \<in> set xs \<Longrightarrow> touches T d d1 \<Longrightarrow> touches T d (f d1 x)" "touches T d d1"
  shows "touches T d (foldl f d1 xs)"
  using assms by (induction xs arbitrary: d1) simp_all

lemma purge_object_touches: "touches storage_tables d (fst (purge_object eng loc now r (d, f)))"
proof -
  obtain n d1 where enq: "enqueue_for_active_peers DeleteOp (obj_id r) (filepath r) (etag r) loc now d = (n, d1)" by force
  have "touches storage_tables d d1" by (rule touches_mono [OF foot_enqueue [OF enq]]) simp
  moreover have "touches storage_tables d1 (delete_object_row P d1)" for P by (rule foot_delete_object_row) simp_all
  ultimately have "touches storage_tables d (delete_object_row P d1)" for P using touches_step by blast
  then show ?thesis by (simp add: purge_object_def enqueue_delete_for_active_peers_def enq Let_def)
qed

lemma purge_tick_touches: "touches storage_tables (node_db (rn_node s)) (node_db (rn_node (purge_tick M now s)))"
proof -
  have loop: "touches storage_tables d0 (fst (foldl (\<lambda>s r. purge_object eng loc now r s) (d, f) rs))"
    if "touches storage_tables d0 d" for d0 d f eng loc rs
    using that
  proof (induction rs arbitrary: d f)
    case (Cons r rs)
    obtain d1 f1 where p: "purge_object eng loc now r (d, f) = (d1, f1)" by force
    have "touches storage_tables d0 d1"
      using touches_step [OF purge_object_touches Cons.prems subset_refl, of eng loc now r f] p by simp
    then show ?case using Cons.IH p by simp
  qed simp
  show ?thesis
    using loop [OF touches_refl] unfolding purge_tick_def purge_once_def
    by (auto simp: Let_def split: sum.splits option.splits prod.splits) (metis fst_conv)+
qed

lemma foot_update_object_etag: "update_object_etag i t e now d = (x, d') \<Longrightarrow> touches (range TObjects) d d'"
proof -
  assume r: "update_object_etag i t e now d = (x, d')"
  show "touches (range TObjects) d d'"
  proof (cases "d' = d")
    case False
    then obtain g where g: "objects_update g d = d'" using r unfolding update_object_etag_def by (auto split: if_split_asm)
    show ?thesis by (rule foot_objects_same [OF g update_object_etag_ok [OF r]]) auto
  qed simp
qed

lemma rehash_run_touches: "touches storage_tables (node_db n) (node_db (rehash_run L b et now n))"
proof -
  have one: "touches storage_tables d (snd (rehash_one digest xof eng loc f fp oid et now d))" for digest xof eng loc f fp oid d
  proof -
    note [dest!] = foot_update_object_etag
    have enq: "touches {TOutbox} d (snd (enqueue_put_for_active_peers i fp tag nd now d))" for i fp tag nd d
      unfolding enqueue_put_for_active_peers_def by (rule foot_enqueue [OF prod.collapse [symmetric]])
    show ?thesis unfolding rehash_one_def
      by (auto split: sum.split prod.split intro!: touches_step [OF enq] intro: touches_mono)
  qed
  have "touches storage_tables d0 (rehash_loop digest xof eng loc f b et now rs d)"
    if "touches storage_tables d0 d" for digest xof eng loc f rs d0 d
    using that
  proof (induction rs arbitrary: d)
    case (Cons r rs)
    have "touches storage_tables d0 (bump_bucket_etag_rehash_processed b
        (snd (rehash_one digest xof eng loc f (filepath r) (obj_id r) et now d)))"
      by (rule touches_step [OF foot_bucket_etag_progress(1)], rule touches_step [OF one Cons.prems]) simp_all
    then show ?case using Cons.IH by (simp add: Let_def)
  qed simp
  then show ?thesis
    using touches_step [OF foot_bucket_etag_progress(2)] by (simp add: rehash_run_def run_bucket_rehash_def)
qed

lemma work_job_touches:
  "touches storage_tables d (node_db (fst s)) \<Longrightarrow> touches storage_tables d (node_db (fst (work_job digest xof lower dl now j s)))"
proof -
  assume "touches storage_tables d (node_db (fst s))"
  then have "touches storage_tables d (complete_outbox_job i (node_db (fst s)))" "touches storage_tables d (fail_outbox_job i t (node_db (fst s)))" for i t
    using touches_step [OF foot_job_done(1)] touches_step [OF foot_job_done(2)] by simp_all
  then show ?thesis by (auto simp: work_job_def split: prod.splits sum.splits)
qed

lemma worker_tick_touches: "touches storage_tables (node_db n) (node_db (fst (worker_tick digest xof lower net now (n, c))))"
proof -
  obtain js d where cl: "claim_outbox_jobs 50 now (node_db n) = (js, d)" by force
  have start: "touches storage_tables (node_db n) (node_db (fst (n\<lparr>node_db := d\<rparr>, c)))"
    using touches_mono [OF foot_jobs(2) [OF cl]] by simp
  have "touches storage_tables (node_db n) (node_db (fst (foldl (\<lambda>s j. work_job digest xof lower (net (oj_id j)) now j s) s js)))"
    if "touches storage_tables (node_db n) (node_db (fst s))" for s
    using that by (induction js arbitrary: s) (simp_all add: work_job_touches)
  from this [OF start] show ?thesis by (simp add: worker_tick_def cl)
qed

lemma anti_entropy_touches: "touches storage_tables d (anti_entropy_round loc remote now d)"
proof -
  have put: "touches {TOutbox} d (snd (enqueue_put_for_peer p i fp tag now d))" for p i fp tag d
    by (rule foot_jobs(1) [OF prod.collapse [symmetric]])
  have heal: "touches storage_tables d (heal_entry p dg now d1 e)" if "touches storage_tables d d1" for p dg d1 e
    using that by (auto simp: heal_entry_def Let_def split: prod.split option.split intro: touches_step [OF put])
  show ?thesis
    unfolding anti_entropy_round_def
    by (rule foldl_touches) (auto simp: anti_entropy_peer_def split: option.split intro!: foldl_touches heal)
qed

definition event_tables :: "('a, 'h) machine \<Rightarrow> node_event \<Rightarrow> db \<Rightarrow> table set" where
  "event_tables M e d =
     (case e of
        AccountRequest hs c now \<Rightarrow>
          (case fst (auth_account (app_lib (env_app (mc_env M))) hs now d) of
             Inl _ \<Rightarrow> {TSessions} | Inr auth \<Rightarrow> writes (account_id auth) c d)
      | OpenRequest hs c now \<Rightarrow> open_tables c
      | _ \<Rightarrow> storage_tables)"

lemma refused_touches:
  assumes "fst (auth_account (app_lib (env_app E)) hs now (node_db n)) = Inl r"
  shows "oc_status (serve_account E hs c now n) = 401 \<and> oc_task (serve_account E hs c now n) = None
    \<and> touches {TSessions} (node_db n) (node_db (oc_node (serve_account E hs c now n)))"
  using assms by (auto simp: serve_account_def auth_account_def text_response_def split: option.splits prod.splits
      dest: foot_resolve_session)

lemma react_touches: "touches (event_tables M e (node_db (rn_node s))) (node_db (rn_node s)) (node_db (rn_node (react M e s)))"
proof (cases e)
  case (AccountRequest hs c now)
  let ?a = "fst (auth_account (app_lib (env_app (mc_env M))) hs now (node_db (rn_node s)))"
  show ?thesis
  proof (cases ?a)
    case (Inl r)
    then show ?thesis using refused_touches [OF Inl, of c] by (simp add: AccountRequest event_tables_def with_outcome_def)
  next
    case (Inr auth)
    then show ?thesis by (simp add: AccountRequest event_tables_def with_outcome_def serve_account_runs run_call_touches)
  qed
next
  case (OpenRequest hs c now)
  then show ?thesis by (simp add: event_tables_def with_outcome_def serve_open_touches)
next
  case (RehashRun k now)
  then show ?thesis by (simp add: event_tables_def rehash_run_touches split: prod.split)
next
  case (WorkerTick net peers_of now)
  then show ?thesis by (simp add: event_tables_def Let_def worker_tick_touches)
qed (simp_all add: event_tables_def Let_def sigv4_touches s3_serve_touches replicate_object_touches rpc_touches purge_tick_touches
    anti_entropy_touches)

section \<open>The node is ready\<close>

lemma ensure_assignments_ready:
  "set bs \<subseteq> bucket_id ` set (buckets d) \<Longrightarrow> p \<in> peer_id ` set (peers d) \<Longrightarrow>
   \<exists>d'. ensure_assignments bs p d = (Inr (), d') \<and> peers d' = peers d \<and> buckets d' = buckets d
     \<and> (\<forall>b \<in> set bs. node_row b p d' \<noteq> None) \<and> set (repl_peers d) \<subseteq> set (repl_peers d')"
proof (induction bs arbitrary: d)
  case (Cons b bs)
  obtain d1 where d1: "ensure_bucket_node_assignment b p DEFAULT_NODE_ALLOCATED_BYTES Soft d = (Inr (), d1)"
    "peers d1 = peers d" "buckets d1 = buckets d" "node_row b p d1 \<noteq> None" "set (repl_peers d) \<subseteq> set (repl_peers d1)"
  proof (cases "node_row b p d")
    case None
    let ?d1 = "repl_peers_update (\<lambda>rows. rows @ [\<lparr>bna_bucket_id = b, bna_peer_id = p,
        allocated_bytes = DEFAULT_NODE_ALLOCATED_BYTES, quota_mode = Soft\<rparr>]) d"
    have "node_row b p ?d1 \<noteq> None" using node_tbl.row_None [of "(b, p)" ?d1] unfolding node_row_def by simp
    with None that [of ?d1] Cons.prems show ?thesis by (simp add: ensure_bucket_node_assignment_def insert_node_def subset_iff)
  next
    case (Some r)
    then show ?thesis using that [of d] by (simp add: ensure_bucket_node_assignment_def)
  qed
  obtain d' where d': "ensure_assignments bs p d1 = (Inr (), d')" "peers d' = peers d1" "buckets d' = buckets d1"
    "\<forall>b \<in> set bs. node_row b p d' \<noteq> None" "set (repl_peers d1) \<subseteq> set (repl_peers d')"
    using Cons.IH [of d1] Cons.prems d1(2,3) by auto
  have "node_row b p d' \<noteq> None"
  proof -
    have "(b, p) \<in> (\<lambda>n. (bna_bucket_id n, bna_peer_id n)) ` set (repl_peers d1)"
      using d1(4) node_tbl.row_None [of "(b, p)" d1] unfolding node_row_def by simp
    then have "(b, p) \<in> (\<lambda>n. (bna_bucket_id n, bna_peer_id n)) ` set (repl_peers d')" using d'(5) by (rule rev_subsetD [OF _ image_mono])
    then show ?thesis using node_tbl.row_None [of "(b, p)" d'] unfolding node_row_def by simp
  qed
  then show ?case using d1 d' by auto
qed simp

lemma upsert_peer_ids: "peer_id ` set (peers (upsert_peer i e d)) = insert i (peer_id ` set (peers d))"
proof (cases "i \<in> peer_id ` set (peers d)")
  case True
  have "map peer_id (peers (upsert_peer i e d)) = map peer_id (peers d)"
    using True by (simp add: upsert_peer_def update_where_def comp_def)
  then have "peer_id ` set (peers (upsert_peer i e d)) = peer_id ` set (peers d)" by (metis set_map)
  with True show ?thesis by (simp add: insert_absorb)
qed (simp add: upsert_peer_def)

lemma upsert_peer_active:
  "\<exists>p \<in> set (peers (upsert_peer i e d)). peer_id p = i \<and> is_active p \<and> wireguard_endpoint p = e"
proof -
  have "is_active p \<and> wireguard_endpoint p = e" if p: "p \<in> set (peers (upsert_peer i e d))" "peer_id p = i" for p
  proof (cases "i \<in> peer_id ` set (peers d)")
    case True
    then obtain q where "q \<in> set (peers d)" "p = (if peer_id q = i then q\<lparr>wireguard_endpoint := e, is_active := True\<rparr> else q)"
      using p(1) by (auto simp: upsert_peer_def update_where_def)
    then show ?thesis using p(2) by (cases "peer_id q = i") simp_all
  next
    case False
    then have "p \<notin> set (peers d)" using p(2) by blast
    then show ?thesis using p(1) False by (simp add: upsert_peer_def)
  qed
  moreover have "i \<in> peer_id ` set (peers (upsert_peer i e d))" by (simp add: upsert_peer_ids)
  ultimately show ?thesis by blast
qed

lemma seed_touches: "touches {TPeers} d (seed_peers_from_config ps d)"
  unfolding seed_peers_from_config_def
  by (rule foldl_touches) (auto split: prod.split intro: touches_step [OF foot_peer(1)])

lemma ensure_assignments_touches: "ensure_assignments bs p d = (x, d') \<Longrightarrow> touches {TNodes} d d'"
proof (induction bs arbitrary: d)
  case (Cons b bs)
  obtain y d1 where e: "ensure_bucket_node_assignment b p DEFAULT_NODE_ALLOCATED_BYTES Soft d = (y, d1)" by force
  show ?case
  proof (cases y)
    case (Inl er)
    then show ?thesis using Cons.prems e foot_ensure_bucket_node_assignment [OF e] by simp
  next
    case (Inr u)
    then have "ensure_assignments bs p d1 = (x, d')" using Cons.prems e by simp
    from touches_step [OF Cons.IH [OF this] foot_ensure_bucket_node_assignment [OF e]] show ?thesis by simp
  qed
qed simp

lemma start_ready:
  assumes "db_ok d"
  shows "\<exists>s. start_node W c d f = (Inr s, node_db (rn_node s))
    \<and> touches {TPeers, TNodes} d (node_db (rn_node s)) \<and> db_ok (node_db (rn_node s))
    \<and> (\<exists>p \<in> set (peers (node_db (rn_node s))). peer_id p = cfg_node_id c \<and> is_active p
          \<and> wireguard_endpoint p = wl_addr_text W (rn_grpc s))
    \<and> (\<forall>b \<in> set (buckets d). node_row (bucket_id b) (node_id (rn_node s)) (node_db (rn_node s)) \<noteq> None)
    \<and> set (repl_peers d) \<subseteq> set (repl_peers (node_db (rn_node s)))
    \<and> wg_ready (rn_wg s) \<and> rn_tasks s = []"
proof -
  let ?seeds = "map (\<lambda>p. (seed_id p, seed_endpoint p)) (cluster_peers c)"
  define d1 where "d1 = upsert_peer (cfg_node_id c) (wl_addr_text W (grpc_bind_addr c)) (seed_peers_from_config ?seeds d)"
  have t1: "touches {TPeers} d d1"
    unfolding d1_def by (rule touches_step [OF foot_peer(1) seed_touches]) simp
  have b1: "buckets d1 = buckets d" "repl_peers d1 = repl_peers d"
    using touches_same [OF t1 assms, of TBuckets] touches_same [OF t1 assms, of TNodes] by simp_all
  obtain d2 where d2: "ensure_assignments (list_bucket_ids d1) (cfg_node_id c) d1 = (Inr (), d2)" "peers d2 = peers d1"
    "\<forall>b \<in> set (list_bucket_ids d1). node_row b (cfg_node_id c) d2 \<noteq> None" "set (repl_peers d1) \<subseteq> set (repl_peers d2)"
    using ensure_assignments_ready [of "list_bucket_ids d1" d1 "cfg_node_id c"]
    by (auto simp: list_bucket_ids_def d1_def upsert_peer_ids)
  have t2: "touches {TPeers, TNodes} d d2"
    using touches_step [OF ensure_assignments_touches [OF d2(1)] touches_mono [OF t1]] by simp
  define s where "s = \<lparr>rn_node = \<lparr>node_id = cfg_node_id c, node_engine = engine_init (path_display (cfg_storage_root c)),
      node_db = d2, node_fs = f, node_events = []\<rparr>,
    rn_wg = fst (wireguard_start W c), rn_http = http_bind c, rn_grpc = grpc_bind c, rn_tasks = [], rn_purging = True\<rparr>"
  have "start_node W c d f = (Inr s, d2)"
    using d2(1) by (simp add: start_node_def ensure_local_node_def Let_def d1_def s_def)
  moreover have "\<exists>p \<in> set (peers d2). peer_id p = cfg_node_id c \<and> is_active p \<and> wireguard_endpoint p = wl_addr_text W (grpc_bind c)"
    unfolding d2(2) grpc_bind_def d1_def by (rule upsert_peer_active)
  ultimately show ?thesis
    using t2 touches_ok [OF t2 assms] d2(3,4) b1 wireguard_start_ready
    by (intro exI [of _ s]) (simp add: s_def list_bucket_ids_def)
qed

text \<open>C12: A node starts on every database that satisfies the schema, and is then ready: it is an active peer of its own
  cluster at the address it listens on, every bucket has it among its nodes, the overlay is marked ready and no task
  runs. Starting writes the peers and the assignments only, and removes no assignment.\<close>

theorem start_node_ready:
  assumes "db_ok d"
  shows "\<exists>s. start_node W c d f = (Inr s, node_db (rn_node s))
    \<and> touches {TPeers, TNodes} d (node_db (rn_node s)) \<and> db_ok (node_db (rn_node s))
    \<and> (\<exists>p \<in> set (peers (node_db (rn_node s))). peer_id p = cfg_node_id c \<and> is_active p
          \<and> wireguard_endpoint p = wl_addr_text W (rn_grpc s))
    \<and> (\<forall>b \<in> set (buckets d). node_row (bucket_id b) (node_id (rn_node s)) (node_db (rn_node s)) \<noteq> None)
    \<and> set (repl_peers d) \<subseteq> set (repl_peers (node_db (rn_node s)))
    \<and> wg_ready (rn_wg s) \<and> rn_tasks s = []"
  by (rule start_ready [OF assms])

definition demo_machine :: "(string, string) machine" where
  "demo_machine = \<lparr>mc_env = demo_env, mc_sigv4_optional = None, mc_minus_secs = (\<lambda>t s. Some (t - s))\<rparr>"

lemma shared_bucket_ok: "db_ok shared_bucket_db"
  by code_simp

definition demo_wg :: "string wg_lib" where
  "demo_wg = \<lparr>wl_decode = (\<lambda>s. None), wl_decode_no_pad = (\<lambda>s. None), wl_device_new = (\<lambda>s. Inr ()), wl_addr_text = id,
     wl_interface = None\<rparr>"

theorem start_node_ready_witness:
  "\<exists>s. start_node demo_wg demo_config shared_bucket_db [] = (Inr s, node_db (rn_node s)) \<and> rn_tasks s = []"
  using start_node_ready [of shared_bucket_db demo_wg demo_config "[]"] shared_bucket_ok by blast

section \<open>Whatever happens\<close>

interpretation server: invariant_system "\<lambda>s. \<exists>W c d f d'. db_ok d \<and> start_node W c d f = (Inr s, d')" "server_step M"
  "\<lambda>s. db_ok (node_db (rn_node s))" for M
proof
  show "\<exists>W c d f d'. db_ok d \<and> start_node W c d f = (Inr s, d') \<Longrightarrow> db_ok (node_db (rn_node s))" for s
  proof (elim exE conjE)
    fix W c d f d' assume "db_ok d" "start_node W c d f = (Inr s, d')"
    then show "db_ok (node_db (rn_node s))" using start_ready [of d W c f] by auto
  qed
  show "db_ok (node_db (rn_node t))" if "db_ok (node_db (rn_node s))" "server_step M s t" for s t
    using that(2,1) by cases (blast intro: touches_ok [OF react_touches])
qed

text \<open>C2: The database of a node that was started on one in which they hold satisfies the constraints of the schema (every
  primary key and unique index, among them the names, the paths, the session tokens, the tokens and short codes of
  share links and the active keys of each bucket; every foreign key) and keeps its seeded rows (the default bucket, an owner
  role, the settings) at every moment: whatever requests, signed or not, calls of other nodes, worker ticks and tasks arrive
  after the start, in any order and with any content.\<close>

theorem server_constraints:
  assumes "db_ok d" "start_node W c d f = (Inr s, d')"
  shows "db_ok (node_db (rn_node (serve_events M es s)))"
  using server.reachable_inv [OF _ serve_events_steps] assms by blast

theorem server_constraints_witness:
  "\<exists>s d'. start_node demo_wg demo_config (initial_db 0) [] = (Inr s, d')
     \<and> db_ok (node_db (rn_node (serve_events demo_machine [OpenRequest [] (Bootstrap ''s'' ''a'' ''b'' ''c'' None) 1, PurgeTick 5] s)))"
proof -
  obtain s where s: "start_node demo_wg demo_config (initial_db 0) [] = (Inr s, node_db (rn_node s))"
    using start_ready [OF initial_db_ok] by blast
  from server_constraints [OF initial_db_ok s] s show ?thesis by blast
qed

section \<open>Bootstrapping happens once\<close>

text \<open>Operations that lose no account.\<close>

definition ids_kept :: "db \<Rightarrow> db \<Rightarrow> bool" where
  "ids_kept d d' \<longleftrightarrow> account_id ` set (accounts d) \<subseteq> account_id ` set (accounts d')"

lemma ids_kept_trans: "ids_kept d d1 \<Longrightarrow> ids_kept d1 d2 \<Longrightarrow> ids_kept d d2"
  by (auto simp: ids_kept_def)

lemma ids_kept_same: "accounts d' = accounts d \<Longrightarrow> ids_kept d d'"
  by (simp add: ids_kept_def)

lemma ids_kept_ops:
  "create_account argon salt u pw dn cb now d = (x1, d') \<Longrightarrow> ids_kept d d'"
  "update_account_display_name i n now d = (x2, d') \<Longrightarrow> ids_kept d d'"
  "set_account_disabled i b now d = (x3, d') \<Longrightarrow> ids_kept d d'"
  "set_account_password argon salt i pw now d = (x4, d') \<Longrightarrow> ids_kept d d'"
proof -
  have upd: "ids_kept d d'" if "update_account f i d = (x, d')" "\<And>a. account_id (f a) = account_id a" for f x
  proof -
    have "map account_id (update_where P f rows) = map account_id rows" for P rows
      using that(2) by (simp add: update_where_def)
    then have "account_id ` set (update_where P f rows) = account_id ` set rows" for P rows by (metis set_map)
    then show ?thesis using that(1) by (auto simp: update_account_def ids_kept_def simp del: set_map split: if_split_asm)
  qed
  show "create_account argon salt u pw dn cb now d = (x1, d') \<Longrightarrow> ids_kept d d'"
    by (auto simp: create_account_def ids_kept_def Let_def split: if_split_asm option.split_asm sum.split_asm)
  show "update_account_display_name i n now d = (x2, d') \<Longrightarrow> ids_kept d d'"
    unfolding update_account_display_name_def by (erule upd) simp
  show "set_account_disabled i b now d = (x3, d') \<Longrightarrow> ids_kept d d'"
    unfolding set_account_disabled_def by (erule upd) simp
  show "set_account_password argon salt i pw now d = (x4, d') \<Longrightarrow> ids_kept d d'"
    unfolding set_account_password_def by (auto split: sum.split_asm intro: upd ids_kept_same)
qed

lemma set_account_roles_accounts: "set_account_roles a rs d = (x, d') \<Longrightarrow> accounts d' = accounts d"
proof -
  have ins: "insert_account_roles a rs d0 = (y, d1) \<Longrightarrow> accounts d1 = accounts d0" for d0 y d1
    by (induction a rs d0 rule: insert_account_roles.induct)
       (auto simp: insert_account_role_def split: prod.split_asm sum.split_asm if_split_asm)
  show "set_account_roles a rs d = (x, d') \<Longrightarrow> accounts d' = accounts d"
    by (auto simp: set_account_roles_def split: prod.split_asm sum.split_asm dest!: ins)
qed

lemma account_routes_keep:
  "create_account_route argon salt r16 r32 auth dname rs now d = (r1, d') \<Longrightarrow> ids_kept d d'"
  "patch_account_route auth i dname dis now d = (r2, d') \<Longrightarrow> ids_kept d d'"
  "regenerate_password_route argon salt r32 auth i now d = (r3, d') \<Longrightarrow> ids_kept d d'"
proof -
  note [dest!] = ids_kept_ops and [simp] = ids_kept_same
  have del: "ids_kept d d1 \<Longrightarrow> ids_kept d (delete_sessions_for_account i d1)" for d d1 i
    by (simp add: ids_kept_def delete_sessions_for_account_def)
  show "create_account_route argon salt r16 r32 auth dname rs now d = (r1, d') \<Longrightarrow> ids_kept d d'"
    unfolding create_account_route_def owner_only_def
    by (auto simp: Let_def split: sum.split_asm prod.split_asm option.split_asm dest!: set_account_roles_accounts
        intro: ids_kept_trans)
  show "patch_account_route auth i dname dis now d = (r2, d') \<Longrightarrow> ids_kept d d'"
    unfolding patch_account_route_def owner_only_def
    by (auto split: sum.split_asm prod.split_asm option.split_asm if_split_asm intro: del ids_kept_trans)
  show "regenerate_password_route argon salt r32 auth i now d = (r3, d') \<Longrightarrow> ids_kept d d'"
    unfolding regenerate_password_route_def owner_only_def
    by (auto simp: Let_def split: sum.split_asm prod.split_asm option.split_asm intro: del)
qed

lemma session_account_exists:
  assumes "fst (auth_account L hs now d) = Inr auth"
  shows "account_id auth \<in> account_id ` set (accounts d)"
proof -
  obtain i where "get_account_by_id i d = Some auth"
    using assms by (auto simp: auth_account_def resolve_session_def split: option.splits if_splits)
  then have "auth \<in> set (accounts d)" unfolding get_account_by_id_def using acc_tbl.row_mem by blast
  then show ?thesis by blast
qed

text \<open>The account that deletes another stays, so some account is always left.\<close>

lemma delete_account_route_leaves:
  assumes "delete_account_route auth i d = (r, d')" "account_id auth \<in> account_id ` set (accounts d)"
  shows "accounts d' \<noteq> []"
proof -
  have "accounts d1 \<noteq> []" if "delete_account i d = (x, d1)" "i \<noteq> account_id auth" for x d1
  proof -
    obtain a where a: "a \<in> set (accounts d)" "account_id a = account_id auth" using assms(2) by force
    then have "a \<in> set (delete_where (\<lambda>a. account_id a = i) (accounts d))" using that(2) by (simp add: set_delete_where)
    then have "update_where P f (delete_where (\<lambda>a. account_id a = i) (accounts d)) \<noteq> []" for P f
      by (auto simp: update_where_def)
    then show ?thesis using that(1) a(1) by (auto simp: delete_account_def split: if_split_asm)
  qed
  then show ?thesis
    using assms by (auto simp: delete_account_route_def split: if_split_asm prod.split_asm sum.split_asm bool.split_asm)
qed

lemma admin_call_leaves:
  assumes "db_ok (node_db n)" "account_id auth \<in> account_id ` set (accounts (node_db n))"
  shows "accounts (node_db (oc_node (run_admin E auth c now n))) \<noteq> []"
proof -
  have keep: "accounts d' \<noteq> []" if "ids_kept (node_db n) d'" for d' using assms(2) that by (auto simp: ids_kept_def)
  have same: ?thesis if "TAccounts \<notin> admin_writes (account_id auth) c (node_db n)"
    using touches_same [OF admin_calls assms(1) that, of E now] assms(2) by auto
  show ?thesis
  proof (cases c)
    case (CreateAccount salt r16 r32 dname rs)
    then show ?thesis using keep [OF account_routes_keep(1) [OF prod.collapse [symmetric]]] by simp
  next
    case (PatchAccount i dname dis)
    then show ?thesis using keep [OF account_routes_keep(2) [OF prod.collapse [symmetric]]] by simp
  next
    case (RegeneratePassword salt r32 i)
    then show ?thesis using keep [OF account_routes_keep(3) [OF prod.collapse [symmetric]]] by simp
  next
    case (DeleteAccount i)
    then show ?thesis using delete_account_route_leaves [OF prod.collapse [symmetric] assms(2)] by simp
  qed (rule same; simp add: may_def)+
qed

lemma bootstrap_refused:
  assumes "accounts d \<noteq> []"
  shows "auth_bootstrap argon salt r16 r32 sb dname now d = (text_reply 409 ''bootstrap already completed'', d)"
proof -
  have "account_count d \<noteq> 0" using assms by (cases "accounts d") (auto simp: account_count_def count_where_0)
  then show ?thesis by (simp add: auth_bootstrap_def)
qed

lemma account_writers: "TAccounts \<in> writes a c d \<Longrightarrow> \<exists>x. c = Admin x"
proof (cases c)
  case (Bucket x)
  then show "TAccounts \<in> writes a c d \<Longrightarrow> ?thesis" by (cases x) (auto simp: may_def split: if_split_asm)
next
  case (Settings x)
  then show "TAccounts \<in> writes a c d \<Longrightarrow> ?thesis" by (cases x) (auto simp: may_def split: if_split_asm)
next
  case (Recycle x)
  then show "TAccounts \<in> writes a c d \<Longrightarrow> ?thesis"
    by (cases x) (auto simp: may_def deletable_def split: option.split_asm if_split_asm)
next
  case (Share x)
  then show "TAccounts \<in> writes a c d \<Longrightarrow> ?thesis"
    by (cases x) (auto simp: may_def in_bucket_def split: option.split_asm sum.split_asm if_split_asm)
next
  case (Object x)
  then show "TAccounts \<in> writes a c d \<Longrightarrow> ?thesis"
    by (cases x) (auto simp: may_def in_bucket_def split: sum.split_asm if_split_asm)
qed simp

lemma react_leaves:
  assumes "db_ok (node_db (rn_node s))" "accounts (node_db (rn_node s)) \<noteq> []"
  shows "accounts (node_db (rn_node (react M e s))) \<noteq> []"
proof -
  have same: ?thesis if "TAccounts \<notin> event_tables M e (node_db (rn_node s))"
    using touches_same [OF react_touches assms(1) that] assms(2) by simp
  show ?thesis
  proof (cases e)
    case (AccountRequest hs c now)
    show ?thesis
    proof (cases "fst (auth_account (app_lib (env_app (mc_env M))) hs now (node_db (rn_node s)))")
      case (Inl r)
      then show ?thesis by (intro same) (simp add: AccountRequest event_tables_def)
    next
      case (Inr auth)
      show ?thesis
      proof (cases "\<exists>x. c = Admin x")
        case True
        then show ?thesis
          using admin_call_leaves [OF assms(1) session_account_exists [OF Inr], of "mc_env M" _ now] serve_account_runs [OF Inr]
          by (auto simp: AccountRequest with_outcome_def)
      next
        case False
        then have "TAccounts \<notin> writes (account_id auth) c (node_db (rn_node s))" using account_writers by blast
        then show ?thesis by (intro same) (simp add: AccountRequest event_tables_def Inr)
      qed
    qed
  next
    case (OpenRequest hs c now)
    show ?thesis
    proof (cases c)
      case (Bootstrap salt r16 r32 sb dname)
      then show ?thesis
        using assms(2) by (simp add: OpenRequest with_outcome_def bootstrap_refused)
    qed (rule same, simp add: OpenRequest event_tables_def open_tables_def)+
  qed (rule same, simp add: event_tables_def storage_tables_def image_iff)+
qed

interpretation claimed: invariant_system "\<lambda>s. db_ok (node_db (rn_node s)) \<and> accounts (node_db (rn_node s)) \<noteq> []"
    "server_step M" "\<lambda>s. db_ok (node_db (rn_node s)) \<and> accounts (node_db (rn_node s)) \<noteq> []" for M
proof
  show "db_ok (node_db (rn_node t)) \<and> accounts (node_db (rn_node t)) \<noteq> []"
    if "db_ok (node_db (rn_node s)) \<and> accounts (node_db (rn_node s)) \<noteq> []" "server_step M s t" for s t
    using that(2,1) by cases (use touches_ok [OF react_touches] react_leaves in blast)
qed

text \<open>C10: A node can be claimed only once: from the moment an account exists, no sequence of events leads back to a node
  without accounts, so every later bootstrap request is refused with status 409 and changes nothing.\<close>

theorem claimed_for_good:
  assumes "db_ok (node_db (rn_node s))" "accounts (node_db (rn_node s)) \<noteq> []" "serve_events M es s = t"
  shows "oc_status (serve_open E hs (Bootstrap salt r16 r32 sb dname) now (rn_node t)) = 409
    \<and> node_db (oc_node (serve_open E hs (Bootstrap salt r16 r32 sb dname) now (rn_node t))) = node_db (rn_node t)"
proof -
  have "accounts (node_db (rn_node t)) \<noteq> []"
    using claimed.steps_inv [OF serve_events_steps, of s M es] assms by blast
  then show ?thesis
    by (simp add: bootstrap_refused on_db_def text_reply_def text_response_def)
qed

definition demo_running :: "string running" where
  "demo_running = \<lparr>rn_node = signed_in_node, rn_wg = wg_status_default, rn_http = [], rn_grpc = [], rn_tasks = [], rn_purging = True\<rparr>"

theorem claimed_for_good_witness:
  "oc_status (serve_open demo_env [] (Bootstrap ''s'' ''a'' ''b'' ''c'' None) 9
     (rn_node (serve_events demo_machine [AccountRequest session_headers (Admin (DeleteAccount 7)) 5] demo_running))) = 409"
proof -
  have "db_ok (node_db (rn_node demo_running))" "accounts (node_db (rn_node demo_running)) \<noteq> []" by code_simp+
  from claimed_for_good [OF this refl] show ?thesis by blast
qed

section \<open>A rehash that a restart interrupts\<close>

text \<open>C37: The state of a rehash is in the database but its task is not: a node that starts on a database where a bucket is
  marked as being rehashed has no task for it and does not start one, and refuses to, with status 409, when it is asked
  to recalculate.\<close>

theorem rehash_stranded:
  assumes "db_ok d" "start_node W c d f = (Inr s, d')"
    and "get_bucket_by_id b d = Some x" "etag_rehash_status x = Some ''running''"
    and "fst (auth_account (app_lib (env_app E)) hs now d') = Inr auth" "can_edit_bucket_replication (account_id auth) b d'"
  shows "rn_tasks s = [] \<and> oc_status (serve_account E hs (Bucket (PutEtag b et ''recalculate_all'')) now (rn_node s)) = 409
    \<and> oc_task (serve_account E hs (Bucket (PutEtag b et ''recalculate_all'')) now (rn_node s)) = None"
proof -
  obtain s1 where s1: "start_node W c d f = (Inr s1, node_db (rn_node s1))" "touches {TPeers, TNodes} d (node_db (rn_node s1))"
    "rn_tasks s1 = []"
    using start_ready [OF assms(1)] by blast
  then have s: "rn_tasks s = []" "node_db (rn_node s) = d'" "touches {TPeers, TNodes} d d'" using assms(2) by simp_all
  have "buckets d' = buckets d" using touches_same [OF s(3) assms(1), of TBuckets] by simp
  then have "get_bucket_by_id b d' = Some x" using assms(3) by (simp add: get_bucket_by_id_def)
  moreover have "trim ''recalculate_all'' = ''recalculate_all''" by code_simp
  ultimately show ?thesis
    using assms(4-6) s(1,2) serve_account_runs [of E hs now "rn_node s" auth]
    by (simp add: put_bucket_etag_route_def require_replication_editor_def text_reply_def text_response_def)
qed

definition rehashing_db :: "string option \<Rightarrow> db" where
  "rehashing_db st = (node_db signed_in_node)\<lparr>buckets := map (\<lambda>x. x\<lparr>etag_rehash_status := st\<rparr>) (buckets (node_db signed_in_node))\<rparr>"

theorem rehash_stranded_witness:
  "\<exists>s d'. start_node demo_wg demo_config (rehashing_db (Some ''running'')) [] = (Inr s, d') \<and> rn_tasks s = []
     \<and> oc_status (serve_account demo_env session_headers (Bucket (PutEtag 2 Sha256 ''recalculate_all'')) 9 (rn_node s)) = 409"
proof -
  let ?d = "rehashing_db (Some ''running'')"
  have ok: "db_ok ?d" and b: "get_bucket_by_id 2 ?d = Some (buckets ?d ! 1)" "etag_rehash_status (buckets ?d ! 1) = Some ''running''"
    by code_simp+
  obtain s where s: "start_node demo_wg demo_config ?d [] = (Inr s, node_db (rn_node s))"
    using start_ready [OF ok] by blast
  have "node_db (rn_node s) = snd (start_node demo_wg demo_config ?d [])" using s by simp
  also have "fst (auth_account (app_lib (env_app demo_env)) session_headers 9 \<dots>) = Inr reader
      \<and> can_edit_bucket_replication (account_id reader) 2 \<dots>" by code_simp
  finally show ?thesis using rehash_stranded [OF ok s b] s by blast
qed

section \<open>The purge worker can be lost\<close>

lemma with_outcome_purging [simp]: "rn_purging (with_outcome oc s) = rn_purging s"
  by (simp add: with_outcome_def)

lemma purging_off: "\<not> rn_purging s \<Longrightarrow> \<not> rn_purging (react M e s)"
  by (cases e) (simp_all add: Let_def purge_tick_def split: prod.split)

lemma purging_stays_off: "\<not> rn_purging s \<Longrightarrow> \<not> rn_purging (serve_events M es s)"
  by (induction es arbitrary: s) (simp_all add: purging_off)

text \<open>A retention whose length in seconds the clock cannot subtract ends the purge worker at its next tick, and with it
  every purge until the process is started again: after any further events, among them requests that correct the
  retention, a tick changes nothing.\<close>

theorem purge_worker_lost:
  assumes "settings (node_db (rn_node s)) = Some st"
    and "mc_minus_secs M now (max (to_seconds (recycle_retention_unit st) (recycle_retention_value st)) 0) = None"
  shows "react M (PurgeTick later) (serve_events M es (react M (PurgeTick now) s)) = serve_events M es (react M (PurgeTick now) s)"
proof -
  have "\<not> rn_purging (react M (PurgeTick now) s)"
    using assms by (simp add: purge_tick_def purge_once_def get_settings_def Let_def)
  then have off: "\<not> rn_purging (serve_events M es (react M (PurgeTick now) s))" by (rule purging_stays_off)
  have "react M (PurgeTick later) t = t" if "\<not> rn_purging t" for t using that by (simp add: purge_tick_def)
  from this [OF off] show ?thesis .
qed

definition long_retention_node :: "string running" where
  "long_retention_node = demo_running\<lparr>rn_node := signed_in_node\<lparr>
     node_db := snd (set_recycle_retention 9223372036854775807 Decade (node_db signed_in_node))\<rparr>\<rparr>"

definition chrono_machine :: "(string, string) machine" where
  "chrono_machine = demo_machine\<lparr>mc_minus_secs := \<lambda>t k. if k \<le> 9223372036854775 then Some (t - k) else None\<rparr>"

theorem purge_worker_lost_witness:
  "react chrono_machine (PurgeTick 300) (serve_events chrono_machine [PurgeTick 120, PingRpc ''n2'' ''ip'' 130] (react chrono_machine (PurgeTick 60) long_retention_node))
     = serve_events chrono_machine [PurgeTick 120, PingRpc ''n2'' ''ip'' 130] (react chrono_machine (PurgeTick 60) long_retention_node)"
proof -
  let ?st = "\<lparr>recycle_retention_value = 9223372036854775807, recycle_retention_unit = Decade\<rparr>"
  have "settings (node_db (rn_node long_retention_node)) = Some ?st"
    "mc_minus_secs chrono_machine 60 (max (to_seconds (recycle_retention_unit ?st) (recycle_retention_value ?st)) 0) = None"
    by code_simp+
  from purge_worker_lost [OF this] show ?thesis .
qed

end
