(* ===== verification/Dashboard.thy ===== *)
theory Dashboard
  imports Tui
begin

text \<open>
  The terminal dashboard: its loop (\<open>src/tui/mod.rs\<close>) and the texts it draws (\<open>src/tui/ui.rs\<close>). A frame reads
  what happened since the last one. Formatting of floating-point numbers is a parameter, as are the terminal's layout
  and colours; texts are UTF-8 bytes.
\<close>

section \<open>The loop\<close>

datatype key_code = KChar char | KOther

record key_press =
  kp_pressed :: bool
  kp_code :: key_code
  kp_control :: bool

definition is_quit :: "key_press \<Rightarrow> bool" where
  "is_quit k \<longleftrightarrow> kp_pressed k \<and> (kp_code k = KChar (CHR ''q'') \<or> kp_code k = KChar (CHR ''Q'')
     \<or> (kp_code k = KChar (CHR ''c'') \<and> kp_control k))"

text \<open>What polling the terminal for one frame gives; a key is only one of the events it reads.\<close>

datatype polled = Poll_Error | No_Key | Key key_press

text \<open>
  One frame: the events in the channel, whether two seconds have passed, what the disk reports, whether drawing
  works, what was polled, and whether the node is shutting down.
\<close>

record frame_input =
  fi_events :: "server_event list"
  fi_disk_due :: bool
  fi_disk :: "(64 word \<times> 64 word) option"
  fi_drawn :: bool
  fi_key :: polled
  fi_shutdown :: bool

text \<open>How the loop ends: by a key, which shuts the node down, with the node, or with an error.\<close>

datatype loop_end = Quit | Closed | Failed

definition frame_state :: "frame_input \<Rightarrow> tui_state \<Rightarrow> tui_state" where
  "frame_state i s =
     (let s1 = foldl (\<lambda>s e. tui_apply e s) s (fi_events i) in
      if fi_disk_due i then
        tick_throughput (case fi_disk i of None \<Rightarrow> s1 | Some (used, cap) \<Rightarrow> s1\<lparr>disk_used := used, disk_capacity := cap\<rparr>)
      else s1)"

fun tui_run :: "frame_input list \<Rightarrow> tui_state \<Rightarrow> tui_state \<times> loop_end option" where
  "tui_run [] s = (s, None)"
| "tui_run (i # is) s =
     (let s1 = frame_state i s in
      if \<not> fi_drawn i then (s1, Some Failed)
      else (case fi_key i of
          Poll_Error \<Rightarrow> (s1, Some Failed)
        | No_Key \<Rightarrow> if fi_shutdown i then (s1, Some Closed) else tui_run is s1
        | Key k \<Rightarrow>
            if is_quit k then (s1, Some Quit)
            else if fi_shutdown i then (s1, Some Closed)
            else tui_run is s1))"

section \<open>What is drawn\<close>

text \<open>\<open>decimals k n d\<close> is \<open>n / d\<close> with \<open>k\<close> digits after the point, as the formatter prints it.\<close>

definition human :: "(nat \<Rightarrow> nat \<Rightarrow> nat \<Rightarrow> string) \<Rightarrow> 64 word \<Rightarrow> string" where
  "human decimals n =
     (let k = unat n in
      if k \<ge> 2 ^ 30 then decimals 2 k (2 ^ 30) @ '' GiB''
      else if k \<ge> 2 ^ 20 then decimals 1 k (2 ^ 20) @ '' MiB''
      else if k \<ge> 2 ^ 10 then decimals 1 k (2 ^ 10) @ '' KiB''
      else show_nat k @ '' B'')"

text \<open>The filled share of the disk as a fraction, clamped to one; \<open>percent n d\<close> prints \<open>n / d\<close> times 100.\<close>

definition gauge_ratio :: "tui_state \<Rightarrow> 64 word \<times> 64 word" where
  "gauge_ratio s =
     (if disk_capacity s = 0 then (0, 1)
      else if disk_used s > disk_capacity s then (1, 1)
      else (disk_used s, disk_capacity s))"

definition gauge_label :: "(nat \<Rightarrow> nat \<Rightarrow> nat \<Rightarrow> string) \<Rightarrow> (64 word \<Rightarrow> 64 word \<Rightarrow> string) \<Rightarrow> tui_state \<Rightarrow> string" where
  "gauge_label decimals percent s =
     ''Disk '' @ case_prod percent (gauge_ratio s) @ ''%  '' @ human decimals (disk_used s) @ '' / ''
       @ human decimals (disk_capacity s) @ ''  objects='' @ show_nat (unat (object_count s))"

definition traffic_title :: "(nat \<Rightarrow> nat \<Rightarrow> nat \<Rightarrow> string) \<Rightarrow> tui_state \<Rightarrow> string" where
  "traffic_title decimals s =
     ''Throughput '' @ [CHR 0xE2, CHR 0x86, CHR 0x91] @ human decimals (bytes_up s) @ '' ''
       @ [CHR 0xE2, CHR 0x86, CHR 0x93] @ human decimals (bytes_down s) @ '' peers='' @ show_nat (length (tui_peers s))"

fun join_lines :: "string list \<Rightarrow> string" where
  "join_lines [] = []"
| "join_lines [x] = x"
| "join_lines (x # y # ys) = x @ CHR 0x0A # join_lines (y # ys)"

definition peers_text :: "tui_state \<Rightarrow> string" where
  "peers_text s = (if tui_peers s = [] then ''none'' else join_lines (tui_peers s))"

definition dash :: string where "dash = [CHR 0xE2, CHR 0x80, CHR 0x94]"
definition ellipsis :: string where "ellipsis = [CHR 0xE2, CHR 0x80, CHR 0xA6]"

text \<open>\<open>&etag[..12]\<close> panics inside a character: \<open>None\<close>. A byte that continues one starts with the bits 10.\<close>

definition continuation :: "char \<Rightarrow> bool" where
  "continuation c \<longleftrightarrow> 128 \<le> (of_char c :: nat) \<and> (of_char c :: nat) < 192"

definition etag_cell :: "recent_object \<Rightarrow> string option" where
  "etag_cell ob =
     (if length (ro_etag ob) > 12
      then (if continuation (ro_etag ob ! 12) then None else Some (take 12 (ro_etag ob) @ ellipsis))
      else if ro_etag ob = [] then Some dash else Some (ro_etag ob))"

definition table_row :: "(nat \<Rightarrow> nat \<Rightarrow> nat \<Rightarrow> string) \<Rightarrow> recent_object \<Rightarrow> string list option" where
  "table_row decimals ob =
     map_option (\<lambda>tag. [ro_filename ob, human decimals (of_int (ro_size ob)), tag,
         if ro_algorithm ob = [] then dash else ro_algorithm ob]) (etag_cell ob)"

fun table_rows :: "(nat \<Rightarrow> nat \<Rightarrow> nat \<Rightarrow> string) \<Rightarrow> recent_object list \<Rightarrow> string list list option" where
  "table_rows decimals [] = Some []"
| "table_rows decimals (ob # obs) =
     (case table_row decimals ob of None \<Rightarrow> None | Some r \<Rightarrow> map_option ((#) r) (table_rows decimals obs))"

section \<open>What the operator sees\<close>

text \<open>No event carries an entity tag or an algorithm, so no recent object ever has one.\<close>

definition tagless :: "tui_state \<Rightarrow> bool" where
  "tagless s \<longleftrightarrow> (\<forall>ob \<in> set (recent s). ro_etag ob = [] \<and> ro_algorithm ob = [])"

lemma tui_ok_disk [simp]: "tui_ok (s\<lparr>disk_used := u, disk_capacity := c\<rparr>) \<longleftrightarrow> tui_ok s"
  by (simp add: tui_ok_def)

lemma tagless_disk [simp]: "tagless (s\<lparr>disk_used := u, disk_capacity := c\<rparr>) \<longleftrightarrow> tagless s"
  by (simp add: tagless_def)

lemma tagless_tick [simp]: "tagless (tick_throughput s) \<longleftrightarrow> tagless s"
  by (simp add: tagless_def tick_throughput_def Let_def)

lemma tagless_apply: "tagless s \<Longrightarrow> tagless (tui_apply e s)"
  by (cases e) (auto simp: tagless_def pop_while_take dest: in_set_takeD)

definition shown_ok :: "tui_state \<Rightarrow> bool" where
  "shown_ok s \<longleftrightarrow> tui_ok s \<and> tagless s"

lemma shown_events: "shown_ok s \<Longrightarrow> shown_ok (foldl (\<lambda>s e. tui_apply e s) s es)"
  by (induction es arbitrary: s) (simp_all add: shown_ok_def tui_ok_apply tagless_apply)

lemma frame_state_ok: "shown_ok s \<Longrightarrow> shown_ok (frame_state i s)"
  using shown_events [of s "fi_events i"]
  by (simp add: frame_state_def Let_def shown_ok_def tui_ok_tick split: option.split)

lemma tui_run_ok: "shown_ok s \<Longrightarrow> shown_ok (fst (tui_run is s))"
  by (induction "is" s rule: tui_run.induct) (simp_all add: Let_def frame_state_ok split: polled.split)

lemma table_rows_tagless:
  "(\<forall>ob \<in> set obs. ro_etag ob = [] \<and> ro_algorithm ob = []) \<Longrightarrow>
   table_rows decimals obs = Some (map (\<lambda>ob. [ro_filename ob, human decimals (of_int (ro_size ob)), dash, dash]) obs)"
  by (induction obs) (simp_all add: table_row_def etag_cell_def)

text \<open>
  Whatever the node reports and whatever is typed, drawing the table of recent objects never panics, it has at most
  50 rows, and its ETag and Algorithm columns show a dash in every one of them.
\<close>

theorem table_never_tagged:
  "\<exists>rows. table_rows decimals (recent (fst (tui_run frames tui_default))) = Some rows \<and> length rows \<le> 50
     \<and> map (drop 2) rows = replicate (length rows) [dash, dash]"
proof -
  have "shown_ok (fst (tui_run frames tui_default))"
    by (rule tui_run_ok) (simp add: shown_ok_def tui_ok_def tagless_def tui_default_def)
  then show ?thesis
    by (simp add: shown_ok_def tui_ok_def tagless_def table_rows_tagless o_def map_replicate_const)
qed

text \<open>A cell the code can panic on: a tag of 13 bytes whose twelfth byte boundary is inside a character.\<close>

lemma etag_cell_panics:
  "etag_cell \<lparr>ro_filename = [], ro_size = 0, ro_etag = replicate 11 (CHR ''a'') @ [CHR 0xC3, CHR 0xA9], ro_algorithm = []\<rparr> = None"
  by (simp add: etag_cell_def continuation_def numeral_eq_Suc)

end
