(* ===== verification/Recovery.thy ===== *)
theory Recovery
  imports Account_Routes Invariants
begin

text \<open>
  The recovery tool \<open>examples/reset_password.rs\<close>: an operator at the machine gives an account a new random password,
  directly in the database file. The result is what it prints, or the message it ends with; statements it has run stay.
\<close>

section \<open>The tool\<close>

record credentials =
  cr_display_name :: string
  cr_username :: string
  cr_password :: string

definition reset_password ::
  "(string \<Rightarrow> string \<Rightarrow> string + string) \<Rightarrow> string \<Rightarrow> string \<Rightarrow> int \<Rightarrow> time \<Rightarrow> db \<Rightarrow> (string + credentials) \<times> db" where
  "reset_password argon salt buf i now d =
     (case get_account_by_id i d of
        None \<Rightarrow> (Inl (''no account with id '' @ show_int i), d)
      | Some row \<Rightarrow>
          let password = random_hex buf in
          (case argon salt password of
             Inl e \<Rightarrow> (Inl (''hash password: '' @ e), d)
           | Inr h \<Rightarrow>
               let updated = count_where (\<lambda>a. account_id a = i) (accounts d);
                   d1 = accounts_update (update_where (\<lambda>a. account_id a = i)
                          (\<lambda>a. a\<lparr>password_hash := h, account_updated_utc := now\<rparr>)) d in
               if updated \<noteq> 1 then (Inl (''expected to update 1 row, updated '' @ show_int updated), d1)
               else (Inr \<lparr>cr_display_name = display_name row, cr_username = username_hex row, cr_password = password\<rparr>, d1)))"

text \<open>The arguments after the program's name, and whether the file exists.\<close>

definition reset_usage :: string where
  "reset_usage = ''usage: reset_password <db_path> <account_id>''"

definition reset_main ::
  "(string \<Rightarrow> bool) \<Rightarrow> (string \<Rightarrow> string \<Rightarrow> string + string) \<Rightarrow> string \<Rightarrow> string \<Rightarrow> string list \<Rightarrow> time \<Rightarrow> db
     \<Rightarrow> (string + credentials) \<times> db" where
  "reset_main file_exists argon salt buf args now d =
     (case args of
        db_path # text # _ \<Rightarrow>
          (case parse_i64 text of
             None \<Rightarrow> (Inl ''account_id must be an integer'', d)
           | Some i \<Rightarrow>
               if \<not> file_exists db_path then (Inl (''database not found: '' @ db_path), d)
               else reset_password argon salt buf i now d)
      | _ \<Rightarrow> (Inl reset_usage, d))"

section \<open>What it does\<close>

lemma filter_by_key: "distinct (map k xs) \<Longrightarrow> x \<in> set xs \<Longrightarrow> filter (\<lambda>y. k y = k x) xs = [x]"
  by (induction xs) (auto simp: filter_empty_conv image_iff)

text \<open>On a database that satisfies the schema the tool updates one row: its last check never fails.\<close>

lemma reset_password_set:
  assumes "db_ok d"
  shows "reset_password argon salt buf i now d =
    (case get_account_by_id i d of
       None \<Rightarrow> (Inl (''no account with id '' @ show_int i), d)
     | Some a \<Rightarrow>
         (case set_account_password argon salt i (random_hex buf) now d of
            (Inl e, d1) \<Rightarrow> (Inl (err_msg e), d1)
          | (Inr _, d1) \<Rightarrow>
              (Inr \<lparr>cr_display_name = display_name a, cr_username = username_hex a, cr_password = random_hex buf\<rparr>, d1)))"
proof (cases "get_account_by_id i d")
  case (Some a)
  then have mem: "a \<in> set (accounts d)" "account_id a = i" unfolding get_account_by_id_def by (blast dest: acc_tbl.row_mem)+
  have "distinct (map account_id (accounts d))" using assms by (simp add: db_ok_def keys_ok_def keyed_ok_def)
  from filter_by_key [OF this mem(1)] have "filter (\<lambda>x. account_id x = i) (accounts d) = [a]" using mem(2) by simp
  then have "count_where (\<lambda>x. account_id x = i) (accounts d) = 1" by (simp add: count_where_def)
  then show ?thesis
    using Some by (simp add: reset_password_def set_account_password_def hash_password_def update_account_def Let_def split: sum.split)
qed (simp add: reset_password_def)

lemma trim_random_hex: "trim (random_hex bs) = random_hex bs"
proof -
  have h: "list_all hex_char (random_hex bs)" by (simp add: random_hex_def hex_encode_chars)
  have "plain_char c" if "c \<in> set (random_hex bs)" for c
    using h that hex_char_plain by (auto simp: list_all_iff)
  then show ?thesis by (intro trim_plain) (metis hd_in_set last_in_set)
qed

text \<open>
  The credentials the tool prints sign the account in, unless it is disabled, which the tool does not change: a login
  with them is answered 200 for an enabled account and 403 for a disabled one. It keeps the constraints, the sessions,
  and every other account.
\<close>

theorem reset_password_restores:
  assumes ok: "db_ok d" and run: "reset_password argon salt buf i now d = (Inr c, d1)"
    and hash: "\<And>h. argon salt (cr_password c) = Inr h \<Longrightarrow> verify_password phc argon_verify (cr_password c) h = Inr True"
    and user: "trim (cr_username c) = cr_username c" and fresh: "generate_session_token bytes \<notin> token ` set (sessions d)"
  shows "\<exists>a. get_account_by_id i d1 = Some a \<and> username_hex a = cr_username c
    \<and> reply_status (fst (auth_login phc argon_verify bytes (cr_username c) (cr_password c) later d1))
        = (if is_disabled a then 403 else 200)
    \<and> db_ok d1 \<and> sessions d1 = sessions d \<and> (\<forall>j. j \<noteq> i \<longrightarrow> get_account_by_id j d1 = get_account_by_id j d)"
proof -
  obtain a where a: "get_account_by_id i d = Some a" using run by (cases "get_account_by_id i d") (auto simp: reset_password_def)
  then have mem: "a \<in> set (accounts d)" "account_id a = i" unfolding get_account_by_id_def by (blast dest: acc_tbl.row_mem)+
  obtain x where set: "set_account_password argon salt i (random_hex buf) now d = (Inr x, d1)"
    and c: "c = \<lparr>cr_display_name = display_name a, cr_username = username_hex a, cr_password = random_hex buf\<rparr>"
    using run a by (auto simp: reset_password_set [OF ok] split: prod.split_asm sum.split_asm)
  obtain h where h: "argon salt (random_hex buf) = Inr h"
    using set by (auto simp: set_account_password_def hash_password_def split: sum.split_asm)
  let ?f = "\<lambda>a. a\<lparr>password_hash := h, account_updated_utc := now\<rparr>"
  have d1: "d1 = accounts_update (update_where (\<lambda>a. account_id a = i) ?f) d"
    using set h by (auto simp: set_account_password_def hash_password_def update_account_def split: if_split_asm)
  have rows: "get_account_by_id j d1 = (if j = i then map_option ?f (get_account_by_id j d) else get_account_by_id j d)" for j
    unfolding d1 get_account_by_id_def by (rule acc_tbl.row_update) simp
  have ok1: "db_ok d1" by (rule set_account_password_ok [OF set ok])
  have mem1: "?f a \<in> set (accounts d1)" using mem by (force simp: d1 update_where_def)
  have "distinct (map username_hex (accounts d1))" using ok1 by (simp add: db_ok_def keys_ok_def uniq_def)
  then have name: "get_account_by_username (username_hex a) d1 = Some (?f a)"
    unfolding get_account_by_username_def row_by_def using mem1
    by (intro select_one_unique) (auto simp: distinct_map inj_on_def)
  have ids: "account_id a \<in> account_id ` set (accounts d1)" using imageI [OF mem1, of account_id] by simp
  have ses: "sessions d1 = sessions d" by (simp add: d1)
  have "reply_status (fst (auth_login phc argon_verify bytes (cr_username c) (cr_password c) later d1)) = (if is_disabled a then 403 else 200)"
    using name user hash [of h] h fresh ids
    by (simp add: auth_login_def c trim_random_hex create_session_def Let_def ses text_reply_def text_response_def)
  then show ?thesis using a rows ok1 ses by (intro exI [of _ "?f a"]) (simp add: c)
qed

theorem reset_password_restores_witness:
  "reply_status (fst (auth_login Inr (=) ''x'' ''ab'' ''7a'' 10 (snd (reset_password (\<lambda>salt pw. Inr pw) ''s'' ''z'' 4 9 login_db)))) = 200"
proof -
  let ?c = "\<lparr>cr_display_name = [], cr_username = ''ab'', cr_password = ''7a''\<rparr>"
  have "fst (reset_password (\<lambda>salt pw. Inr pw) ''s'' ''z'' 4 9 login_db) = Inr ?c" by code_simp
  then obtain d1 where run: "reset_password (\<lambda>salt pw. Inr pw) ''s'' ''z'' 4 9 login_db = (Inr ?c, d1)" by (metis prod.collapse)
  have h: "db_ok login_db" "trim (cr_username ?c) = cr_username ?c"
    "generate_session_token ''x'' \<notin> token ` set (sessions login_db)" by code_simp+
  obtain a where a: "get_account_by_id 4 d1 = Some a"
    "reply_status (fst (auth_login Inr (=) ''x'' ''ab'' ''7a'' 10 d1)) = (if is_disabled a then 403 else 200)"
    using reset_password_restores [OF h(1) run _ h(2,3), of Inr "(=)" 10] by (auto simp: verify_password_def)
  have "\<not> is_disabled (the (get_account_by_id 4 (snd (reset_password (\<lambda>salt pw. Inr pw) ''s'' ''z'' 4 9 login_db))))" by code_simp
  then show ?thesis using a run by simp
qed

end
