(* ===== verification/Keystore.thy ===== *)
theory Keystore
  imports Serving Recycle_Routes
begin

text \<open>
  The S3 routes as seen from outside: a store of versions by bucket and key, with the quotas of the bucket that S3
  writes to. Any state the database's constraints allow is a state of the store, whoever wrote it.
\<close>

section \<open>The store a client sees\<close>

text \<open>
  A version is the size its row tells and the bytes of its blob, if the blob is there. S3 writes to one bucket,
  the home bucket, but reads and deletes a key in whatever bucket has it.
\<close>

record shelf =
  sh_home :: int
  sh_items :: "int \<Rightarrow> string \<Rightarrow> (int \<times> string option) option"
  sh_used :: int
  sh_limits :: "int list"

definition home_of :: "db \<Rightarrow> int" where
  "home_of d = (case find (\<lambda>x. bucket_name x = ''storage'') (buckets d) of Some x \<Rightarrow> bucket_id x | None \<Rightarrow> 0)"

definition version_of :: "node \<Rightarrow> object_record \<Rightarrow> int \<times> string option" where
  "version_of n r = (filesize_bytes r, row_blob n r)"

definition shelf_of :: "node \<Rightarrow> shelf" where
  "shelf_of n = (let d = node_db n; home = home_of d in
     \<lparr>sh_home = home,
      sh_items = (\<lambda>b k. map_option (version_of n) (find (is_key_row b k) (objects d))),
      sh_used = sum_list (map filesize_bytes (filter (\<lambda>r. obj_bucket_id r = home \<and> obj_active r) (objects d))),
      sh_limits = map allocated_bytes (filter (\<lambda>q. bna_bucket_id q = home \<and> quota_mode q = Hard) (repl_peers d))\<rparr>)"

definition item_size :: "shelf \<Rightarrow> int \<Rightarrow> string \<Rightarrow> int" where
  "item_size m b k = (case sh_items m b k of Some (sz, _) \<Rightarrow> sz | None \<Rightarrow> 0)"

text \<open>An upload fits if it does not grow the bucket, or the grown bucket is within every hard quota.\<close>

definition fits :: "shelf \<Rightarrow> string \<Rightarrow> int \<Rightarrow> bool" where
  "fits m k len \<longleftrightarrow> len \<le> item_size m (sh_home m) k
     \<or> list_all (\<lambda>q. sat_i64 (sh_used m + sat_i64 (len - item_size m (sh_home m) k)) \<le> q) (sh_limits m)"

definition put_item :: "string \<Rightarrow> string \<Rightarrow> shelf \<Rightarrow> shelf" where
  "put_item k bs m = m\<lparr>
     sh_items := (sh_items m)(sh_home m := (sh_items m (sh_home m))(k \<mapsto> (int (length bs), Some bs))),
     sh_used := sh_used m - item_size m (sh_home m) k + int (length bs)\<rparr>"

definition drop_item :: "int \<Rightarrow> string \<Rightarrow> shelf \<Rightarrow> shelf" where
  "drop_item b k m = m\<lparr>
     sh_items := (sh_items m)(b := (sh_items m b)(k := None)),
     sh_used := (if b = sh_home m then sh_used m - item_size m b k else sh_used m)\<rparr>"

text \<open>The bytes of a request body, unless its stream breaks.\<close>

fun stream_bytes :: "stream \<Rightarrow> string option" where
  "stream_bytes [] = Some []"
| "stream_bytes (Inl e # items) = None"
| "stream_bytes (Inr c # items) = map_option ((@) c) (stream_bytes items)"

text \<open>What each request may answer, and what it makes of the store.\<close>

fun shelf_step :: "s3_request \<Rightarrow> shelf \<Rightarrow> int \<Rightarrow> string \<Rightarrow> shelf \<Rightarrow> bool" where
  "shelf_step (S3Put uuid raw hs items) m st body m' \<longleftrightarrow>
     (case normalize_object_key raw of
        Inl msg \<Rightarrow> st = 400 \<and> m' = m
      | Inr k \<Rightarrow> (case stream_bytes items of
          None \<Rightarrow> st = 500 \<and> m' = m
        | Some bs \<Rightarrow> if fits m k (int (length bs)) then st = 200 \<and> m' = put_item k bs m else st = 413 \<and> m' = m))"
| "shelf_step (S3Get raw) m st body m' \<longleftrightarrow> m' = m \<and>
     (case normalize_object_key raw of
        Inl msg \<Rightarrow> st = 400
      | Inr k \<Rightarrow> if (\<forall>b. sh_items m b k = None) then st = 404
          else (\<exists>b sz blob. sh_items m b k = Some (sz, blob)
            \<and> (case blob of None \<Rightarrow> st = 500 | Some bs \<Rightarrow> st = 200 \<and> body = bs)))"
| "shelf_step (S3Delete raw) m st body m' \<longleftrightarrow>
     (case normalize_object_key raw of
        Inl msg \<Rightarrow> st = 400 \<and> m' = m
      | Inr k \<Rightarrow> st = 204
          \<and> (if (\<forall>b. sh_items m b k = None) then m' = m else (\<exists>b. sh_items m b k \<noteq> None \<and> m' = drop_item b k m)))"
| "shelf_step S3List m st body m' \<longleftrightarrow> st = 200 \<and> m' = m"

text \<open>The UUID drawn for an upload is new: no row's blob lies where the upload is written.\<close>

fun fresh_request :: "lib \<Rightarrow> s3_request \<Rightarrow> node \<Rightarrow> bool" where
  "fresh_request L (S3Put uuid raw hs items) n \<longleftrightarrow>
     (case normalize_object_key raw of Inl _ \<Rightarrow> True
      | Inr k \<Rightarrow> absolute_path_for (node_engine n) (relative_filepath uuid (extension_from_filename (lib_lower L) k))
                   \<notin> set (map (\<lambda>r. absolute_path_for (node_engine n) (filepath r)) (objects (node_db n))))"
| "fresh_request L _ n \<longleftrightarrow> True"

section \<open>The rows of a key\<close>

lemma home_bucket:
  assumes "db_ok d"
  shows "default_bucket_id d = Inr (home_of d)" "home_of d \<in> bucket_id ` set (buckets d)"
proof -
  obtain b where b: "default_bucket_id d = Inr b" "b \<in> bucket_id ` set (buckets d)" using default_bucket_ok [OF assms] .
  then have "b = home_of d"
    by (auto simp: default_bucket_id_def home_of_def get_bucket_by_name_def row_by_def select_one_def split: option.splits)
  with b show "default_bucket_id d = Inr (home_of d)" "home_of d \<in> bucket_id ` set (buckets d)" by simp_all
qed

lemma home_of_cong: "buckets d' = buckets d \<Longrightarrow> home_of d' = home_of d"
  by (simp add: home_of_def)

lemma find_SomeD: "find P xs = Some r \<Longrightarrow> r \<in> set xs \<and> P r"
  by (auto simp: find_Some_iff)

lemma find_key_iff:
  assumes "db_ok d"
  shows "find (is_key_row b k) (objects d) = Some r \<longleftrightarrow> r \<in> set (objects d) \<and> is_key_row b k r"
proof
  assume "r \<in> set (objects d) \<and> is_key_row b k r"
  moreover have "objects_ok d" using assms by (simp add: db_ok_def)
  ultimately show "find (is_key_row b k) (objects d) = Some r"
    using select_one_unique [of r "objects d" "is_key_row b k"] unfolding select_one_def
    by (metis active_keyD is_key_row_def)
qed (auto simp: find_Some_iff)

lemma find_other_key:
  assumes "(b', k') \<noteq> (b, k)"
  shows "find (is_key_row b' k') (map (\<lambda>x. if is_key_row b k x then recycled now x else x) xs) = find (is_key_row b' k') xs"
proof -
  have "\<not> is_key_row b' k' x" if "is_key_row b k x" for x using assms that by (auto simp: is_key_row_def)
  then show ?thesis by (induction xs) auto
qed

lemma used_recycled:
  assumes "distinct xs" and "\<And>x y. x \<in> set xs \<Longrightarrow> y \<in> set xs \<Longrightarrow> is_key_row b k x \<Longrightarrow> is_key_row b k y \<Longrightarrow> x = y"
  shows "sum_list (map filesize_bytes (filter (\<lambda>r. obj_bucket_id r = h \<and> obj_active r)
      (map (\<lambda>x. if is_key_row b k x then recycled now x else x) xs)))
    = sum_list (map filesize_bytes (filter (\<lambda>r. obj_bucket_id r = h \<and> obj_active r) xs))
      - (if b = h then (case find (is_key_row b k) xs of Some r \<Rightarrow> filesize_bytes r | None \<Rightarrow> 0) else 0)"
  using assms
proof (induction xs)
  case (Cons x xs)
  have rest: "map (\<lambda>x. if is_key_row b k x then recycled now x else x) xs = xs" "find (is_key_row b k) xs = None"
    if "is_key_row b k x"
  proof -
    have "\<not> is_key_row b k y" if "y \<in> set xs" for y using Cons.prems that \<open>is_key_row b k x\<close> by (metis distinct.simps(2) list.set_intros)
    then show "map (\<lambda>x. if is_key_row b k x then recycled now x else x) xs = xs" "find (is_key_row b k) xs = None"
      by (auto simp: map_idI find_None_iff)
  qed
  have IH: "sum_list (map filesize_bytes (filter (\<lambda>r. obj_bucket_id r = h \<and> obj_active r)
      (map (\<lambda>x. if is_key_row b k x then recycled now x else x) xs)))
    = sum_list (map filesize_bytes (filter (\<lambda>r. obj_bucket_id r = h \<and> obj_active r) xs))
      - (if b = h then (case find (is_key_row b k) xs of Some r \<Rightarrow> filesize_bytes r | None \<Rightarrow> 0) else 0)"
    using Cons.prems by (intro Cons.IH) auto
  show ?case
  proof (cases "is_key_row b k x")
    case True
    then have "obj_bucket_id x = b" "obj_active x" by (simp_all add: is_key_row_def)
    with True rest [OF True] show ?thesis by (cases "b = h") simp_all
  next
    case False
    with IH show ?thesis by (cases "b = h"; cases "obj_bucket_id x = h \<and> obj_active x") auto
  qed
qed simp

lemma shelf_eqI:
  assumes "sh_home m = sh_home m'" "\<And>b k. sh_items m b k = sh_items m' b k" "sh_used m = sh_used m'" "sh_limits m = sh_limits m'"
  shows "m = (m' :: shelf)"
proof -
  have "sh_items m = sh_items m'" using assms(2) by (intro ext)
  then show ?thesis using assms by (cases m, cases m') simp
qed

lemma saturating_sub_le_0: "saturating_sub a b \<le> 0 \<longleftrightarrow> a \<le> b"
  by (auto simp: saturating_sub_def sat_i64_def I64_MAX_def I64_MIN_def)

lemma shelf_of_simps [simp]:
  "sh_home (shelf_of n) = home_of (node_db n)"
  "sh_items (shelf_of n) b k = map_option (version_of n) (find (is_key_row b k) (objects (node_db n)))"
  "sh_used (shelf_of n) = bucket_used_bytes (home_of (node_db n)) (node_db n)"
  "sh_limits (shelf_of n) = map allocated_bytes
     (filter (\<lambda>q. bna_bucket_id q = home_of (node_db n) \<and> quota_mode q = Hard) (repl_peers (node_db n)))"
  by (simp_all add: shelf_of_def Let_def bucket_used_bytes_def select_where_def)

lemma item_size_shelf [simp]: "item_size (shelf_of n) b k = previous_size k b (node_db n)"
  by (simp add: item_size_def version_of_def previous_size_def in_bucket_find split: option.split)

lemma fits_iff:
  "check_hard_quota (home_of (node_db n)) (saturating_sub len (previous_size k (home_of (node_db n)) (node_db n))) (node_db n)
      = Inr () \<longleftrightarrow> fits (shelf_of n) k len"
  unfolding hard_quota_iff saturating_sub_le_0 fits_def by (auto simp: list_all_iff saturating_add_def saturating_sub_def)

text \<open>A step that leaves the rows, the buckets and the blobs of the rows alone leaves the store alone.\<close>

lemma shelf_same:
  assumes "node_db n' = node_db n" "\<And>r. r \<in> set (objects (node_db n)) \<Longrightarrow> row_blob n' r = row_blob n r"
  shows "shelf_of n' = shelf_of n"
proof (rule shelf_eqI)
  fix b k
  show "sh_items (shelf_of n') b k = sh_items (shelf_of n) b k"
    using assms by (cases "find (is_key_row b k) (objects (node_db n))") (auto simp: version_of_def dest: find_SomeD)
qed (simp_all add: assms(1))

text \<open>Recycling the row of a key, and a new row in its place.\<close>

lemma used_after_recycle:
  assumes "db_ok d"
  shows "sum_list (map filesize_bytes (filter (\<lambda>r. obj_bucket_id r = h \<and> obj_active r)
      (map (\<lambda>x. if is_key_row b k x then recycled now x else x) (objects d))))
    = bucket_used_bytes h d - (if b = h then previous_size k b d else 0)"
proof -
  have ok: "objects_ok d" using assms by (simp add: db_ok_def)
  then have "distinct (objects d)" by (simp add: objects_ok_def distinct_map)
  then have "sum_list (map filesize_bytes (filter (\<lambda>r. obj_bucket_id r = h \<and> obj_active r)
      (map (\<lambda>x. if is_key_row b k x then recycled now x else x) (objects d))))
    = sum_list (map filesize_bytes (filter (\<lambda>r. obj_bucket_id r = h \<and> obj_active r) (objects d)))
      - (if b = h then (case find (is_key_row b k) (objects d) of Some r \<Rightarrow> filesize_bytes r | None \<Rightarrow> 0) else 0)"
    by (rule used_recycled) (use ok in \<open>auto simp: is_key_row_def intro: active_keyD\<close>)
  then show ?thesis by (simp add: bucket_used_bytes_def select_where_def previous_size_def in_bucket_find)
qed

lemma shelf_after_put:
  assumes ok: "db_ok (node_db n)" and h: "h = home_of (node_db n)"
    and row: "is_key_row h k row" "filesize_bytes row = int (length bytes)"
    and fresh: "absolute_path_for (node_engine n) (filepath row)
      \<notin> (\<lambda>r. absolute_path_for (node_engine n) (filepath r)) ` set (objects (node_db n))"
    and n': "buckets (node_db n') = buckets (node_db n)" "repl_peers (node_db n') = repl_peers (node_db n)"
      "node_engine n' = node_engine n"
      "objects (node_db n') = map (\<lambda>r. if is_key_row h k r then recycled now r else r) (objects (node_db n)) @ [row]"
      "node_fs n' = fs_write (absolute_path_for (node_engine n) (filepath row)) bytes (node_fs n)"
  shows "shelf_of n' = put_item k bytes (shelf_of n)"
proof (rule shelf_eqI)
  have home: "home_of (node_db n') = h" using h home_of_cong [OF n'(1)] by simp
  then show "sh_home (shelf_of n') = sh_home (put_item k bytes (shelf_of n))" using h by (simp add: put_item_def)
  show "sh_limits (shelf_of n') = sh_limits (put_item k bytes (shelf_of n))" using home h n'(2) by (simp add: put_item_def)
  have "sum_list (map filesize_bytes (filter (\<lambda>r. obj_bucket_id r = h \<and> obj_active r) (objects (node_db n'))))
      = bucket_used_bytes h (node_db n) - previous_size k h (node_db n) + int (length bytes)"
    unfolding n'(4) filter_append map_append sum_list.append used_after_recycle [OF ok]
    using row by (simp add: is_key_row_def)
  then show "sh_used (shelf_of n') = sh_used (put_item k bytes (shelf_of n))"
    using home h by (simp add: put_item_def bucket_used_bytes_def select_where_def)
  have old: "row_blob n' r = row_blob n r" if "r \<in> set (objects (node_db n))" for r
  proof -
    have "absolute_path_for (node_engine n) (filepath r) \<noteq> absolute_path_for (node_engine n) (filepath row)"
      using fresh that by (metis image_eqI)
    then show ?thesis by (simp add: row_blob_def n'(3,5))
  qed
  fix b k'
  show "sh_items (shelf_of n') b k' = sh_items (put_item k bytes (shelf_of n)) b k'"
  proof (cases "(b, k') = (h, k)")
    case True
    then have "find (is_key_row b k') (objects (node_db n')) = Some row"
      unfolding n'(4) using row(1) by (simp add: find_append find_recycled)
    moreover have "row_blob n' row = Some bytes" by (simp add: row_blob_def n')
    ultimately show ?thesis using True h row(2) by (simp add: put_item_def version_of_def)
  next
    case False
    then have "\<not> is_key_row b k' row" using row(1) by (auto simp: is_key_row_def)
    then have "find (is_key_row b k') (objects (node_db n')) = find (is_key_row b k') (objects (node_db n))"
      unfolding n'(4) using find_other_key [OF False] by (simp add: find_append split: option.split)
    moreover have "version_of n' r = version_of n r" if "find (is_key_row b k') (objects (node_db n)) = Some r" for r
      using that old by (auto simp: version_of_def dest: find_SomeD)
    ultimately have "sh_items (shelf_of n') b k' = sh_items (shelf_of n) b k'"
      by (cases "find (is_key_row b k') (objects (node_db n))") simp_all
    also have "\<dots> = sh_items (put_item k bytes (shelf_of n)) b k'" using False h by (auto simp: put_item_def)
    finally show ?thesis .
  qed
qed

lemma shelf_after_drop:
  assumes ok: "db_ok (node_db n)"
    and n': "n' = n\<lparr>node_db := objects_update (map (\<lambda>r. if is_key_row b k r then recycled now r else r)) (node_db n)\<rparr>"
  shows "shelf_of n' = drop_item b k (shelf_of n)"
proof (rule shelf_eqI)
  have home: "home_of (node_db n') = home_of (node_db n)" by (rule home_of_cong) (simp add: n')
  then show "sh_home (shelf_of n') = sh_home (drop_item b k (shelf_of n))"
    "sh_limits (shelf_of n') = sh_limits (drop_item b k (shelf_of n))" by (simp_all add: drop_item_def n')
  have "bucket_used_bytes h (node_db n') = bucket_used_bytes h (node_db n) - (if b = h then previous_size k b (node_db n) else 0)" for h
    unfolding used_after_recycle [OF ok, symmetric, of h b k now] by (simp add: n' bucket_used_bytes_def select_where_def)
  then show "sh_used (shelf_of n') = sh_used (drop_item b k (shelf_of n))"
    using home by (simp add: drop_item_def)
  have ver: "version_of n' = version_of n" by (simp add: version_of_def row_blob_def n' fun_eq_iff)
  have objs: "objects (node_db n') = map (\<lambda>r. if is_key_row b k r then recycled now r else r) (objects (node_db n))"
    by (simp add: n')
  fix b' k'
  show "sh_items (shelf_of n') b' k' = sh_items (drop_item b k (shelf_of n)) b' k'"
    using find_recycled [of b k now "objects (node_db n)"] find_other_key [of b' k' b k now "objects (node_db n)"]
    by (cases "(b', k') = (b, k)") (auto simp: drop_item_def ver objs)
qed

section \<open>One request\<close>

lemma stream_bytes_Some: "stream_bytes items = Some bs \<Longrightarrow> \<exists>cs. items = map Inr cs \<and> concat cs = bs"
proof (induction items arbitrary: bs rule: stream_bytes.induct)
  case (3 c items)
  then obtain bs' where bs': "stream_bytes items = Some bs'" "bs = c @ bs'" by auto
  with 3 obtain cs where "items = map Inr cs" "concat cs = bs'" by blast
  then show ?case using bs' by (intro exI [of _ "c # cs"]) simp
qed simp_all

lemma stream_bytes_None: "stream_bytes items = None \<Longrightarrow> \<exists>cs e rest. items = map Inr cs @ Inl e # rest"
proof (induction items rule: stream_bytes.induct)
  case (2 e items)
  have "Inl e # items = map Inr [] @ Inl e # items" by simp
  then show ?case by blast
next
  case (3 c items)
  then obtain cs e rest where "items = map Inr cs @ Inl e # rest" by auto
  then show ?case by (intro exI [of _ "c # cs"]) simp
qed simp

text \<open>A broken upload is answered 500 and leaves the rows alone and every file but the one it was writing.\<close>

lemma put_object_broken:
  assumes b: "b \<in> bucket_id ` set (buckets (node_db n))"
    and run: "put_object_keyed_in_bucket L uuid key hs (map Inr cs @ Inl e # rest) (Some b) now n = (r, n')"
    and p: "p = absolute_path_for (node_engine n) (relative_filepath uuid (extension_from_filename (lib_lower L) key))"
  shows "rs_status r = 500 \<and> node_db n' = node_db n \<and> node_engine n' = node_engine n
    \<and> (\<forall>q. q \<noteq> p \<longrightarrow> fs_read q (node_fs n') = fs_read q (node_fs n))"
proof -
  obtain x where "get_bucket_by_id b (node_db n) = Some x"
    using b unfolding get_bucket_by_id_def using bkt_tbl.row_None by (metis not_Some_eq)
  then have et: "bucket_etag_type_of b (node_db n) = Inr (bucket_etag_type x)"
    by (simp add: bucket_etag_type_of_def)
  obtain f where f: "put_chunks (lib_digest L) (lib_xof L) (lib_lower L) (node_engine n) uuid (map Inr cs @ Inl e # rest) key
      (resolve_etag_type L hs (bucket_etag_type x)) None None (node_fs n) = (Inl (Bail e), f)"
    "\<forall>q. q \<noteq> p \<longrightarrow> fs_read q f = fs_read q (node_fs n)"
    by (simp add: put_chunks_def Let_def copy_loop_fails p absolute_relative)
  show ?thesis
    using run f(2) by (auto simp: put_object_keyed_in_bucket_def Let_def et f(1) internal_error_def text_response_def)
qed

lemma put_step:
  assumes ok: "db_ok (node_db n)" and key: "normalize_object_key raw = Inr k"
    and fresh: "fresh_request L (S3Put uuid raw hs items) n"
    and run: "put_object L uuid raw hs items now n = (r, n')"
  shows "db_ok (node_db n') \<and> shelf_step (S3Put uuid raw hs items) (shelf_of n) (rs_status r) (rs_body r) (shelf_of n')"
proof -
  let ?b = "home_of (node_db n)"
  note home = home_bucket [OF ok]
  let ?fp = "relative_filepath uuid (extension_from_filename (lib_lower L) k)"
  have new: "absolute_path_for (node_engine n) ?fp \<notin> (\<lambda>r. absolute_path_for (node_engine n) (filepath r)) ` set (objects (node_db n))"
    using fresh key by simp
  have run: "put_object_keyed_in_bucket L uuid k hs items (Some ?b) now n = (r, n')"
    using run key put_object_default [OF home(1)] by (simp add: put_object_def)
  have ok': "db_ok (node_db n')" using put_object_db_ok [OF ok, of L uuid k hs items "Some ?b" now] run by simp
  have same: "shelf_of n' = shelf_of n" if "node_db n' = node_db n" "node_engine n' = node_engine n"
    "\<forall>q. q \<noteq> absolute_path_for (node_engine n) ?fp \<longrightarrow> fs_read q (node_fs n') = fs_read q (node_fs n)"
  proof (rule shelf_same [OF that(1)])
    fix r assume "r \<in> set (objects (node_db n))"
    then have "absolute_path_for (node_engine n) (filepath r) \<noteq> absolute_path_for (node_engine n) ?fp"
      using new by (metis image_eqI)
    then show "row_blob n' r = row_blob n r" using that by (simp add: row_blob_def)
  qed
  show ?thesis
  proof (cases "stream_bytes items")
    case None
    then obtain cs e rest where items: "items = map Inr cs @ Inl e # rest" using stream_bytes_None by blast
    from put_object_broken [OF home(2) run [unfolded items] refl] same ok' None key show ?thesis by simp
  next
    case (Some bs)
    then obtain cs where cs: "items = map Inr cs" "concat cs = bs" using stream_bytes_Some by blast
    define row where "row = new_row L uuid k hs (concat cs) ?b now n"
    have row: "is_key_row ?b k row" "filesize_bytes row = int (length bs)" "filepath row = ?fp"
      unfolding row_def new_row_def Let_def cs(2) by (simp_all add: is_key_row_def obj_active_def)
    have path: "filepath row \<notin> filepath ` set (objects (node_db n))" using new row(3) by auto
    note out = run [unfolded cs(1) put_object_cases [OF ok home(2) path row_def] Let_def row(2) cs(2)]
    show ?thesis
    proof (cases "check_hard_quota ?b (saturating_sub (int (length bs)) (previous_size k ?b (node_db n))) (node_db n)")
      case (Inl e)
      then have no: "\<not> fits (shelf_of n) k (int (length bs))" using fits_iff [of n "int (length bs)" k] by simp
      have n': "rs_status r = 413" "node_db n' = node_db n" "node_engine n' = node_engine n"
        "node_fs n' = unlink (node_engine n) ?fp (fs_write (absolute_path_for (node_engine n) ?fp) bs (node_fs n))"
        using out Inl row(3) by (auto simp: text_response_def)
      have "shelf_of n' = shelf_of n" using n' by (intro same) (simp_all add: unlink_def)
      with n' no ok' Some key show ?thesis by simp
    next
      case (Inr u)
      then have yes: "fits (shelf_of n) k (int (length bs))" using fits_iff [of n "int (length bs)" k] by simp
      have n': "rs_status r = 200" "buckets (node_db n') = buckets (node_db n)" "repl_peers (node_db n') = repl_peers (node_db n)"
        "node_engine n' = node_engine n"
        "objects (node_db n') = map (\<lambda>r. if is_key_row ?b k r then recycled now r else r) (objects (node_db n)) @ [row]"
        "node_fs n' = fs_write (absolute_path_for (node_engine n) (filepath row)) bs (node_fs n)"
        using out Inr by (auto simp: etag_response_def enqueue_frame(3) [OF prod.collapse [symmetric]])
      have "shelf_of n' = put_item k bs (shelf_of n)"
        using shelf_after_put [OF ok, of ?b k row bs n' now] new row n' by simp
      with n' yes ok' Some key show ?thesis by simp
    qed
  qed
qed

lemma found_key:
  assumes "db_ok d"
  shows "get_object_by_filename k d = None \<longleftrightarrow> (\<forall>b. find (is_key_row b k) (objects d) = None)"
    and "get_object_by_filename k d = Some r \<Longrightarrow> find (is_key_row (obj_bucket_id r) k) (objects d) = Some r"
proof -
  show "get_object_by_filename k d = None \<longleftrightarrow> (\<forall>b. find (is_key_row b k) (objects d) = None)"
    by (auto simp: get_object_by_filename_def select_one_None find_None_iff is_key_row_def)
  assume "get_object_by_filename k d = Some r"
  then have "r \<in> set (objects d) \<and> is_key_row (obj_bucket_id r) k r"
    by (auto simp: get_object_by_filename_def is_key_row_def dest: select_one_Some)
  then show "find (is_key_row (obj_bucket_id r) k) (objects d) = Some r" using find_key_iff [OF assms] by blast
qed

lemma get_step:
  assumes ok: "db_ok (node_db n)" and key: "normalize_object_key raw = Inr k" and run: "get_object L raw n = (r, n')"
  shows "db_ok (node_db n') \<and> shelf_step (S3Get raw) (shelf_of n) (rs_status r) (rs_body r) (shelf_of n')"
proof (cases "get_object_by_filename k (node_db n)")
  case None
  then have "r = no_such_key" "n' = n" using run key
    by (simp_all add: get_object_def get_object_keyed_def get_object_keyed_with_headers_def)
  moreover have "\<forall>b. sh_items (shelf_of n) b k = None" using None found_key(1) [OF ok] by simp
  ultimately show ?thesis using key ok by (simp add: no_such_key_def)
next
  case (Some x)
  have item: "sh_items (shelf_of n) (obj_bucket_id x) k = Some (filesize_bytes x, row_blob n x)"
    using found_key(2) [OF ok Some] by (simp add: version_of_def)
  have n': "node_db n' = node_db n" "shelf_of n' = shelf_of n"
    using run key Some by (auto simp: get_object_def get_object_keyed_def get_object_keyed_with_headers_def header_get_def
        Let_def row_blob_def intro: shelf_same split: sum.split_asm)
  have "case row_blob n x of None \<Rightarrow> rs_status r = 500 | Some bs \<Rightarrow> rs_status r = 200 \<and> rs_body r = bs"
    using run key Some by (auto simp: get_object_def get_object_keyed_def get_object_keyed_with_headers_def header_get_def
        Let_def row_blob_def open_read_def internal_error_def text_response_def split: option.split_asm)
  with item n' ok key show ?thesis by auto
qed

lemma delete_step:
  assumes ok: "db_ok (node_db n)" and key: "normalize_object_key raw = Inr k" and run: "delete_object_route raw now n = (r, n')"
  shows "db_ok (node_db n') \<and> shelf_step (S3Delete raw) (shelf_of n) (rs_status r) (rs_body r) (shelf_of n')"
proof (cases "get_object_by_filename k (node_db n)")
  case None
  then have "n' = n" "rs_status r = 204" using run key
    by (auto simp: delete_object_route_def delete_object_keyed_def delete_object_keyed_in_bucket_def soft_delete_object_by_filename_def)
  moreover have "\<forall>b. sh_items (shelf_of n) b k = None" using None found_key(1) [OF ok] by simp
  ultimately show ?thesis using key ok by simp
next
  case (Some x)
  let ?b = "obj_bucket_id x"
  have at: "get_object_by_filename_in_bucket k ?b (node_db n) = Some x"
    using found_key(2) [OF ok Some] by (simp add: in_bucket_find)
  then have "snd (soft_delete_object_by_filename k None now (node_db n)) = snd (soft_delete_object_by_filename k (Some ?b) now (node_db n))"
    using Some by (simp add: soft_delete_object_by_filename_def)
  then have n': "n' = n\<lparr>node_db := objects_update (map (\<lambda>r. if is_key_row ?b k r then recycled now r else r)) (node_db n)\<rparr>"
    and st: "rs_status r = 204"
    using run key soft_delete_by_key [OF ok]
    by (auto simp: delete_object_route_def delete_object_keyed_def delete_object_keyed_in_bucket_def)
  have "db_ok (node_db n')"
    using soft_delete_ops_ok(1) [OF surjective_pairing ok, of k "Some ?b" now] soft_delete_by_key [OF ok, of k ?b now] n' by simp
  moreover have "sh_items (shelf_of n) ?b k \<noteq> None" using found_key(2) [OF ok Some] by simp
  ultimately show ?thesis using shelf_after_drop [OF ok n'] st key by auto
qed

lemma shelf_request:
  assumes ok: "db_ok (node_db n)" and fresh: "fresh_request L req n" and run: "s3_serve L now req n = (r, n')"
  shows "db_ok (node_db n') \<and> shelf_step req (shelf_of n) (rs_status r) (rs_body r) (shelf_of n')"
proof (cases req)
  case (S3Put uuid raw hs items)
  show ?thesis
  proof (cases "normalize_object_key raw")
    case Inl
    then show ?thesis using run ok by (auto simp: S3Put put_object_def text_response_def)
  next
    case Inr
    from put_step [OF ok Inr] fresh run show ?thesis unfolding S3Put s3_serve.simps by blast
  qed
next
  case (S3Get raw)
  show ?thesis
  proof (cases "normalize_object_key raw")
    case Inl
    then show ?thesis using run ok by (auto simp: S3Get get_object_def text_response_def)
  next
    case Inr
    from get_step [OF ok Inr] run show ?thesis unfolding S3Get s3_serve.simps by blast
  qed
next
  case (S3Delete raw)
  show ?thesis
  proof (cases "normalize_object_key raw")
    case Inl
    then show ?thesis using run ok by (auto simp: S3Delete delete_object_route_def text_response_def)
  next
    case Inr
    from delete_step [OF ok Inr] run show ?thesis unfolding S3Delete s3_serve.simps by blast
  qed
next
  case S3List
  then show ?thesis using run ok by (auto simp: list_objects_xml_def)
qed

section \<open>Every run of requests\<close>

text \<open>Requests at the times they arrive; the answers a run may get from the store, and the stores it leads to.\<close>

definition s3_run :: "lib \<Rightarrow> (time \<times> s3_request) list \<Rightarrow> node \<Rightarrow> response list \<times> node" where
  "s3_run L = run_all (\<lambda>(now, req). s3_serve L now req)"

definition fresh_run :: "lib \<Rightarrow> (time \<times> s3_request) list \<Rightarrow> node \<Rightarrow> bool" where
  "fresh_run L = all_allowed (\<lambda>(now, req). s3_serve L now req) (\<lambda>(now, req). fresh_request L req)"

definition shelf_run :: "(time \<times> s3_request) list \<Rightarrow> shelf \<Rightarrow> response list \<Rightarrow> shelf \<Rightarrow> bool" where
  "shelf_run = spec_run (\<lambda>(now, req) m r m'. shelf_step req m (rs_status r) (rs_body r) m')"

interpretation kv_store: served_refinement "\<lambda>(now, req). s3_serve L now req" "\<lambda>n. db_ok (node_db n)" shelf_of
  "\<lambda>(now, req). fresh_request L req" "\<lambda>(now, req) m r m'. shelf_step req m (rs_status r) (rs_body r) m'" for L
  by unfold_locales (auto dest: shelf_request)

text \<open>C1: Seen from outside, S3 is a store of versions by bucket and key, from whatever state the database's
  constraints allow and whatever requests come, malformed keys and broken streams included: a PUT puts exactly
  the bytes sent under its key in the default bucket if they fit the hard quotas, is answered 413 and changes
  nothing if they do not, and 500 and changes nothing if its stream breaks; a GET returns the bytes of a version
  of the key in some bucket, 500 if that blob is gone, and 404 exactly if no bucket has the key; a DELETE takes the
  key out of one bucket that has it. Assumed: no existing row's blob has the path drawn for an upload.\<close>

theorem s3_refines_kv:
  assumes "db_ok (node_db n)" and "fresh_run L reqs n" and "s3_run L reqs n = (rs, n')"
  shows "db_ok (node_db n') \<and> shelf_run reqs (shelf_of n) rs (shelf_of n')"
  using kv_store.runs_refine [of n L reqs rs n'] assms by (simp add: s3_run_def fresh_run_def shelf_run_def)

text \<open>Another bucket has the key too, and a second upload breaks off.\<close>

theorem s3_refines_kv_witness:
  "\<exists>rs n'. s3_run toy_lib
      [(5, S3Put ''u1'' ''/a'' [] [Inr ''he'', Inr ''llo'']), (6, S3Put ''u2'' ''a'' [] [Inr ''no'', Inl ''reset'']),
       (7, S3Delete ''a''), (8, S3Get ''a'')] shared_bucket_node = (rs, n')
    \<and> map rs_status rs = [200, 500, 204, 200] \<and> db_ok (node_db n')
    \<and> sh_items (shelf_of n') 1 ''a'' = Some (5, Some ''hello'') \<and> sh_items (shelf_of n') 2 ''a'' = None"
proof -
  let ?reqs = "[(5, S3Put ''u1'' ''/a'' [] [Inr ''he'', Inr ''llo'']), (6, S3Put ''u2'' ''a'' [] [Inr ''no'', Inl ''reset'']),
       (7, S3Delete ''a''), (8, S3Get ''a'')]"
  obtain rs n' where run: "s3_run toy_lib ?reqs shared_bucket_node = (rs, n')" by force
  have "db_ok (node_db shared_bucket_node)" "fresh_run toy_lib ?reqs shared_bucket_node" by code_simp+
  from s3_refines_kv [OF this run] have "db_ok (node_db n')" by blast
  moreover have "map rs_status (fst (s3_run toy_lib ?reqs shared_bucket_node)) = [200, 500, 204, 200]"
    "sh_items (shelf_of (snd (s3_run toy_lib ?reqs shared_bucket_node))) 1 ''a'' = Some (5, Some ''hello'')"
    "sh_items (shelf_of (snd (s3_run toy_lib ?reqs shared_bucket_node))) 2 ''a'' = None" by code_simp+
  ultimately show ?thesis using run by (intro exI conjI) simp_all
qed
end
