(* ===== verification/Healing.thy ===== *)
theory Healing
  imports Delivery Queue
begin

text \<open>
  What the repair of the cluster promises (\<open>src/cluster/anti_entropy.rs\<close>): a round queues exactly the copies that the
  answering peers lack, once each, and a copy that is queued and delivered arrives.
\<close>

section \<open>The copies a round queues\<close>

definition open_put :: "string \<Rightarrow> string \<Rightarrow> db \<Rightarrow> bool" where
  "open_put p fp d \<longleftrightarrow> (\<exists>j \<in> set (outbox d). job_peer_id j = p \<and> job_filepath_uuid j = fp \<and> job_operation j = Put
     \<and> job_status j \<in> {Pending, Failed, InFlight})"

text \<open>A peer lacks a row: its digest has not the path with this etag, and the bucket is one it keeps.\<close>

definition lacks :: "db \<Rightarrow> string \<Rightarrow> (string \<times> string) list \<Rightarrow> object_record \<Rightarrow> bool" where
  "lacks d p dg r \<longleftrightarrow> map_of dg (filepath r) \<noteq> Some (etag r) \<and> peer_should_receive_bucket p (obj_bucket_id r) d"

definition missing_from :: "db \<Rightarrow> string \<Rightarrow> (string \<times> string) list \<Rightarrow> object_record list" where
  "missing_from d p dg =
     filter (\<lambda>r. lacks d p dg r \<and> \<not> open_put p (filepath r) d) (select_where obj_active (objects d))"

definition copies_for ::
  "string \<Rightarrow> (string \<Rightarrow> (string \<times> string) list option) \<Rightarrow> db \<Rightarrow> cluster_peer \<Rightarrow> (string \<times> object_record) list" where
  "copies_for loc remote d q =
     (if peer_id q = loc then []
      else (case remote (peer_id q) of None \<Rightarrow> [] | Some dg \<Rightarrow> map (Pair (peer_id q)) (missing_from d (peer_id q) dg)))"

definition missing_copies ::
  "string \<Rightarrow> (string \<Rightarrow> (string \<times> string) list option) \<Rightarrow> db \<Rightarrow> (string \<times> object_record) list" where
  "missing_copies loc remote d = concat (map (copies_for loc remote d) (list_active_peers d))"

lemma mem_copies: "(p, r) \<in> set (copies_for loc remote d q) \<longleftrightarrow>
    peer_id q = p \<and> p \<noteq> loc \<and> (\<exists>dg. remote p = Some dg \<and> r \<in> set (missing_from d p dg))"
  by (cases "remote (peer_id q)") (auto simp: copies_for_def)

definition copy_job :: "time \<Rightarrow> string \<times> object_record \<Rightarrow> int \<Rightarrow> outbox_row" where
  "copy_job now pr = new_job (fst pr) (obj_id (snd pr)) (filepath (snd pr)) (etag (snd pr)) Put now"

definition queue_copies :: "time \<Rightarrow> (string \<times> object_record) list \<Rightarrow> db \<Rightarrow> db" where
  "queue_copies now prs d = foldl (\<lambda>d pr. insert_job (copy_job now pr) d) d prs"

lemma queue_copies_simps [simp]:
  "objects (queue_copies now prs d) = objects d" "peers (queue_copies now prs d) = peers d"
  "buckets (queue_copies now prs d) = buckets d" "repl_peers (queue_copies now prs d) = repl_peers d"
  unfolding queue_copies_def by (induction prs arbitrary: d) (simp_all add: insert_job_def)

lemma queue_copies_append: "queue_copies now (prs @ qrs) d = queue_copies now qrs (queue_copies now prs d)"
  by (simp add: queue_copies_def)

lemma queue_copies_outbox:
  "outbox (queue_copies now prs d) = outbox d @ map (\<lambda>(k, pr). copy_job now pr (next_job_id d + int k)) (enumerate 0 prs)"
  unfolding queue_copies_def by (rule foldl_insert_job)

lemma copy_job_simps [simp]:
  "job_peer_id (copy_job now pr i) = fst pr" "job_object_id (copy_job now pr i) = Some (obj_id (snd pr))"
  "job_filepath_uuid (copy_job now pr i) = filepath (snd pr)" "job_operation (copy_job now pr i) = Put"
  "job_status (copy_job now pr i) = Pending" "next_retry_utc (copy_job now pr i) = now"
  by (simp_all add: copy_job_def new_job_def)

lemma queued_job:
  assumes "pr \<in> set prs"
  obtains i where "copy_job now pr i \<in> set (outbox (queue_copies now prs d))"
proof -
  obtain k where "k < length prs" "prs ! k = pr" using assms by (auto simp: in_set_conv_nth)
  then have "(k, pr) \<in> set (enumerate 0 prs)" by (auto simp: in_set_enumerate_eq)
  then have "copy_job now pr (next_job_id d + int k) \<in> set (outbox (queue_copies now prs d))"
    unfolding queue_copies_outbox by force
  then show thesis by (rule that)
qed

lemma open_put_queued:
  "open_put p fp (queue_copies now prs d) \<longleftrightarrow> open_put p fp d \<or> (\<exists>pr \<in> set prs. fst pr = p \<and> filepath (snd pr) = fp)"
proof
  assume "open_put p fp (queue_copies now prs d)"
  then show "open_put p fp d \<or> (\<exists>pr \<in> set prs. fst pr = p \<and> filepath (snd pr) = fp)"
    by (auto simp: open_put_def queue_copies_outbox in_set_enumerate_eq) (metis nth_mem fst_conv snd_conv)+
next
  assume "open_put p fp d \<or> (\<exists>pr \<in> set prs. fst pr = p \<and> filepath (snd pr) = fp)"
  then show "open_put p fp (queue_copies now prs d)"
  proof
    assume "\<exists>pr \<in> set prs. fst pr = p \<and> filepath (snd pr) = fp"
    then obtain pr where pr: "pr \<in> set prs" "fst pr = p" "filepath (snd pr) = fp" by blast
    obtain i where "copy_job now pr i \<in> set (outbox (queue_copies now prs d))" using queued_job [OF pr(1)] .
    then show ?thesis using pr(2,3) unfolding open_put_def by (intro bexI) simp_all
  qed (auto simp: open_put_def queue_copies_outbox)
qed

lemma node_row_cong: "repl_peers d' = repl_peers d \<Longrightarrow> node_row b p d' = node_row b p d"
  by (simp add: node_row_def)

lemma lacks_queued [simp]: "lacks (queue_copies now prs d) p dg r = lacks d p dg r"
  by (simp add: lacks_def peer_should_receive_bucket_def node_row_cong [of "queue_copies now prs d" d])

section \<open>A round\<close>

text \<open>One row against the digest of a peer.\<close>

lemma heal_row:
  assumes "db_ok d" "r \<in> set (objects d)" "obj_active r" "p \<in> peer_id ` set (peers d)"
  shows "heal_entry p dg now (queue_copies now prs d) (filepath r, etag r) =
    (if lacks d p dg r \<and> \<not> open_put p (filepath r) (queue_copies now prs d) then queue_copies now (prs @ [(p, r)]) d
     else queue_copies now prs d)"
proof -
  let ?d = "queue_copies now prs d"
  have "distinct (map filepath (objects d))" using assms(1) by (simp add: db_ok_def objects_ok_def)
  then have "object_by_filepath (filepath r) ?d = Some r"
    unfolding object_by_filepath_def queue_copies_simps using assms(2,3)
    by (intro select_one_unique) (auto dest: distinct_map_eqD)
  moreover have "peer_should_receive_bucket p b ?d = peer_should_receive_bucket p b d" for b
    by (simp add: peer_should_receive_bucket_def node_row_cong [of ?d d])
  moreover have "snd (enqueue_put_for_peer p (obj_id r) (filepath r) (etag r) now ?d) =
      (if open_put p (filepath r) ?d then ?d else queue_copies now (prs @ [(p, r)]) d)"
  proof -
    have "(select_one (\<lambda>j. job_peer_id j = p \<and> job_filepath_uuid j = filepath r \<and> job_operation j = Put
        \<and> job_status j \<in> {Pending, Failed, InFlight}) (outbox ?d) \<noteq> None) = open_put p (filepath r) ?d"
      by (auto simp: open_put_def select_one_None)
    moreover have "queue_copies now (prs @ [(p, r)]) d = insert_job (new_job p (obj_id r) (filepath r) (etag r) Put now) ?d"
      by (simp add: queue_copies_def copy_job_def)
    ultimately show ?thesis using assms(4) imageI [OF assms(2), of obj_id] by (simp add: enqueue_put_for_peer_def)
  qed
  ultimately show ?thesis by (cases "map_of dg (filepath r)") (simp_all add: heal_entry_def lacks_def)
qed

lemma heal_rows:
  assumes "db_ok d" "set rows \<subseteq> {r \<in> set (objects d). obj_active r}" "distinct (map filepath rows)"
    "p \<in> peer_id ` set (peers d)" "\<forall>pr \<in> set prs. fst pr = p \<longrightarrow> filepath (snd pr) \<notin> filepath ` set rows"
  shows "foldl (heal_entry p dg now) (queue_copies now prs d) (map (\<lambda>r. (filepath r, etag r)) rows) =
    queue_copies now (prs @ map (Pair p) (filter (\<lambda>r. lacks d p dg r \<and> \<not> open_put p (filepath r) d) rows)) d"
  using assms(2-5)
proof (induction rows arbitrary: prs)
  case (Cons r rows)
  have "open_put p (filepath r) (queue_copies now prs d) = open_put p (filepath r) d"
    using Cons.prems(4) by (auto simp: open_put_queued)
  then have step: "heal_entry p dg now (queue_copies now prs d) (filepath r, etag r) =
      queue_copies now (prs @ map (Pair p) (filter (\<lambda>r. lacks d p dg r \<and> \<not> open_put p (filepath r) d) [r])) d"
    using heal_row [OF assms(1) _ _ Cons.prems(3), of r dg now prs] Cons.prems(1) by simp
  have "\<forall>pr \<in> set (prs @ map (Pair p) (filter (\<lambda>r. lacks d p dg r \<and> \<not> open_put p (filepath r) d) [r])).
      fst pr = p \<longrightarrow> filepath (snd pr) \<notin> filepath ` set rows"
    using Cons.prems(2,4) by auto
  from Cons.IH [OF _ _ Cons.prems(3) this] Cons.prems(1,2) show ?case by (simp add: step)
qed simp

lemma heal_peers:
  assumes "db_ok d" "set qs \<subseteq> {q \<in> set (peers d). is_active q}" "distinct (map peer_id qs)"
    "\<forall>pr \<in> set prs. fst pr \<notin> peer_id ` set qs"
  shows "foldl (anti_entropy_peer loc (digest_map [] d) remote now) (queue_copies now prs d) qs =
    queue_copies now (prs @ concat (map (copies_for loc remote d) qs)) d"
  using assms(2-4)
proof (induction qs arbitrary: prs)
  case (Cons q qs)
  let ?new = "copies_for loc remote d q"
  have "distinct (map filepath (objects d))" using assms(1) by (simp add: db_ok_def objects_ok_def)
  then have rows: "distinct (map filepath (select_where obj_active (objects d)))"
    by (simp add: select_where_def distinct_map_filter)
  have "anti_entropy_peer loc (digest_map [] d) remote now (queue_copies now prs d) q = queue_copies now (prs @ ?new) d"
    using heal_rows [OF assms(1) _ rows, of "peer_id q" prs _ now] Cons.prems(1,3)
    by (auto simp: anti_entropy_peer_def copies_for_def digest_map_def missing_from_def set_select_where split: option.split)
  moreover have "\<forall>pr \<in> set (prs @ ?new). fst pr \<notin> peer_id ` set qs"
    using Cons.prems(2,3) by (auto simp: mem_copies)
  ultimately show ?case using Cons.IH [of "prs @ ?new"] Cons.prems(1,2) by simp
qed simp

lemma round_queues:
  assumes "db_ok d"
  shows "anti_entropy_round loc remote now d = queue_copies now (missing_copies loc remote d) d"
proof -
  have "distinct (map peer_id (peers d))" using assms by (simp add: db_ok_def keys_ok_def uniq_def)
  then have "distinct (map peer_id (list_active_peers d))"
    by (simp add: list_active_peers_def select_where_def distinct_map_filter)
  from heal_peers [OF assms _ this, of "[]" loc remote now] show ?thesis
    by (auto simp: anti_entropy_round_def missing_copies_def queue_copies_def list_active_peers_def set_select_where)
qed

lemma anti_entropy_ok:
  assumes "db_ok d"
  shows "db_ok (anti_entropy_round loc remote now d)"
proof -
  have fold: "db_ok (foldl f d xs)" if "\<And>d x. db_ok d \<Longrightarrow> db_ok (f d x)" "db_ok d" for f :: "db \<Rightarrow> 'x \<Rightarrow> db" and d xs
    using that(2) by (induction xs arbitrary: d) (simp_all add: that(1))
  have "db_ok (heal_entry p dg now d e)" if "db_ok d" for p dg d e
    using that enqueue_put_for_peer_ok [OF surjective_pairing that]
    by (auto simp: heal_entry_def Let_def split: prod.split option.split)
  then show ?thesis
    unfolding anti_entropy_round_def using assms
    by (intro fold) (auto simp: anti_entropy_peer_def split: option.split intro: fold)
qed

lemma mem_missing:
  "(p, r) \<in> set (missing_copies loc remote d) \<longleftrightarrow> (\<exists>dg. remote p = Some dg \<and> r \<in> set (missing_from d p dg))
     \<and> p \<noteq> loc \<and> active_peer p d"
proof -
  have "(p, r) \<in> set (missing_copies loc remote d) \<longleftrightarrow> (\<exists>q \<in> set (list_active_peers d). (p, r) \<in> set (copies_for loc remote d q))"
    by (simp add: missing_copies_def)
  then show ?thesis by (auto simp: mem_copies list_active_peers_def active_peer_def select_one_None set_select_where)
qed

lemma distinct_missing:
  assumes "db_ok d"
  shows "distinct (missing_copies loc remote d)"
proof -
  have "distinct (map obj_id (objects d))" using assms by (simp add: db_ok_def objects_ok_def)
  then have "distinct (objects d)" by (rule distinct_map [THEN iffD1, THEN conjunct1])
  then have one: "distinct (copies_for loc remote d q)" for q
    by (auto simp: copies_for_def missing_from_def select_where_def distinct_map inj_on_def split: option.split)
  have "distinct (map peer_id qs) \<Longrightarrow> distinct (concat (map (copies_for loc remote d) qs))" for qs
  proof (induction qs)
    case (Cons q qs)
    have "\<forall>x \<in> set qs. peer_id x \<noteq> peer_id q" using Cons.prems by (simp add: image_iff) metis
    then have "set (copies_for loc remote d q) \<inter> set (concat (map (copies_for loc remote d) qs)) = {}"
      by (auto simp: mem_copies)
    then show ?case using Cons one [of q] by simp
  qed simp
  moreover have "distinct (map peer_id (list_active_peers d))"
    using assms by (simp add: db_ok_def keys_ok_def uniq_def list_active_peers_def select_where_def distinct_map_filter)
  ultimately show ?thesis by (simp add: missing_copies_def)
qed

lemma missing_after_round: "missing_copies loc remote (queue_copies now (missing_copies loc remote d) d) = []"
proof -
  let ?d = "queue_copies now (missing_copies loc remote d) d"
  have "(p, r) \<notin> set (missing_copies loc remote ?d)" for p r
  proof
    assume m: "(p, r) \<in> set (missing_copies loc remote ?d)"
    then have "(p, r) \<in> set (missing_copies loc remote d)"
      by (auto simp: mem_missing missing_from_def open_put_queued active_peer_def)
    then have "open_put p (filepath r) ?d" unfolding open_put_queued by force
    then show False using m by (auto simp: mem_missing missing_from_def)
  qed
  then show ?thesis by (metis last_in_set surj_pair)
qed

text \<open>A round of anti-entropy queues exactly the copies that are missing: one PUT, due at once, for each active
  object and each other active peer that answers, should have the object's bucket, shows no blob or another etag under
  the object's path, and has no such job open; nothing else changes, and a second round with the same answers adds
  nothing.\<close>

theorem anti_entropy_exact:
  assumes "db_ok d" and "anti_entropy_round loc remote now d = d'"
  shows "d' = queue_copies now (missing_copies loc remote d) d \<and> distinct (missing_copies loc remote d)
    \<and> anti_entropy_round loc remote later d' = d' \<and> db_ok d'"
proof -
  have d': "d' = queue_copies now (missing_copies loc remote d) d" using round_queues [OF assms(1)] assms(2) by simp
  have ok: "db_ok d'" using anti_entropy_ok [OF assms(1), of loc remote now] assms(2) by simp
  then show ?thesis
    using d' distinct_missing [OF assms(1)] round_queues [OF ok, of loc remote later] missing_after_round [of loc remote now d]
    by (simp add: queue_copies_def)
qed

section \<open>A copy that is queued arrives\<close>

text \<open>Anti-entropy heals: the blob of an active object that an answering peer should have and does not show, and for
  which no job is open, is queued by the next round as a job that is due at once; when that job is delivered to a peer
  with neither the path nor the key, it succeeds, and afterwards the peer has the bytes and shows the object in its
  digest with the same etag.\<close>

theorem missing_copy_arrives:
  assumes ok: "db_ok d" and row: "r \<in> set (objects d)" "obj_active r" and bk: "get_bucket_by_id (obj_bucket_id r) d = Some b"
    and target: "active_peer p d" "p \<noteq> loc" "remote p = Some dg" "lacks d p dg r" "\<not> open_put p (filepath r) d"
    and blob: "fs_read (absolute_path_for eng (filepath r)) f = Some bs"
      "etag r = blob_hash digest xof (obj_etag_type r) bs" "filesize_bytes r = int (length bs)"
    and name: "trim (bucket_name b) = bucket_name b" "bucket_name b \<noteq> []"
    and peer: "db_ok (node_db peer)" "get_bucket_by_name (bucket_name b) (node_db peer) = Some pb"
      "filepath r \<notin> filepath ` set (objects (node_db peer))"
      "get_object_by_filename_in_bucket (original_filename r) (bucket_id pb) (node_db peer) = None"
    and round: "anti_entropy_round loc remote now d = d'"
  shows "\<exists>j peer'. j \<in> set (outbox d') \<and> job_peer_id j = p \<and> claimable now d' j
    \<and> process_job digest xof lower Delivered later eng f (job_view d' j) peer = (Inr (), peer')
    \<and> fs_read (absolute_path_for (node_engine peer) (filepath r)) (node_fs peer') = Some bs
    \<and> (filepath r, etag r) \<in> set (sync_digest [] peer')"
proof -
  have d': "d' = queue_copies now (missing_copies loc remote d) d" using round_queues [OF ok] round by simp
  have "(p, r) \<in> set (missing_copies loc remote d)"
    using target row by (simp add: mem_missing missing_from_def set_select_where)
  then obtain i where j: "copy_job now (p, r) i \<in> set (outbox d')" unfolding d' by (rule queued_job)
  let ?j = "copy_job now (p, r) i"
  have due: "claimable now d' ?j" using target(1) by (simp add: claimable_def active_peer_def d')
  have look: "get_object_by_id (obj_id r) d' = Some r" "get_bucket_by_id (obj_bucket_id r) d' = Some b"
    using obj_tbl.row_of_mem [of d r] row(1) ok bk
    by (simp_all add: get_object_by_id_def get_bucket_by_id_def d' db_ok_def objects_ok_def)
  obtain peer' r' where run: "process_job digest xof lower Delivered later eng f (job_view d' ?j) peer = (Inr (), peer')"
    "fs_read (absolute_path_for (node_engine peer) (filepath r)) (node_fs peer') = Some bs"
    and r': "get_object_by_filename_in_bucket (original_filename r) (bucket_id pb) (node_db peer') = Some r'"
      "r' = r\<lparr>obj_id := obj_id r', obj_bucket_id := bucket_id pb, deleted_at := None\<rparr>"
    using put_delivers [OF look _ _ blob name peer, of ?j lower later] by auto
  have "r' \<in> set (objects (node_db peer'))" "obj_active r'"
    using r'(1) unfolding get_object_by_filename_in_bucket_def by (auto dest: select_one_Some)
  moreover have "filepath r' = filepath r" "etag r' = etag r" by (subst r'(2), simp)+
  ultimately have "(filepath r, etag r) \<in> (\<lambda>x. (filepath x, etag x)) ` set (select_where obj_active (objects (node_db peer')))"
    by (intro image_eqI [of _ _ r']) (simp_all add: set_select_where)
  then have "(filepath r, etag r) \<in> set (sync_digest [] peer')" by (simp add: sync_digest_def digest_map_def)
  with j due run show ?thesis by (intro exI [of _ ?j] exI [of _ peer']) simp
qed

section \<open>Witnesses\<close>

text \<open>A node with one blob and a peer that should have it and has nothing.\<close>

definition lossy_db :: db where
  "lossy_db = upsert_peer ''n2'' ''10.0.0.2:50051'' (demo_db\<lparr>objects := [sent_object]\<rparr>)"

theorem anti_entropy_exact_witness:
  "let d' = anti_entropy_round ''n1'' (\<lambda>_. Some []) 5 lossy_db in
   length (outbox d') = 1 \<and> anti_entropy_round ''n1'' (\<lambda>_. Some []) 9 d' = d'"
proof -
  have ok: "db_ok lossy_db" and one: "length (outbox (anti_entropy_round ''n1'' (\<lambda>_. Some []) 5 lossy_db)) = 1" by code_simp+
  from anti_entropy_exact [OF ok refl, of "''n1''" "\<lambda>_. Some []" 5 9] one show ?thesis unfolding Let_def by blast
qed

theorem missing_copy_arrives_witness:
  "\<exists>j peer'. j \<in> set (outbox (anti_entropy_round ''n1'' (\<lambda>_. Some []) 5 lossy_db))
     \<and> process_job toy_digest toy_xof ascii_lower Delivered 7 (engine_init ''/data'') [(''/data/objects/1.bin'', ''abc'')]
         (job_view (anti_entropy_round ''n1'' (\<lambda>_. Some []) 5 lossy_db) j) (demo_node ''n2'' (initial_db 0) []) = (Inr (), peer')
     \<and> (''objects/1.bin'', ''03'') \<in> set (sync_digest [] peer')"
proof -
  let ?f = "[(''/data/objects/1.bin'', ''abc'')]" and ?peer = "demo_node ''n2'' (initial_db 0) []"
  let ?b = "hd (buckets (initial_db 0))"
  have "db_ok lossy_db" "sent_object \<in> set (objects lossy_db)" "obj_active sent_object"
    "get_bucket_by_id (obj_bucket_id sent_object) lossy_db = Some ?b"
    "active_peer ''n2'' lossy_db" "''n2'' \<noteq> ''n1''" "(\<lambda>_. Some []) ''n2'' = Some ([] :: (string \<times> string) list)"
    "lacks lossy_db ''n2'' [] sent_object" "\<not> open_put ''n2'' (filepath sent_object) lossy_db"
    "fs_read (absolute_path_for (engine_init ''/data'') (filepath sent_object)) ?f = Some ''abc''"
    "etag sent_object = blob_hash toy_digest toy_xof (obj_etag_type sent_object) ''abc''"
    "filesize_bytes sent_object = int (length ''abc'')"
    "trim (bucket_name ?b) = bucket_name ?b" "bucket_name ?b \<noteq> []"
    "db_ok (node_db ?peer)" "get_bucket_by_name (bucket_name ?b) (node_db ?peer) = Some ?b"
    "filepath sent_object \<notin> filepath ` set (objects (node_db ?peer))"
    "get_object_by_filename_in_bucket (original_filename sent_object) (bucket_id ?b) (node_db ?peer) = None"
    by code_simp+
  note missing_copy_arrives [OF this refl, of 5 ascii_lower 7]
  moreover have "filepath sent_object = ''objects/1.bin''" "etag sent_object = ''03''" by code_simp+
  ultimately show ?thesis by auto
qed

end
