(* ===== verification/Spec2Isabelle.thy ===== *)
theory Spec2Isabelle
  imports Sharing Server Dashboard Recovery Keystore Healing
begin

text \<open>
  MyS3 is an object store written in Rust. One process, a node, keeps its metadata in SQLite and its blobs in files
  named by random paths; it serves an S3 interface signed with SigV4, a JSON interface behind sessions with roles and
  permissions per bucket, share links and signed media links; it replicates blobs to peers over gRPC from a
  transactional outbox, with an anti-entropy task that repairs; and it shows a dashboard in the terminal. Everything
  under \<open>src/src/\<close> that decides something is modelled; files below are named relative to that directory.

  \<^bold>\<open>How the code is represented.\<close>
  A structure of the code is a record, an enumeration a datatype with a \<open>_to_string\<close> and a \<open>_from_str\<close> function
  where the code has \<open>Display\<close> and \<open>FromStr\<close>. A \<open>String\<close> is the list of its UTF-8 bytes. The database is the record \<open>db\<close> with one field
  per table, each the list of its rows in the order of their keys' insertion; a constraint of the migrations that a
  statement violates makes it return an error and the old table, and \<open>db_ok\<close> says that all of them hold: keys and unique
  columns (also the optional ones, as the short codes of shares), foreign keys, and the rows the migrations seed that no
  operation removes. \<open>i64\<close> columns and their sums are \<open>int\<close> without a bound, counters of the dashboard 64-bit words.
  A time is its seconds; where SQLite compares the texts of two times in different formats, the comparison is written
  out (\<open>stamp_le\<close>). A function that can fail returns \<open>'a res\<close>, the sum of an error and
  a value, together with the new state; a transaction that is rolled back returns the old one. A handler takes the
  account the extractor in front of it found, its path, query and body, the random bytes it draws and the time, and
  returns its reply and the new \<open>node\<close>: database, files, storage engine, emitted dashboard events. Code of libraries is
  an argument: digests, HMAC, Argon2, base64, the archive formats, QR codes, the MIME table, the parser of socket
  addresses, the clock's arithmetic, and what the network does with each message.

  \<^bold>\<open>Prelude.\<close>
  \<open>Rust_Base\<close> (strings, checked slices, integers), \<open>Sql_Base\<close> (ordering, LIKE, update and delete of rows, and the locales
  \<open>keyed_table\<close> and \<open>auto_table\<close>: what the client of a table with a key may rely on), \<open>Systems\<close> (the locales
  \<open>invariant_system\<close> of every state machine below and \<open>served_refinement\<close> of a part that answers requests). \<open>Database\<close>
  interprets the table locales for the ten tables with keys; \<open>Storage\<close> states what an incremental hasher promises
  (\<open>incremental_hash\<close>) and interprets it for all algorithms.

  \<^bold>\<open>Data and repository.\<close>
  \<open>Models\<close> (\<open>db/models.rs\<close>), \<open>Database\<close> (\<open>migrations/\<close>), \<open>Objects\<close> and \<open>Listing\<close> (the object table of \<open>db/repository.rs\<close>:
  statements; listing, folders, search), \<open>Rbac\<close> (\<open>db/rbac.rs\<close>), \<open>Nodes\<close> (peers, node assignments and quotas, etag state;
  \<open>cluster/peer_manager.rs\<close>), \<open>Outbox\<close> (\<open>cluster/outbox.rs\<close> and its statements), \<open>Shares\<close> (\<open>db/shares.rs\<close>). \<open>Invariants\<close>
  shows that every statement keeps \<open>db_ok\<close> and closes the repository under it; \<open>Access\<close>, \<open>Queue\<close> and \<open>Sharing\<close> show what
  permissions, the queue, object keys (\<open>Keys\<close>, \<open>server/keys.rs\<close>) and shares promise. A deletion cascades as the foreign
  keys say.

  \<^bold>\<open>Blobs and upkeep.\<close>
  \<open>Storage\<close> (\<open>storage/hasher.rs\<close>, \<open>storage/engine.rs\<close>), \<open>Reconcile\<close> (\<open>storage/reconcile.rs\<close>), \<open>Maintenance\<close>
  (\<open>server/purge.rs\<close>, \<open>server/etag_rehash.rs\<close>), \<open>Relocate\<close> (\<open>storage/relocate.rs\<close>); \<open>Delivery\<close> and \<open>Upkeep\<close> hold the
  properties: what is stored and hashed, what reconciling and purging remove, exactly.

  \<^bold>\<open>Cluster.\<close>
  \<open>Cluster\<close> (\<open>cluster/grpc_client.rs\<close>, \<open>grpc_server.rs\<close>, \<open>worker.rs\<close>, \<open>anti_entropy.rs\<close>): the requests a sender makes, the
  handlers of a receiver, one tick of the worker and one round of the repair. A stream is the messages that arrive and
  whether it broke. \<open>Healing\<close> shows which jobs a round queues and that a copy so queued and delivered arrives.

  \<^bold>\<open>The interfaces.\<close>
  \<open>S3\<close> and \<open>Serving\<close> (\<open>server/s3_routes.rs\<close>) hold the S3 routes, and \<open>Keystore\<close> what they promise together: they refine a
  store of versions by bucket and key with its quotas, for arbitrary requests on an arbitrary database; \<open>Auth\<close> and
  \<open>Handlers\<close> (\<open>server/auth_sigv4.rs\<close>, \<open>server/session_auth.rs\<close>, the layer of \<open>server/mod.rs\<close>; the signature that a request
  must carry is stated on its own, \<open>aws_signature\<close>), \<open>Media\<close> (\<open>server/media_access.rs\<close>),
  \<open>Share_Routes\<close> (\<open>server/share_routes.rs\<close>), \<open>Archive\<close> and \<open>Web_Routes\<close> (\<open>server/folder_archive.rs\<close>,
  \<open>server/web_routes.rs\<close>), and \<open>Account_Routes\<close>, \<open>Bucket_Routes\<close>, \<open>Recycle_Routes\<close>, \<open>Storage_Routes\<close>
  (\<open>server/settings_routes.rs\<close>). Each theory has the handlers first and what they promise after.
  \<open>Recovery\<close> is the password tool of \<open>examples/reset_password.rs\<close>.

  \<^bold>\<open>The whole node.\<close>
  \<open>Api\<close> puts the handlers behind one datatype of calls with their methods and paths and defines the access matrix
  \<open>writes\<close>: the tables, the objects split by bucket, that a call of an account may write, as a function of the
  permissions in the database. \<open>Effects\<close> gives each operation of the repository its footprint (\<open>touches T d d'\<close>: the
  constraints are kept and what is not in \<open>T\<close> is unchanged) and composes them; \<open>Confinement\<close> shows for each handler that
  it stays within the matrix; \<open>Authority\<close> draws the consequences for the accounts. \<open>Server\<close> (\<open>main.rs\<close>, with \<open>Config\<close>
  for \<open>config.rs\<close> and \<open>Wireguard\<close> for \<open>network/wireguard.rs\<close>) starts the node and serves sequences of events: requests of
  both interfaces, remote calls, ticks of the workers, runs of spawned tasks; the invariants of a running node are
  those of the interpretations \<open>server\<close> and \<open>claimed\<close>. \<open>Tui\<close> and \<open>Dashboard\<close> (\<open>tui/\<close>) fold the events the node emits and say
  what is drawn.

  \<^bold>\<open>Steps and termination.\<close>
  A handler, a tick, a remote call and a task run as one step each, so interleavings inside a handler are not
  distinguished; sequences of steps are arbitrary. There is no fuel in a claim: loops over rows, chunks and paths are
  structural or have a measure, and the two that may not end by their shape -- the command line (\<open>cli_loop\<close>) and copying
  a directory into itself (\<open>copy_entries\<close>) -- are partial functions whose values are shown to exist where the code needs
  them.

  \<^bold>\<open>Not modelled.\<close>
  Errors of the disk while reading and writing blobs, symbolic links; the queries' failures that have no cause in the
  data (a lost connection); decoding of requests and matching of paths by the framework; the sockets, TLS and framing
  of gRPC; timers, logging and the order in which tasks end at a shutdown; the terminal's modes, layout and colours;
  the digits of floating-point numbers that are only displayed. PUT /settings/storage closes the database and ends the
  process, so it is modelled on its own (\<open>Storage_Routes\<close>) and is not a call of \<open>Api\<close>. The JavaScript of the web
  interface and the build script are not part of the server.
\<close>

end
